theory Spec2Isabelle
  imports Main "HOL-Library.Sublist"
begin

section \<open>JavaScript strings\<close>

text \<open>
  A JavaScript string is a sequence of UTF-16 code units. A code unit is modelled by its
  number, so that the characters beyond Latin-1 which the sanitizer's Unicode table
  mentions are ordinary values. \<open>js\<close> turns a literal into its code units.
\<close>

type_synonym jsstring = "int list"

definition js :: "string \<Rightarrow> jsstring" where
  "js s = map of_char s"

text \<open>\<open>String.prototype.indexOf\<close> with position 0: the first index at which the
  search string occurs.\<close>

fun findFirst :: "jsstring \<Rightarrow> jsstring \<Rightarrow> nat option" where
  "findFirst pat [] = (if pat = [] then Some 0 else None)"
| "findFirst pat (c # cs) =
     (if prefix pat (c # cs) then Some 0 else map_option Suc (findFirst pat cs))"

text \<open>\<open>s.indexOf(pat, pos)\<close>: the position is clamped to the length of the string.\<close>

definition indexOf :: "jsstring \<Rightarrow> jsstring \<Rightarrow> nat \<Rightarrow> nat option" where
  "indexOf s pat pos =
     (let p = min pos (length s) in map_option (\<lambda>k. k + p) (findFirst pat (drop p s)))"

text \<open>Where an occurrence lies: this is what makes the loops over \<open>indexOf\<close>
  terminate.\<close>

lemma findFirst_bound: "findFirst pat s = Some i \<Longrightarrow> i + length pat \<le> length s"
  by (induction s arbitrary: i) (auto split: if_splits dest: prefix_length_le)

lemma indexOf_bounds:
  assumes "indexOf s pat pos = Some idx" and "pat \<noteq> []"
  shows "pos \<le> idx \<and> idx + length pat \<le> length s"
proof -
  from assms(1) obtain k where k: "findFirst pat (drop (min pos (length s)) s) = Some k"
    and idx: "idx = k + min pos (length s)"
    by (auto simp: indexOf_def Let_def)
  from findFirst_bound[OF k] have "idx + length pat \<le> length s"
    using idx by simp
  moreover have "0 < length pat" using assms(2) by simp
  ultimately show ?thesis using idx by linarith
qed

text \<open>\<open>s.includes(pat)\<close>.\<close>

definition includesStr :: "jsstring \<Rightarrow> jsstring \<Rightarrow> bool" where
  "includesStr s pat = (findFirst pat s \<noteq> None)"

text \<open>The abstract operation \<open>StringIndexOf\<close> of ECMAScript, which
  \<open>replace\<close> and \<open>replaceAll\<close> use: unlike \<open>indexOf\<close> it does not clamp, a start beyond
  the end finds nothing.\<close>

definition stringIndexOf :: "jsstring \<Rightarrow> jsstring \<Rightarrow> nat \<Rightarrow> nat option" where
  "stringIndexOf s pat from =
     (if from > length s then None
      else map_option (\<lambda>k. k + from) (findFirst pat (drop from s)))"

text \<open>\<open>s.substring(a, b)\<close>: both indices are clamped to the length and swapped when
  they come in the wrong order.\<close>

definition substring :: "jsstring \<Rightarrow> nat \<Rightarrow> nat \<Rightarrow> jsstring" where
  "substring s a b =
     (let a' = min a (length s); b' = min b (length s);
          lo = min a' b'; hi = max a' b'
      in take (hi - lo) (drop lo s))"

abbreviation (input) DOLLAR :: int where "DOLLAR \<equiv> 36"
abbreviation (input) AMPERSAND :: int where "AMPERSAND \<equiv> 38"
abbreviation (input) APOSTROPHE :: int where "APOSTROPHE \<equiv> 39"
abbreviation (input) BACKTICK :: int where "BACKTICK \<equiv> 96"

text \<open>
  The abstract operation \<open>GetSubstitution\<close> for a string pattern (no captures, no named
  groups): in the replacement text \<open>$$\<close> stands for a dollar sign, \<open>$&\<close> for the matched
  text, \<open>$`\<close> for the text before the match and \<open>$'\<close> for the text after it. A dollar sign
  followed by digits or by \<open><\<close> refers to a capture that does not exist and stays as it
  is written, as does any other dollar sign.
\<close>

fun getSubstitution :: "jsstring \<Rightarrow> jsstring \<Rightarrow> jsstring \<Rightarrow> jsstring \<Rightarrow> jsstring" where
  "getSubstitution matched pre post [] = []"
| "getSubstitution matched pre post [c] = [c]"
| "getSubstitution matched pre post (c # d # r) =
     (if c = DOLLAR \<and> d = DOLLAR then DOLLAR # getSubstitution matched pre post r
      else if c = DOLLAR \<and> d = BACKTICK then pre @ getSubstitution matched pre post r
      else if c = DOLLAR \<and> d = AMPERSAND then matched @ getSubstitution matched pre post r
      else if c = DOLLAR \<and> d = APOSTROPHE then post @ getSubstitution matched pre post r
      else c # getSubstitution matched pre post (d # r))"

text \<open>\<open>s.replace(pat, templ)\<close> with a string pattern: only the first occurrence.\<close>

definition replaceFirst :: "jsstring \<Rightarrow> jsstring \<Rightarrow> jsstring \<Rightarrow> jsstring" where
  "replaceFirst s pat templ =
     (case stringIndexOf s pat 0 of
        None \<Rightarrow> s
      | Some p \<Rightarrow>
          take p s @ getSubstitution pat (take p s) (drop (p + length pat) s) templ
            @ drop (p + length pat) s)"

text \<open>
  \<open>s.replaceAll(pat, templ)\<close> with a string pattern, as ECMAScript specifies it: first
  the positions of the matches, each search starting \<open>max 1 (length pat)\<close> after the last
  match, then the result, built from the text between the matches and the substitutions.
\<close>

function matchPositions :: "jsstring \<Rightarrow> jsstring \<Rightarrow> nat \<Rightarrow> nat list" where
  "matchPositions s pat from =
     (case stringIndexOf s pat from of
        None \<Rightarrow> []
      | Some p \<Rightarrow> p # matchPositions s pat (p + max 1 (length pat)))"
  by pat_completeness auto
termination
proof (relation "measure (\<lambda>(s, pat, from). Suc (length s) - from)")
  show "wf (measure (\<lambda>(s, pat, from). Suc (length s) - from))" by simp
next
  fix s pat :: jsstring and "from" p :: nat
  assume "stringIndexOf s pat from = Some p"
  then have "from \<le> length s" and "from \<le> p"
    by (auto simp: stringIndexOf_def split: if_splits)
  then show "((s, pat, p + max 1 (length pat)), (s, pat, from))
      \<in> measure (\<lambda>(s, pat, from). Suc (length s) - from)"
    by simp
qed

declare matchPositions.simps [simp del]

fun buildReplaced :: "jsstring \<Rightarrow> jsstring \<Rightarrow> jsstring \<Rightarrow> nat list \<Rightarrow> nat \<Rightarrow> jsstring" where
  "buildReplaced s pat templ [] endOfLastMatch = drop endOfLastMatch s"
| "buildReplaced s pat templ (p # ps) endOfLastMatch =
     substring s endOfLastMatch p
       @ getSubstitution pat (take p s) (drop (p + length pat) s) templ
       @ buildReplaced s pat templ ps (p + length pat)"

definition replaceAll :: "jsstring \<Rightarrow> jsstring \<Rightarrow> jsstring \<Rightarrow> jsstring" where
  "replaceAll s pat templ = buildReplaced s pat templ (matchPositions s pat 0) 0"

subsection \<open>Character classes, trimming, splitting\<close>

text \<open>The class \<open>\s\<close> of a JavaScript regular expression, which is also what
  \<open>String.prototype.trim\<close> removes: white space and line terminators.\<close>

definition isSpace :: "int \<Rightarrow> bool" where
  "isSpace c \<longleftrightarrow>
     c = 9 \<or> c = 10 \<or> c = 11 \<or> c = 12 \<or> c = 13 \<or> c = 32 \<or> c = 160 \<or> c = 5760
     \<or> (8192 \<le> c \<and> c \<le> 8202) \<or> c = 8232 \<or> c = 8233 \<or> c = 8239 \<or> c = 8287
     \<or> c = 12288 \<or> c = 65279"

text \<open>The class \<open>\w\<close>: ASCII letters, digits and the underscore.\<close>

definition isWord :: "int \<Rightarrow> bool" where
  "isWord c \<longleftrightarrow>
     (65 \<le> c \<and> c \<le> 90) \<or> (97 \<le> c \<and> c \<le> 122) \<or> (48 \<le> c \<and> c \<le> 57) \<or> c = 95"

text \<open>The dot of a regular expression matches everything but a line terminator.\<close>

definition isLineTerminator :: "int \<Rightarrow> bool" where
  "isLineTerminator c \<longleftrightarrow> c = 10 \<or> c = 13 \<or> c = 8232 \<or> c = 8233"

definition trimStart :: "jsstring \<Rightarrow> jsstring" where
  "trimStart s = dropWhile isSpace s"

definition trimEnd :: "jsstring \<Rightarrow> jsstring" where
  "trimEnd s = rev (dropWhile isSpace (rev s))"

definition trim :: "jsstring \<Rightarrow> jsstring" where
  "trim s = trimEnd (trimStart s)"

text \<open>\<open>s.split(sep)\<close> for a separator of one code unit: the empty string gives one
  empty piece.\<close>

fun splitOn :: "int \<Rightarrow> jsstring \<Rightarrow> jsstring list" where
  "splitOn sep [] = [[]]"
| "splitOn sep (c # cs) =
     (if c = sep then [] # splitOn sep cs
      else (case splitOn sep cs of
              [] \<Rightarrow> [[c]]
            | piece # pieces \<Rightarrow> (c # piece) # pieces))"

text \<open>\<open>pieces.join(sep)\<close>.\<close>

fun joinWith :: "jsstring \<Rightarrow> jsstring list \<Rightarrow> jsstring" where
  "joinWith sep [] = []"
| "joinWith sep [piece] = piece"
| "joinWith sep (piece # pieces) = piece @ sep @ joinWith sep pieces"

text \<open>\<open>s.startsWith(p)\<close> and \<open>s.endsWith(p)\<close>.\<close>

definition startsWith :: "jsstring \<Rightarrow> jsstring \<Rightarrow> bool" where
  "startsWith s p = prefix p s"

definition endsWith :: "jsstring \<Rightarrow> jsstring \<Rightarrow> bool" where
  "endsWith s p = suffix p s"

section \<open>The sanitizer\<close>

subsection \<open>Stripping what shadows the names the wrapper provides\<close>

definition PROVIDED_VARS :: "jsstring list" where
  "PROVIDED_VARS =
     [js ''React'', js ''THREE'', js ''useFrame'', js ''useThree'', js ''Text'', js ''params'']"

text \<open>
  The regular expressions of the sanitizer are anchored and built from runs of disjoint
  character classes, so each has at most one way to match and is written here as the
  function that follows this one way: a greedy \<open>\s+\<close> or \<open>\w+\<close> takes the whole run,
  because what must come next is outside the class.

  \<open>(?:const|let|var)\<close> at the start of the text: the three words begin with different
  letters, so at most one alternative applies. The result is the keyword and what
  follows it.
\<close>

definition matchDeclKeyword :: "jsstring \<Rightarrow> (jsstring \<times> jsstring) option" where
  "matchDeclKeyword s =
     (if prefix (js ''const'') s then Some (js ''const'', drop 5 s)
      else if prefix (js ''let'') s then Some (js ''let'', drop 3 s)
      else if prefix (js ''var'') s then Some (js ''var'', drop 3 s)
      else None)"

text \<open>\<open>t.replace(/^export\s+default\s+/, '')\<close>.\<close>

definition stripExportDefault :: "jsstring \<Rightarrow> jsstring" where
  "stripExportDefault t =
     (if \<not> prefix (js ''export'') t then t
      else let r = drop 6 t; r1 = dropWhile isSpace r
           in if takeWhile isSpace r = [] \<or> \<not> prefix (js ''default'') r1 then t
              else let r2 = drop 7 r1
                   in if takeWhile isSpace r2 = [] then t else dropWhile isSpace r2)"

text \<open>\<open>t.replace(/^export\s+/, '')\<close>.\<close>

definition stripExport :: "jsstring \<Rightarrow> jsstring" where
  "stripExport t =
     (if \<not> prefix (js ''export'') t then t
      else let r = drop 6 t
           in if takeWhile isSpace r = [] then t else dropWhile isSpace r)"

text \<open>\<open>t.match(/^function\s+(\w+)\s*\(/)\<close>: the captured name.\<close>

definition matchFunctionDecl :: "jsstring \<Rightarrow> jsstring option" where
  "matchFunctionDecl t =
     (if \<not> prefix (js ''function'') t then None
      else let r = drop 8 t; r1 = dropWhile isSpace r;
               name = takeWhile isWord r1; r2 = dropWhile isSpace (dropWhile isWord r1)
           in if takeWhile isSpace r \<noteq> [] \<and> name \<noteq> [] \<and> prefix (js ''('') r2
              then Some name else None)"

text \<open>
  \<open>t.match(/^((?:const|let|var)\s+)\{([^}]+)\}(\s*=\s*.+)$/)\<close>: the three groups.
  The names run up to the first closing brace. After the equals sign come \<open>\s*.+$\<close>:
  some white space, then at least one character, none of them a line terminator, up to
  the end of the text; white space can be a line terminator, so the split between the
  two is searched for.
\<close>

definition matchRhsTail :: "jsstring \<Rightarrow> bool" where
  "matchRhsTail r =
     list_ex (\<lambda>k. list_all isSpace (take k r) \<and> drop k r \<noteq> []
                  \<and> \<not> list_ex isLineTerminator (drop k r)) [0..<Suc (length r)]"

definition matchDestructure :: "jsstring \<Rightarrow> (jsstring \<times> jsstring \<times> jsstring) option" where
  "matchDestructure t =
     (case matchDeclKeyword t of
        None \<Rightarrow> None
      | Some (kw, r) \<Rightarrow>
          let ws = takeWhile isSpace r; r1 = dropWhile isSpace r
          in if ws = [] \<or> \<not> prefix (js ''{'') r1 then None
             else let r2 = drop 1 r1;
                      namesStr = takeWhile (\<lambda>c. c \<noteq> 125) r2;
                      r3 = dropWhile (\<lambda>c. c \<noteq> 125) r2
                  in if namesStr = [] \<or> r3 = [] then None
                     else let rhs = drop 1 r3; r4 = dropWhile isSpace rhs
                          in if prefix (js ''='') r4 \<and> matchRhsTail (drop 1 r4)
                             then Some (kw @ ws, namesStr, rhs) else None)"

text \<open>\<open>t.match(/^(?:const|let|var)\s+(\w+)\s*=/)\<close>: the captured name.\<close>

definition matchDirectDecl :: "jsstring \<Rightarrow> jsstring option" where
  "matchDirectDecl t =
     (case matchDeclKeyword t of
        None \<Rightarrow> None
      | Some (kw, r) \<Rightarrow>
          let r1 = dropWhile isSpace r;
              name = takeWhile isWord r1; r2 = dropWhile isSpace (dropWhile isWord r1)
          in if takeWhile isSpace r \<noteq> [] \<and> name \<noteq> [] \<and> prefix (js ''='') r2
             then Some name else None)"

text \<open>\<open>n.split(/[\s:]/)[0].trim()\<close>: the binding's own name, before any colon or
  white space.\<close>

definition bindingName :: "jsstring \<Rightarrow> jsstring" where
  "bindingName n = trim (takeWhile (\<lambda>c. \<not> isSpace c \<and> c \<noteq> 58) n)"

definition isProvided :: "jsstring \<Rightarrow> bool" where
  "isProvided name \<longleftrightarrow> name \<in> set PROVIDED_VARS"

text \<open>
  The callback that \<open>sanitizeSimulationCode\<close> maps over the lines. Each rule either
  returns the new line or lets the next rule try.
\<close>

definition exportRule :: "jsstring \<Rightarrow> jsstring \<Rightarrow> jsstring option" where
  "exportRule line trimmed =
     (if startsWith trimmed (js ''export default '') \<or> startsWith trimmed (js ''export '')
      then Some (replaceFirst line trimmed (stripExport (stripExportDefault trimmed)))
      else None)"

definition funcShadowRule :: "jsstring \<Rightarrow> jsstring \<Rightarrow> jsstring option" where
  "funcShadowRule line trimmed =
     (case matchFunctionDecl trimmed of
        None \<Rightarrow> None
      | Some name \<Rightarrow>
          if isProvided name
          then Some (replaceFirst line (js ''function '' @ name) (js ''function _shadow_'' @ name))
          else None)"

definition destructureRule :: "jsstring \<Rightarrow> jsstring option" where
  "destructureRule trimmed =
     (case matchDestructure trimmed of
        None \<Rightarrow> None
      | Some (keyword, namesStr, rhs) \<Rightarrow>
          let names = filter (\<lambda>s. s \<noteq> []) (map trim (splitOn 44 namesStr));
              conflicting = filter (\<lambda>n. isProvided (bindingName n)) names;
              remaining = filter (\<lambda>n. \<not> isProvided (bindingName n)) names
          in if conflicting = [] then None
             else if remaining = [] then Some []
             else Some (keyword @ js ''{ '' @ joinWith (js '', '') remaining @ js '' }'' @ rhs))"

definition directDeclRule :: "jsstring \<Rightarrow> jsstring option" where
  "directDeclRule trimmed =
     (case matchDirectDecl trimmed of
        None \<Rightarrow> None
      | Some name \<Rightarrow> if isProvided name then Some [] else None)"

definition stripShadowLine :: "jsstring \<Rightarrow> jsstring" where
  "stripShadowLine line =
     (let trimmed = trim line
      in if startsWith trimmed (js ''import '') then []
         else case exportRule line trimmed of
           Some r \<Rightarrow> r
         | None \<Rightarrow>
             (case funcShadowRule line trimmed of
                Some r \<Rightarrow> r
              | None \<Rightarrow>
                  (case destructureRule trimmed of
                     Some r \<Rightarrow> r
                   | None \<Rightarrow>
                       (case directDeclRule trimmed of
                          Some r \<Rightarrow> r
                        | None \<Rightarrow> line))))"

text \<open>The first step of \<open>sanitizeSimulationCode\<close>:
  \<open>code.split('\n').map(...).join('\n')\<close>.\<close>

definition stripShadows :: "jsstring \<Rightarrow> jsstring" where
  "stripShadows code = joinWith [10] (map stripShadowLine (splitOn 10 code))"

subsection \<open>Hoisting hooks out of blocks\<close>

definition hookNames :: "jsstring list" where
  "hookNames = [js ''useMemo'', js ''useRef'', js ''useEffect'', js ''useState'', js ''useCallback'']"

text \<open>The search text \<open>`React.${hookName}(`\<close>.\<close>

definition hookSearch :: "jsstring \<Rightarrow> jsstring" where
  "hookSearch hookName = js ''React.'' @ hookName @ js ''(''"

definition isQuote :: "int \<Rightarrow> bool" where
  "isQuote c \<longleftrightarrow> c = 39 \<or> c = 34 \<or> c = 96"

text \<open>
  The brace-depth map: \<open>depthAt[i]\<close> for every index, computed by one pass that carries
  the depth, the quote of the string literal it is in (if any) and whether the last
  character was a backslash inside a literal. The depth goes below zero on a closing
  brace without an opening one.
\<close>

fun depthMap :: "int \<Rightarrow> int option \<Rightarrow> bool \<Rightarrow> jsstring \<Rightarrow> int list" where
  "depthMap depth inStr escaped [] = []"
| "depthMap depth inStr escaped (ch # rest) =
     (if escaped then depth # depthMap depth inStr False rest
      else if ch = 92 \<and> inStr \<noteq> None then depth # depthMap depth inStr True rest
      else if inStr \<noteq> None
        then depth # depthMap depth (if inStr = Some ch then None else inStr) False rest
      else if isQuote ch then depth # depthMap depth (Some ch) False rest
      else if ch = 123 then (depth + 1) # depthMap (depth + 1) None False rest
      else if ch = 125 then (depth - 1) # depthMap (depth - 1) None False rest
      else depth # depthMap depth None False rest)"

definition buildDepthAt :: "jsstring \<Rightarrow> int list" where
  "buildDepthAt result = depthMap 0 None False result"

text \<open>\<open>depthAt[idx] > 0\<close>; beyond the array the value is \<open>undefined\<close> and the
  comparison is false.\<close>

definition depthPositive :: "int list \<Rightarrow> nat \<Rightarrow> bool" where
  "depthPositive depthAt idx = (case drop idx depthAt of [] \<Rightarrow> False | d # _ \<Rightarrow> d > 0)"

text \<open>
  \<open>(?:const|let|var)\s+(\w+)\s*=\s*$\<close>, tried at the start of a text: a declaration
  keyword, a name and an equals sign, with nothing but white space up to the end. The
  result is the name.
\<close>

definition declAtStart :: "jsstring \<Rightarrow> jsstring option" where
  "declAtStart s =
     (case matchDeclKeyword s of
        None \<Rightarrow> None
      | Some (kw, r) \<Rightarrow>
          let r1 = dropWhile isSpace r;
              name = takeWhile isWord r1; r2 = dropWhile isSpace (dropWhile isWord r1)
          in if takeWhile isSpace r \<noteq> [] \<and> name \<noteq> [] \<and> prefix (js ''='') r2
                \<and> dropWhile isSpace (drop 1 r2) = []
             then Some name else None)"

text \<open>The same expression searched for in a text, as \<open>match\<close> does: the leftmost start
  at which it matches. The match runs to the end of the text; the result is the matched
  text and the captured name.\<close>

fun searchDeclTail :: "jsstring \<Rightarrow> (jsstring \<times> jsstring) option" where
  "searchDeclTail [] = None"
| "searchDeclTail (c # cs) =
     (case declAtStart (c # cs) of
        Some name \<Rightarrow> Some (c # cs, name)
      | None \<Rightarrow> searchDeclTail cs)"

text \<open>
  The loop that walks forward from the opening parenthesis of the hook call to the
  matching closing one, skipping string literals: the number of characters it advances
  \<open>endPos\<close> by. \<open>parenDepth\<close> is at least 1 while the loop runs.
\<close>

fun scanCall :: "nat \<Rightarrow> int option \<Rightarrow> bool \<Rightarrow> jsstring \<Rightarrow> nat" where
  "scanCall parenDepth pInStr pEscaped [] = 0"
| "scanCall parenDepth pInStr pEscaped (c # rest) =
     (if pEscaped then Suc (scanCall parenDepth pInStr False rest)
      else if c = 92 \<and> pInStr \<noteq> None then Suc (scanCall parenDepth pInStr True rest)
      else if pInStr \<noteq> None
        then Suc (scanCall parenDepth (if pInStr = Some c then None else pInStr) False rest)
      else if isQuote c then Suc (scanCall parenDepth (Some c) False rest)
      else if c = 40 then Suc (scanCall (Suc parenDepth) None False rest)
      else if c = 41 then (if parenDepth - 1 = 0 then 1
                           else Suc (scanCall (parenDepth - 1) None False rest))
      else Suc (scanCall parenDepth None False rest))"

text \<open>
  What the loop body does once it has found the hook call at \<open>idx\<close> inside a block:
  the statement \<open>stmt\<close> it extracts (first component) and the new \<open>result\<close>, the code
  that is left (second component).
\<close>

definition extractHookStatement :: "jsstring \<Rightarrow> nat \<Rightarrow> jsstring \<Rightarrow> jsstring \<times> jsstring" where
  "extractHookStatement result idx search =
     (let lookBack = substring result (idx - 120) idx;
          stmtStart = (case searchDeclTail lookBack of
                         Some (matched, name) \<Rightarrow> idx - length matched
                       | None \<Rightarrow> idx);
          parenStart = idx + length search - 1;
          endPos0 = parenStart + 1 + scanCall 1 None False (drop (parenStart + 1) result);
          endPos1 = endPos0 + length (takeWhile (\<lambda>c. c = 59 \<or> c = 32) (drop endPos0 result));
          endPos = (if prefix [10] (drop endPos1 result) then endPos1 + 1 else endPos1);
          stmt = trim (substring result stmtStart endPos)
      in (stmt, substring result 0 stmtStart @ drop endPos result))"

text \<open>The inner \<open>while (pos < result.length)\<close> loop for one hook name: the index of
  the first call that lies inside a block, if there is one.\<close>

function findNestedHook :: "jsstring \<Rightarrow> int list \<Rightarrow> jsstring \<Rightarrow> nat \<Rightarrow> nat option" where
  "findNestedHook result depthAt hookName pos =
     (if pos < length result
      then (case indexOf result (hookSearch hookName) pos of
              None \<Rightarrow> None
            | Some idx \<Rightarrow>
                if depthPositive depthAt idx then Some idx
                else findNestedHook result depthAt hookName (idx + length (hookSearch hookName)))
      else None)"
  by pat_completeness auto
termination
proof (relation "measure (\<lambda>(result, depthAt, hookName, pos). length result - pos)")
  show "wf (measure (\<lambda>(result, depthAt, hookName, pos). length result - pos))" by simp
next
  fix result :: jsstring and depthAt :: "int list" and hookName :: jsstring and pos idx :: nat
  assume "pos < length result" and "indexOf result (hookSearch hookName) pos = Some idx"
  then have "pos \<le> idx"
    by (auto simp: indexOf_def Let_def min_def split: if_splits)
  moreover have "0 < length (hookSearch hookName)"
    by (simp add: hookSearch_def js_def)
  ultimately have "length result - (idx + length (hookSearch hookName)) < length result - pos"
    using \<open>pos < length result\<close> by linarith
  then show "((result, depthAt, hookName, idx + length (hookSearch hookName)),
        (result, depthAt, hookName, pos))
      \<in> measure (\<lambda>(result, depthAt, hookName, pos). length result - pos)"
    by simp
qed

declare findNestedHook.simps [simp del]

text \<open>The \<open>for (const hookName of hookNames)\<close> loop: the first hook name that has a
  call inside a block, with the index of that call.\<close>

fun scanHooks :: "jsstring \<Rightarrow> int list \<Rightarrow> jsstring list \<Rightarrow> (nat \<times> jsstring) option" where
  "scanHooks result depthAt [] = None"
| "scanHooks result depthAt (hookName # names) =
     (case findNestedHook result depthAt hookName 0 of
        Some idx \<Rightarrow> Some (idx, hookName)
      | None \<Rightarrow> scanHooks result depthAt names)"

text \<open>The outer \<open>while (madeChange && iterations < 30)\<close> loop; the first argument is
  the number of iterations that are left.\<close>

fun hoistLoop :: "nat \<Rightarrow> jsstring \<Rightarrow> jsstring list \<Rightarrow> jsstring \<times> jsstring list" where
  "hoistLoop 0 result hoistedStatements = (result, hoistedStatements)"
| "hoistLoop (Suc left) result hoistedStatements =
     (case scanHooks result (buildDepthAt result) hookNames of
        None \<Rightarrow> (result, hoistedStatements)
      | Some found \<Rightarrow>
          hoistLoop left
            (snd (extractHookStatement result (fst found) (hookSearch (snd found))))
            (hoistedStatements
               @ [fst (extractHookStatement result (fst found) (hookSearch (snd found)))]))"

definition hoistConditionalHooks :: "jsstring \<Rightarrow> jsstring" where
  "hoistConditionalHooks code =
     (case hoistLoop 30 code [] of
        (result, hoistedStatements) \<Rightarrow>
          if hoistedStatements \<noteq> [] then joinWith [10] hoistedStatements @ [10, 10] @ result
          else result)"

subsection \<open>Unicode superscripts and subscripts\<close>

definition UNICODE_TO_ASCII :: "(int \<times> jsstring) list" where
  "UNICODE_TO_ASCII =
     [(8304, js ''0''), (185, js ''1''), (178, js ''2''), (179, js ''3''),
      (8308, js ''4''), (8309, js ''5''), (8310, js ''6''), (8311, js ''7''),
      (8312, js ''8''), (8313, js ''9''), (8314, js ''+''), (8315, js ''-''),
      (8316, js ''=''), (8317, js ''(''), (8318, js '')''), (8319, js ''n''),
      (8320, js ''0''), (8321, js ''1''), (8322, js ''2''), (8323, js ''3''),
      (8324, js ''4''), (8325, js ''5''), (8326, js ''6''), (8327, js ''7''),
      (8328, js ''8''), (8329, js ''9''), (8330, js ''+''), (8331, js ''-''),
      (8332, js ''=''), (8333, js ''(''), (8334, js '')''),
      (215, js ''x''), (247, js ''/''), (177, js ''+/-''), (183, js ''.''),
      (8211, js ''-''), (8212, js ''--''), (8722, js ''-'')]"

text \<open>\<open>sanitized.replace(UNICODE_REPLACE_RE, (ch) => UNICODE_TO_ASCII[ch] || ch)\<close>: the
  expression is the class of the table's keys, with the flag \<open>g\<close>.\<close>

definition replaceUnicode :: "jsstring \<Rightarrow> jsstring" where
  "replaceUnicode s =
     concat (map (\<lambda>ch. case map_of UNICODE_TO_ASCII ch of Some r \<Rightarrow> r | None \<Rightarrow> [ch]) s)"

subsection \<open>Constructors written inline\<close>

definition R3F_GEOMETRY_TYPES :: "jsstring list" where
  "R3F_GEOMETRY_TYPES =
     [js ''BoxGeometry'', js ''SphereGeometry'', js ''CylinderGeometry'', js ''ConeGeometry'',
      js ''PlaneGeometry'', js ''TorusGeometry'', js ''CircleGeometry'', js ''RingGeometry'',
      js ''TorusKnotGeometry'', js ''TubeGeometry'']"

definition R3F_MATERIAL_TYPES :: "jsstring list" where
  "R3F_MATERIAL_TYPES =
     [js ''MeshBasicMaterial'', js ''MeshStandardMaterial'', js ''MeshPhongMaterial'',
      js ''MeshLambertMaterial'', js ''MeshNormalMaterial'',
      js ''LineBasicMaterial'', js ''LineDashedMaterial'', js ''PointsMaterial'']"

text \<open>\<open>s.charAt(0).toLowerCase() + s.slice(1)\<close>; the type names it is applied to begin
  with an ASCII capital.\<close>

definition lcFirst :: "jsstring \<Rightarrow> jsstring" where
  "lcFirst s = (case s of [] \<Rightarrow> [] | c # rest \<Rightarrow> (if 65 \<le> c \<and> c \<le> 90 then c + 32 else c) # rest)"

text \<open>The search text \<open>`new THREE.${geo}(`\<close>.\<close>

definition newPrefix :: "jsstring \<Rightarrow> jsstring" where
  "newPrefix ty = js ''new THREE.'' @ ty @ js ''(''"

text \<open>
  The balanced-parenthesis counter \<open>while (i < sanitized.length && depth > 0)\<close>: how far
  it advances \<open>i\<close>. It does not look at string literals.
\<close>

fun closeParen :: "nat \<Rightarrow> jsstring \<Rightarrow> nat" where
  "closeParen depth [] = 0"
| "closeParen depth (c # rest) =
     (if depth = 0 then 0
      else Suc (closeParen (if c = 40 then Suc depth else if c = 41 then depth - 1 else depth) rest))"

lemma closeParen_le: "closeParen depth s \<le> length s"
  by (induction depth s rule: closeParen.induct) auto

text \<open>\<open>argsEnd\<close> for the constructor call whose arguments begin at \<open>argsStart\<close>.\<close>

definition argsEndOf :: "jsstring \<Rightarrow> nat \<Rightarrow> nat" where
  "argsEndOf sanitized argsStart = argsStart + closeParen 1 (drop argsStart sanitized) - 1"

text \<open>
  The three tests on the 80 characters before the constructor: \<open>/=\s*$/\<close>,
  \<open>/=>\s*$/\<close> and \<open>/return\s+$/\<close>. Each asks what the text ends with once the white space
  at its end is taken off; the last one also asks that there is such white space.
\<close>

definition isAssignment :: "jsstring \<Rightarrow> bool" where
  "isAssignment lookBack = endsWith (trimEnd lookBack) (js ''='')"

definition isArrowReturn :: "jsstring \<Rightarrow> bool" where
  "isArrowReturn lookBack = endsWith (trimEnd lookBack) (js ''=>'')"

definition isExplicitReturn :: "jsstring \<Rightarrow> bool" where
  "isExplicitReturn lookBack =
     (trimEnd lookBack \<noteq> lookBack \<and> endsWith (trimEnd lookBack) (js ''return''))"

definition storedOrReturned :: "jsstring \<Rightarrow> nat \<Rightarrow> bool" where
  "storedOrReturned sanitized idx =
     (let lookBack = substring sanitized (idx - 80) idx
      in isAssignment lookBack \<or> isArrowReturn lookBack \<or> isExplicitReturn lookBack)"

definition geometryReplacement :: "jsstring \<Rightarrow> jsstring \<Rightarrow> nat \<Rightarrow> jsstring" where
  "geometryReplacement geo sanitized idx =
     (let argsStart = idx + length (newPrefix geo);
          argsStr = trim (substring sanitized argsStart (argsEndOf sanitized argsStart))
      in if argsStr = [] then js ''React.createElement('' @ [39] @ lcFirst geo @ [39] @ js '')''
         else js ''React.createElement('' @ [39] @ lcFirst geo @ [39] @ js '', { args: [''
                @ argsStr @ js ''] })'')"

text \<open>The \<open>while (true)\<close> loop for one geometry type, from \<open>startIdx\<close>.\<close>

function convertGeometry :: "jsstring \<Rightarrow> jsstring \<Rightarrow> nat \<Rightarrow> jsstring" where
  "convertGeometry geo sanitized startIdx =
     (case indexOf sanitized (newPrefix geo) startIdx of
        None \<Rightarrow> sanitized
      | Some idx \<Rightarrow>
          if storedOrReturned sanitized idx
          then convertGeometry geo sanitized
                 (argsEndOf sanitized (idx + length (newPrefix geo)) + 1)
          else convertGeometry geo
                 (take idx sanitized @ geometryReplacement geo sanitized idx
                    @ drop (argsEndOf sanitized (idx + length (newPrefix geo)) + 1) sanitized)
                 (idx + length (geometryReplacement geo sanitized idx)))"
  by pat_completeness auto
termination
proof (relation "measure (\<lambda>(geo, sanitized, startIdx). length sanitized - startIdx)")
  show "wf (measure (\<lambda>(geo, sanitized, startIdx). length sanitized - startIdx))" by simp
next
  fix geo sanitized :: jsstring and startIdx idx :: nat
  assume found: "indexOf sanitized (newPrefix geo) startIdx = Some idx"
  let ?a = "idx + length (newPrefix geo)"
  have pos: "0 < length (newPrefix geo)" by (simp add: newPrefix_def js_def)
  then have "newPrefix geo \<noteq> []" by simp
  from indexOf_bounds[OF found this]
  have lt: "startIdx \<le> idx" "?a \<le> length sanitized" by simp_all
  have e1: "idx < argsEndOf sanitized ?a + 1"
    using pos unfolding argsEndOf_def by linarith
  have e2: "argsEndOf sanitized ?a + 1 \<le> length sanitized"
    using closeParen_le[of 1 "drop ?a sanitized"] lt pos unfolding argsEndOf_def by simp
  show "((geo, sanitized, argsEndOf sanitized ?a + 1), (geo, sanitized, startIdx))
      \<in> measure (\<lambda>(geo, sanitized, startIdx). length sanitized - startIdx)"
    using e1 e2 lt by simp
  show "((geo, take idx sanitized @ geometryReplacement geo sanitized idx
            @ drop (argsEndOf sanitized ?a + 1) sanitized,
          idx + length (geometryReplacement geo sanitized idx)), (geo, sanitized, startIdx))
      \<in> measure (\<lambda>(geo, sanitized, startIdx). length sanitized - startIdx)"
    using e1 e2 lt by simp
qed

declare convertGeometry.simps [simp del]

text \<open>The \<open>for (const geo of R3F_GEOMETRY_TYPES)\<close> loop.\<close>

definition convertGeometries :: "jsstring \<Rightarrow> jsstring" where
  "convertGeometries sanitized =
     foldl (\<lambda>code geo. convertGeometry geo code 0) sanitized R3F_GEOMETRY_TYPES"

subsection \<open>Declarative geometries that are used as objects\<close>

definition GEOMETRY_INSTANCE_METHODS :: "jsstring list" where
  "GEOMETRY_INSTANCE_METHODS =
     [js ''rotateX'', js ''rotateY'', js ''rotateZ'', js ''translate'', js ''scale'', js ''lookAt'',
      js ''setAttribute'', js ''setIndex'', js ''setFromPoints'', js ''computeVertexNormals'',
      js ''computeBoundingSphere'', js ''computeBoundingBox'', js ''center'', js ''normalize'',
      js ''applyMatrix4'', js ''merge'', js ''dispose'', js ''clone'', js ''copy'',
      js ''attributes'', js ''index'']"

text \<open>The search text \<open>`React.createElement('${elementName}'`\<close>.\<close>

definition cePattern :: "jsstring \<Rightarrow> jsstring" where
  "cePattern geo = js ''React.createElement('' @ [39] @ lcFirst geo @ [39]"

text \<open>\<open>\{\s*args:\s*\[([^\]]*)\]\s*\}\<close>, tried at the start of a text: the captured
  arguments, which run up to the first closing bracket.\<close>

definition argsObjectAtStart :: "jsstring \<Rightarrow> jsstring option" where
  "argsObjectAtStart s =
     (if \<not> prefix (js ''{'') s then None
      else let r1 = dropWhile isSpace (drop 1 s)
           in if \<not> prefix (js ''args:'') r1 then None
              else let r2 = dropWhile isSpace (drop 5 r1)
                   in if \<not> prefix (js ''['') r2 then None
                      else let r3 = drop 1 r2;
                               inner = takeWhile (\<lambda>c. c \<noteq> 93) r3;
                               r4 = dropWhile (\<lambda>c. c \<noteq> 93) r3
                           in if r4 \<noteq> [] \<and> prefix (js ''}'') (dropWhile isSpace (drop 1 r4))
                              then Some inner else None)"

text \<open>The same expression searched for in a text: the leftmost match.\<close>

fun searchArgsObject :: "jsstring \<Rightarrow> jsstring option" where
  "searchArgsObject [] = None"
| "searchArgsObject (c # cs) =
     (case argsObjectAtStart (c # cs) of
        Some inner \<Rightarrow> Some inner
      | None \<Rightarrow> searchArgsObject cs)"

definition needsFix :: "jsstring \<Rightarrow> jsstring \<Rightarrow> bool" where
  "needsFix codeAfter varName =
     list_ex (\<lambda>method. includesStr codeAfter (varName @ js ''.'' @ method))
       GEOMETRY_INSTANCE_METHODS"

text \<open>\<open>pIdx\<close>: just after the parenthesis that closes the call which opens at
  \<open>openParen\<close>.\<close>

definition callEnd :: "jsstring \<Rightarrow> nat \<Rightarrow> nat" where
  "callEnd sanitized openParen =
     openParen + 1 + closeParen 1 (drop (openParen + 1) sanitized)"

definition constructorReplacement :: "jsstring \<Rightarrow> jsstring \<Rightarrow> jsstring" where
  "constructorReplacement geo fullCall =
     (case searchArgsObject fullCall of
        Some args \<Rightarrow> js ''new THREE.'' @ geo @ js ''('' @ args @ js '')''
      | None \<Rightarrow> js ''new THREE.'' @ geo @ js ''()'')"

text \<open>The \<open>while (true)\<close> loop for one geometry type, from \<open>searchStart\<close>.\<close>

function restoreConstructor :: "jsstring \<Rightarrow> jsstring \<Rightarrow> nat \<Rightarrow> jsstring" where
  "restoreConstructor geo sanitized searchStart =
     (case indexOf sanitized (cePattern geo) searchStart of
        None \<Rightarrow> sanitized
      | Some ceIdx \<Rightarrow>
          (case searchDeclTail (substring sanitized (ceIdx - 80) ceIdx) of
             None \<Rightarrow> restoreConstructor geo sanitized (ceIdx + length (cePattern geo))
           | Some varMatch \<Rightarrow>
               if \<not> needsFix (drop ceIdx sanitized) (snd varMatch)
               then restoreConstructor geo sanitized (ceIdx + length (cePattern geo))
               else (case indexOf sanitized (js ''('') ceIdx of
                       None \<Rightarrow> restoreConstructor geo sanitized (ceIdx + length (cePattern geo))
                     | Some openParen \<Rightarrow>
                         restoreConstructor geo
                           (take ceIdx sanitized
                              @ constructorReplacement geo
                                  (substring sanitized ceIdx (callEnd sanitized openParen))
                              @ drop (callEnd sanitized openParen) sanitized)
                           (ceIdx + length (constructorReplacement geo
                                  (substring sanitized ceIdx (callEnd sanitized openParen)))))))"
  by pat_completeness auto
termination
proof (relation "measure (\<lambda>(geo, sanitized, searchStart). length sanitized - searchStart)")
  show "wf (measure (\<lambda>(geo, sanitized, searchStart). length sanitized - searchStart))" by simp
next
  fix geo sanitized :: jsstring and searchStart ceIdx :: nat
  assume found: "indexOf sanitized (cePattern geo) searchStart = Some ceIdx"
  have pos: "0 < length (cePattern geo)" by (simp add: cePattern_def js_def)
  then have "cePattern geo \<noteq> []" by simp
  from indexOf_bounds[OF found this]
  have lt: "searchStart \<le> ceIdx" "ceIdx + length (cePattern geo) \<le> length sanitized"
    by simp_all
  have "length sanitized - (ceIdx + length (cePattern geo)) < length sanitized - searchStart"
    using lt pos by linarith
  then show skip: "((geo, sanitized, ceIdx + length (cePattern geo)), (geo, sanitized, searchStart))
      \<in> measure (\<lambda>(geo, sanitized, searchStart). length sanitized - searchStart)"
    by simp
  then show "((geo, sanitized, ceIdx + length (cePattern geo)), (geo, sanitized, searchStart))
      \<in> measure (\<lambda>(geo, sanitized, searchStart). length sanitized - searchStart)" .
  from skip
  show "((geo, sanitized, ceIdx + length (cePattern geo)), (geo, sanitized, searchStart))
      \<in> measure (\<lambda>(geo, sanitized, searchStart). length sanitized - searchStart)" .
  fix openParen :: nat
  assume "indexOf sanitized (js ''('') ceIdx = Some openParen"
  from indexOf_bounds[OF this]
  have op: "ceIdx \<le> openParen" "openParen + 1 \<le> length sanitized"
    by (simp_all add: js_def)
  have e: "ceIdx < callEnd sanitized openParen" "callEnd sanitized openParen \<le> length sanitized"
    using closeParen_le[of 1 "drop (openParen + 1) sanitized"] op
    unfolding callEnd_def by simp_all
  show "((geo, take ceIdx sanitized
            @ constructorReplacement geo (substring sanitized ceIdx (callEnd sanitized openParen))
            @ drop (callEnd sanitized openParen) sanitized,
          ceIdx + length (constructorReplacement geo
            (substring sanitized ceIdx (callEnd sanitized openParen)))),
        (geo, sanitized, searchStart))
      \<in> measure (\<lambda>(geo, sanitized, searchStart). length sanitized - searchStart)"
    using e lt by simp
qed

declare restoreConstructor.simps [simp del]

definition restoreConstructors :: "jsstring \<Rightarrow> jsstring" where
  "restoreConstructors sanitized =
     foldl (\<lambda>code geo. restoreConstructor geo code 0) sanitized R3F_GEOMETRY_TYPES"

subsection \<open>Calls through a ref, and bounding spheres\<close>

text \<open>
  The length of the longest prefix of the form \<open>\w+(?:\.\w+)*\<close>: words joined by single
  dots. The flag says whether the character before was a word character.
\<close>

fun dottedLen :: "bool \<Rightarrow> jsstring \<Rightarrow> nat" where
  "dottedLen prevWord [] = 0"
| "dottedLen prevWord (c # rest) =
     (if isWord c then Suc (dottedLen True rest)
      else if c = 46 \<and> prevWord \<and> (case rest of [] \<Rightarrow> False | d # _ \<Rightarrow> isWord d)
        then Suc (dottedLen False rest)
      else 0)"

text \<open>
  \<open>(\w+(?:\.\w+)*\.current)\.setFromPoints\(\<close>, tried at the start of a text. The
  opening parenthesis can only follow the longest dotted prefix, so the expression
  matches when that prefix ends with \<open>.current.setFromPoints\<close> and the parenthesis comes
  next. The result is the captured group and the length of the match.
\<close>

definition matchSetFromPoints :: "jsstring \<Rightarrow> (jsstring \<times> nat) option" where
  "matchSetFromPoints s =
     (let n = dottedLen False s
      in if endsWith (take n s) (js ''.current.setFromPoints'') \<and> prefix (js ''('') (drop n s)
         then Some (take (n - 14) s, Suc n) else None)"

text \<open>\<open>sanitized.replace(/(\w+(?:\.\w+)*\.current)\.setFromPoints\(/g,
  '($1.geometry || $1).setFromPoints(')\<close>: every match, from left to right, each search
  starting where the last match ended.\<close>

function replaceSetFromPoints :: "jsstring \<Rightarrow> jsstring" where
  "replaceSetFromPoints [] = []"
| "replaceSetFromPoints (c # cs) =
     (case matchSetFromPoints (c # cs) of
        None \<Rightarrow> c # replaceSetFromPoints cs
      | Some m \<Rightarrow>
          js ''('' @ fst m @ js ''.geometry || '' @ fst m @ js '').setFromPoints(''
            @ replaceSetFromPoints (drop (snd m) (c # cs)))"
  by pat_completeness auto
termination
proof (relation "measure length")
  show "wf (measure (length :: jsstring \<Rightarrow> nat))" by simp
next
  fix c :: int and cs :: jsstring
  show "(cs, c # cs) \<in> measure length" by simp
next
  fix c :: int and cs :: jsstring and m :: "jsstring \<times> nat"
  assume "matchSetFromPoints (c # cs) = Some m"
  then have "0 < snd m"
    by (auto simp: matchSetFromPoints_def Let_def split: if_splits)
  then show "(drop (snd m) (c # cs), c # cs) \<in> measure length" by simp
qed

text \<open>
  \<open>\b\w+(?:\.\w+)*\.computeBoundingSphere\(\s*\)\s*;?\<close>, tried at a word boundary: the
  length of the match. After the dotted prefix, which must end with
  \<open>.computeBoundingSphere\<close>, come the parentheses with nothing but white space between
  them, then white space and a semicolon if there is one.
\<close>

definition matchBoundingSphere :: "jsstring \<Rightarrow> nat option" where
  "matchBoundingSphere s =
     (let n = dottedLen False s
      in if endsWith (take n s) (js ''.computeBoundingSphere'') \<and> prefix (js ''('') (drop n s)
         then let r1 = dropWhile isSpace (drop (Suc n) s)
              in if prefix (js '')'') r1
                 then let r2 = dropWhile isSpace (drop 1 r1);
                          r3 = (if prefix (js '';'') r2 then drop 1 r2 else r2)
                      in Some (length s - length r3)
                 else None
         else None)"

text \<open>The global replacement of that expression by the comment. The flag says whether
  the character before is a word character: the expression begins with \<open>\b\<close>, so a match
  starts only where it is not.\<close>

function removeBoundingSphere :: "bool \<Rightarrow> jsstring \<Rightarrow> jsstring" where
  "removeBoundingSphere prevWord [] = []"
| "removeBoundingSphere prevWord (c # cs) =
     (case (if prevWord then None else matchBoundingSphere (c # cs)) of
        None \<Rightarrow> c # removeBoundingSphere (isWord c) cs
      | Some n \<Rightarrow>
          js ''/* computeBoundingSphere removed - frustumCulled:false handles this */''
            @ removeBoundingSphere False (drop n (c # cs)))"
  by pat_completeness auto
termination
proof (relation "measure (\<lambda>(prevWord, s). length s)")
  show "wf (measure (\<lambda>(prevWord :: bool, s :: jsstring). length s))" by simp
next
  fix prevWord :: bool and c :: int and cs :: jsstring
  show "((isWord c, cs), (prevWord, c # cs)) \<in> measure (\<lambda>(prevWord, s). length s)" by simp
next
  fix prevWord :: bool and c :: int and cs :: jsstring and n :: nat
  assume "(if prevWord then None else matchBoundingSphere (c # cs)) = Some n"
  then have m: "matchBoundingSphere (c # cs) = Some n" by (simp split: if_splits)
  have "0 < n"
  proof -
    have le: "\<And>P (xs :: jsstring). length (dropWhile P xs) \<le> length xs"
      by (simp add: length_dropWhile_le)
    from m obtain r1 r2 r3 where
      r1: "r1 = dropWhile isSpace (drop (Suc (dottedLen False (c # cs))) (c # cs))"
      and p1: "prefix (js '')'') r1"
      and r2: "r2 = dropWhile isSpace (drop 1 r1)"
      and r3: "r3 = (if prefix (js '';'') r2 then drop 1 r2 else r2)"
      and n: "n = length (c # cs) - length r3"
      by (auto simp: matchBoundingSphere_def Let_def split: if_splits)
    have "length r3 \<le> length r2" using r3 by simp
    also have "\<dots> \<le> length (drop 1 r1)" unfolding r2 by (rule le)
    also have "\<dots> < length r1" using p1 by (cases r1) (auto simp: js_def)
    also have "\<dots> \<le> length (c # cs)"
      using r1 le[of isSpace "drop (Suc (dottedLen False (c # cs))) (c # cs)"] by simp
    finally show ?thesis using n by simp
  qed
  then show "((False, drop n (c # cs)), (prevWord, c # cs)) \<in> measure (\<lambda>(prevWord, s). length s)"
    by simp
qed

subsection \<open>Material constructors\<close>

text \<open>\<open>argsStr.replace(/^\{/, '').replace(/\}$/, '').trim()\<close>.\<close>

definition unwrapBraces :: "jsstring \<Rightarrow> jsstring" where
  "unwrapBraces argsStr =
     (let a = (if prefix (js ''{'') argsStr then drop 1 argsStr else argsStr);
          b = (if suffix (js ''}'') a then butlast a else a)
      in trim b)"

definition materialReplacement :: "jsstring \<Rightarrow> jsstring \<Rightarrow> nat \<Rightarrow> jsstring" where
  "materialReplacement mat sanitized idx =
     (let argsStart = idx + length (newPrefix mat);
          argsStr = trim (substring sanitized argsStart (argsEndOf sanitized argsStart))
      in if argsStr = [] \<or> unwrapBraces argsStr = []
         then js ''React.createElement('' @ [39] @ lcFirst mat @ [39] @ js '')''
         else js ''React.createElement('' @ [39] @ lcFirst mat @ [39] @ js '', { ''
                @ unwrapBraces argsStr @ js '' })'')"

function convertMaterial :: "jsstring \<Rightarrow> jsstring \<Rightarrow> nat \<Rightarrow> jsstring" where
  "convertMaterial mat sanitized startIdx =
     (case indexOf sanitized (newPrefix mat) startIdx of
        None \<Rightarrow> sanitized
      | Some idx \<Rightarrow>
          convertMaterial mat
            (take idx sanitized @ materialReplacement mat sanitized idx
               @ drop (argsEndOf sanitized (idx + length (newPrefix mat)) + 1) sanitized)
            (idx + length (materialReplacement mat sanitized idx)))"
  by pat_completeness auto
termination
proof (relation "measure (\<lambda>(mat, sanitized, startIdx). length sanitized - startIdx)")
  show "wf (measure (\<lambda>(mat, sanitized, startIdx). length sanitized - startIdx))" by simp
next
  fix mat sanitized :: jsstring and startIdx idx :: nat
  assume found: "indexOf sanitized (newPrefix mat) startIdx = Some idx"
  let ?a = "idx + length (newPrefix mat)"
  have pos: "0 < length (newPrefix mat)" by (simp add: newPrefix_def js_def)
  then have "newPrefix mat \<noteq> []" by simp
  from indexOf_bounds[OF found this]
  have lt: "startIdx \<le> idx" "?a \<le> length sanitized" by simp_all
  have e1: "idx < argsEndOf sanitized ?a + 1"
    using pos unfolding argsEndOf_def by linarith
  have e2: "argsEndOf sanitized ?a + 1 \<le> length sanitized"
    using closeParen_le[of 1 "drop ?a sanitized"] lt pos unfolding argsEndOf_def by simp
  show "((mat, take idx sanitized @ materialReplacement mat sanitized idx
            @ drop (argsEndOf sanitized ?a + 1) sanitized,
          idx + length (materialReplacement mat sanitized idx)), (mat, sanitized, startIdx))
      \<in> measure (\<lambda>(mat, sanitized, startIdx). length sanitized - startIdx)"
    using e1 e2 lt by simp
qed

declare convertMaterial.simps [simp del]

definition convertMaterials :: "jsstring \<Rightarrow> jsstring" where
  "convertMaterials sanitized =
     foldl (\<lambda>code mat. convertMaterial mat code 0) sanitized R3F_MATERIAL_TYPES"

subsection \<open>The whole sanitizer\<close>

text \<open>
  \<open>sanitizeSimulationCode\<close>: the steps in the order of the source. The step that looks
  for the animation anti-pattern only writes to the log and is left out.
\<close>

definition sanitizeSimulationCode :: "jsstring \<Rightarrow> jsstring" where
  "sanitizeSimulationCode code =
     convertMaterials
       (removeBoundingSphere False
          (replaceSetFromPoints
             (restoreConstructors
                (convertGeometries
                   (replaceUnicode
                      (hoistConditionalHooks
                         (stripShadows code)))))))"


subsection \<open>Code that the sanitizer has nothing to do on\<close>





subsection \<open>The shape of an export line\<close>

text \<open>
  Notions for stating what the line callback does to an export line. \<open>keywordThenSpace\<close>:
  the text begins with the word and white space comes next, which is when the regular
  expression \<open>^word\s+\<close> matches.
\<close>

definition keywordThenSpace :: "jsstring \<Rightarrow> jsstring \<Rightarrow> bool" where
  "keywordThenSpace word s \<longleftrightarrow>
     prefix word s \<and> (case drop (length word) s of [] \<Rightarrow> False | c # _ \<Rightarrow> isSpace c)"

text \<open>
  An export line taken apart: leading white space, the word \<open>export\<close>, a gap of white space
  that begins with a space, the rest of the statement (which neither begins nor ends with
  white space), and trailing white space.
\<close>

definition exportFrame :: "jsstring \<Rightarrow> jsstring \<Rightarrow> jsstring \<Rightarrow> jsstring \<Rightarrow> bool" where
  "exportFrame lead gap rest trail \<longleftrightarrow>
     list_all isSpace lead \<and> list_all isSpace trail
     \<and> gap \<noteq> [] \<and> hd gap = 32 \<and> list_all isSpace gap
     \<and> rest \<noteq> [] \<and> \<not> isSpace (hd rest) \<and> \<not> isSpace (last rest)"

text \<open>What is left of the rest once \<open>default\<close> and a second \<open>export\<close> are taken off as
  well.\<close>

definition exportRemainder :: "jsstring \<Rightarrow> jsstring" where
  "exportRemainder rest =
     (if keywordThenSpace (js ''default'') rest
      then (let rest2 = dropWhile isSpace (drop 7 rest)
            in if keywordThenSpace (js ''export'') rest2 then dropWhile isSpace (drop 6 rest2)
               else rest2)
      else rest)"


section \<open>The static validator\<close>

definition KNOWN_GLOBALS :: "jsstring list" where
  "KNOWN_GLOBALS = map js
     [''React'', ''useFrame'', ''useRef'', ''useMemo'', ''useEffect'', ''useState'', ''useCallback'',
      ''useLayoutEffect'', ''useReducer'', ''useContext'', ''useImperativeHandle'', ''useMemo'',
      ''THREE'',
      ''params'', ''Text'', ''useThree'',
      ''Math'', ''Date'', ''console'', ''Array'', ''Object'', ''String'', ''Number'', ''Boolean'',
      ''parseInt'', ''parseFloat'', ''isNaN'', ''isFinite'', ''undefined'', ''null'', ''Infinity'',
      ''NaN'', ''JSON'', ''Promise'', ''Set'', ''Map'', ''WeakMap'', ''WeakSet'', ''Symbol'',
      ''Error'', ''TypeError'', ''ReferenceError'', ''SyntaxError'', ''RangeError'',
      ''setTimeout'', ''setInterval'', ''clearTimeout'', ''clearInterval'',
      ''requestAnimationFrame'', ''cancelAnimationFrame'',
      ''Float32Array'', ''Float64Array'', ''Int8Array'', ''Int16Array'', ''Int32Array'',
      ''Uint8Array'', ''Uint16Array'', ''Uint32Array'', ''Uint8ClampedArray'',
      ''ArrayBuffer'', ''DataView'',
      ''args'', ''state'', ''delta'', ''clock'', ''camera'', ''scene'', ''gl'', ''raycaster'',
      ''pointer'', ''size'', ''viewport'', ''mouse'', ''performance'', ''events'',
      ''window'', ''document'', ''navigator'', ''location'', ''history'',
      ''length'', ''push'', ''pop'', ''shift'', ''unshift'', ''slice'', ''splice'',
      ''map'', ''filter'', ''reduce'', ''forEach'', ''find'', ''findIndex'', ''some'', ''every'',
      ''keys'', ''values'', ''entries'', ''hasOwnProperty'', ''toString'', ''valueOf'']"

subsection \<open>The syntax tree, as the visitors see it\<close>

text \<open>
  The parser and the traversal are Babel's. The model takes the tree that the parser
  returns, reduced to what the visitors of \<open>validateSimulationCode\<close> look at: the kind of a
  node, the fields the visitors read, and its child nodes in the order of the traversal.

  Binding patterns, which \<open>extractParamNames\<close> and the \<open>VariableDeclarator\<close> visitor
  inspect.
\<close>

datatype pattern =
    Identifier jsstring
  | AssignmentPattern pattern
  | ObjectPattern "property list"
  | ArrayPattern "pattern option list"
  | RestElement pattern
  | OtherPattern
and property =
    ObjectProperty pattern
  | RestProperty pattern
  | OtherProperty

fun extractParamNames :: "pattern \<Rightarrow> jsstring list"
  and extractPropertyNames :: "property \<Rightarrow> jsstring list" where
  "extractParamNames (Identifier name) = [name]"
| "extractParamNames (AssignmentPattern left) = extractParamNames left"
| "extractParamNames (ObjectPattern properties) = concat (map extractPropertyNames properties)"
| "extractParamNames (ArrayPattern elements) =
     concat (map (\<lambda>el. case el of None \<Rightarrow> [] | Some p \<Rightarrow> extractParamNames p) elements)"
| "extractParamNames (RestElement argument) = extractParamNames argument"
| "extractParamNames OtherPattern = []"
| "extractPropertyNames (ObjectProperty v) = extractParamNames v"
| "extractPropertyNames (RestProperty argument) = extractParamNames argument"
| "extractPropertyNames OtherProperty = []"

text \<open>
  Where an identifier stands in its parent: the positions that the \<open>Identifier\<close> visitor
  tells apart. The flag of a key or a member property is the parent's \<open>computed\<close>.
\<close>

datatype idRole =
    VariableDeclaratorId
  | FunctionDeclarationId
  | FunctionExpressionId
  | ObjectPropertyKey bool
  | ObjectMethodKey bool
  | ClassMethodKey bool
  | ClassPropertyKey bool
  | MemberProperty bool
  | OptionalMemberProperty bool
  | ClassDeclarationId
  | InImportSpecifier
  | InExportSpecifier
  | LabeledStatementLabel
  | OtherPosition

text \<open>The initialiser of a declarator, as far as the visitor looks: a call
  \<open>React.createElement('type', ...)\<close>, a call \<open>useMemo(() => React.createElement('type',
  ...), ...)\<close>, each with the string literal that is the element type, or anything else.\<close>

datatype initKind =
    CreateElementCall jsstring
  | UseMemoCreateElement jsstring
  | OtherInit

text \<open>
  The nodes. A function declaration carries the name of its \<open>id\<close>, its line and its
  parameters; any other function its parameters; a catch clause its parameter; a
  declarator its \<open>id\<close>, its initialiser and its line; a member expression the names of its
  object and of its property, where these are identifiers, and its line; an identifier
  its name, line and position.
\<close>

datatype node =
    FunctionDeclaration "jsstring option" nat "pattern list" "node list"
  | OtherFunction "pattern list" "node list"
  | BlockStatement "node list"
  | CatchClause "pattern option" "node list"
  | VariableDeclarator pattern initKind nat "node list"
  | MemberExpression "jsstring option" "jsstring option" nat "node list"
  | IdentifierNode jsstring nat idRole
  | OtherNode "node list"

text \<open>What a block statement needs to know of its parent.\<close>

datatype parentKind = ParentFunction | ParentCatch "pattern option" | ParentOther

subsection \<open>Scopes\<close>

text \<open>
  A JavaScript \<open>Map\<close> keeps its keys in the order in which they were first set:
  \<open>set\<close> on a key that is there replaces the value where it stands.
\<close>

fun mapSet :: "('k \<times> 'v) list \<Rightarrow> 'k \<Rightarrow> 'v \<Rightarrow> ('k \<times> 'v) list" where
  "mapSet [] k v = [(k, v)]"
| "mapSet ((k', v') # m) k v = (if k' = k then (k, v) # m else (k', v') # mapSet m k v)"

definition mapHas :: "('k \<times> 'v) list \<Rightarrow> 'k \<Rightarrow> bool" where
  "mapHas m k \<longleftrightarrow> map_of m k \<noteq> None"

text \<open>
  \<open>ScopeInfo\<close>. \<open>parentScope\<close> is a reference to the scope that was current when this one
  was made, and it never changes; the model keeps the indices (in \<open>allScopes\<close>) of the
  scopes that following these references reaches, the parent first.
\<close>

record ScopeInfo =
  declarations :: "(jsstring \<times> nat) list"
  usages :: "(jsstring \<times> nat list) list"
  functionParams :: "jsstring list"
  parentChain :: "nat list"

record traversal =
  allScopes :: "ScopeInfo list"
  reactElementVars :: "jsstring list"
  foundWarnings :: "jsstring list"

definition globalScope :: ScopeInfo where
  "globalScope = \<lparr>declarations = [], usages = [], functionParams = [], parentChain = []\<rparr>"

text \<open>Entering a function or a block: a new scope under the current one, which becomes
  the current scope for the children.\<close>

definition pushScope :: "nat \<Rightarrow> jsstring list \<Rightarrow> traversal \<Rightarrow> traversal" where
  "pushScope currentScope names t =
     t\<lparr>allScopes := allScopes t
          @ [\<lparr>declarations = [], usages = [], functionParams = names,
               parentChain = currentScope # parentChain (allScopes t ! currentScope)\<rparr>]\<rparr>"

text \<open>\<open>currentScope.declarations.set(name, line)\<close>.\<close>

definition declareName :: "nat \<Rightarrow> jsstring \<Rightarrow> nat \<Rightarrow> traversal \<Rightarrow> traversal" where
  "declareName currentScope name line t =
     t\<lparr>allScopes := (allScopes t)[currentScope :=
          (allScopes t ! currentScope)
            \<lparr>declarations := mapSet (declarations (allScopes t ! currentScope)) name line\<rparr>]\<rparr>"

text \<open>The end of the \<open>Identifier\<close> visitor: the line is added to the usages of the name
  in the current scope.\<close>

definition recordUsage :: "nat \<Rightarrow> jsstring \<Rightarrow> nat \<Rightarrow> traversal \<Rightarrow> traversal" where
  "recordUsage currentScope name line t =
     (let scope = allScopes t ! currentScope;
          lines = (case map_of (usages scope) name of None \<Rightarrow> [] | Some ls \<Rightarrow> ls)
      in t\<lparr>allScopes := (allScopes t)[currentScope :=
            scope\<lparr>usages := mapSet (usages scope) name (lines @ [line])\<rparr>]\<rparr>)"

subsection \<open>The visitors\<close>

text \<open>The positions in which the \<open>Identifier\<close> visitor returns at once: a declared name,
  a key or a member property that is not computed, a specifier, a label.\<close>

fun notAUsage :: "idRole \<Rightarrow> bool" where
  "notAUsage VariableDeclaratorId = True"
| "notAUsage FunctionDeclarationId = True"
| "notAUsage FunctionExpressionId = True"
| "notAUsage (ObjectPropertyKey computed) = (\<not> computed)"
| "notAUsage (ObjectMethodKey computed) = (\<not> computed)"
| "notAUsage (ClassMethodKey computed) = (\<not> computed)"
| "notAUsage (ClassPropertyKey computed) = (\<not> computed)"
| "notAUsage (MemberProperty computed) = (\<not> computed)"
| "notAUsage (OptionalMemberProperty computed) = (\<not> computed)"
| "notAUsage ClassDeclarationId = True"
| "notAUsage InImportSpecifier = True"
| "notAUsage InExportSpecifier = True"
| "notAUsage LabeledStatementLabel = True"
| "notAUsage OtherPosition = False"

text \<open>\<open>elementType.toLowerCase().includes('geometry')\<close>. Only an ASCII capital has a
  letter of \<open>geometry\<close> as its lower case, so the other characters are left as they are.\<close>

definition toLowerAscii :: "jsstring \<Rightarrow> jsstring" where
  "toLowerAscii s = map (\<lambda>c. if 65 \<le> c \<and> c \<le> 90 then c + 32 else c) s"

definition isGeometryElement :: "initKind \<Rightarrow> bool" where
  "isGeometryElement init =
     (case init of
        CreateElementCall elementType \<Rightarrow> includesStr (toLowerAscii elementType) (js ''geometry'')
      | UseMemoCreateElement elementType \<Rightarrow> includesStr (toLowerAscii elementType) (js ''geometry'')
      | OtherInit \<Rightarrow> False)"

text \<open>The names that the \<open>VariableDeclarator\<close> visitor declares: the identifier itself,
  or the properties and elements of a pattern that are plain identifiers.\<close>

fun declaredByProperty :: "property \<Rightarrow> jsstring list" where
  "declaredByProperty (ObjectProperty (Identifier name)) = [name]"
| "declaredByProperty (RestProperty (Identifier name)) = [name]"
| "declaredByProperty _ = []"

fun declaredByElement :: "pattern option \<Rightarrow> jsstring list" where
  "declaredByElement (Some (Identifier name)) = [name]"
| "declaredByElement _ = []"

fun declaredNames :: "pattern \<Rightarrow> jsstring list" where
  "declaredNames (Identifier name) = [name]"
| "declaredNames (ObjectPattern properties) = concat (map declaredByProperty properties)"
| "declaredNames (ArrayPattern elements) = concat (map declaredByElement elements)"
| "declaredNames _ = []"

definition visitDeclarator :: "nat \<Rightarrow> pattern \<Rightarrow> initKind \<Rightarrow> nat \<Rightarrow> traversal \<Rightarrow> traversal" where
  "visitDeclarator currentScope ident init line t =
     (let t' = foldl (\<lambda>st name. declareName currentScope name line st) t (declaredNames ident)
      in case ident of
           Identifier name \<Rightarrow>
             if isGeometryElement init \<and> name \<notin> set (reactElementVars t')
             then t'\<lparr>reactElementVars := reactElementVars t' @ [name]\<rparr> else t'
         | _ \<Rightarrow> t')"

text \<open>Decimal digits of a number, for the messages.\<close>

fun digitsOf :: "nat \<Rightarrow> nat \<Rightarrow> jsstring" where
  "digitsOf 0 n = []"
| "digitsOf (Suc fuel) n =
     (if n < 10 then [48 + int n] else digitsOf fuel (n div 10) @ [48 + int (n mod 10)])"

definition showNat :: "nat \<Rightarrow> jsstring" where
  "showNat n = digitsOf (Suc n) n"

definition threeJSMembers :: "jsstring list" where
  "threeJSMembers = map js [''clone'', ''attributes'', ''dispose'', ''copy'',
     ''computeBoundingSphere'', ''computeVertexNormals'']"

definition reactElementWarning :: "nat \<Rightarrow> jsstring \<Rightarrow> jsstring \<Rightarrow> jsstring" where
  "reactElementWarning line objName propName =
     js ''Line '' @ showNat line @ js '': Variable '' @ [39] @ objName @ [39]
       @ js '' is a React element (created with React.createElement) ''
       @ js ''but is being used as a THREE.js object (.'' @ propName @ js ''). ''
       @ js ''React elements should be used in JSX, not as THREE.js objects.''"

definition visitMember :: "jsstring option \<Rightarrow> jsstring option \<Rightarrow> nat \<Rightarrow> traversal \<Rightarrow> traversal" where
  "visitMember obj prop line t =
     (case (obj, prop) of
        (Some objName, Some propName) \<Rightarrow>
          if objName \<in> set (reactElementVars t) \<and> propName \<in> set threeJSMembers
          then t\<lparr>foundWarnings := foundWarnings t @ [reactElementWarning line objName propName]\<rparr>
          else t
      | _ \<Rightarrow> t)"

text \<open>
  The traversal. \<open>scopeStack\<close> is pushed when a node is entered and popped when it is
  left, so it is the stack of the recursion: \<open>currentScope\<close> is the new scope while the
  children are visited and the old one again afterwards. The visitor of a function
  declaration runs before the one of functions in general, so the name is declared in
  the scope around the function. A block gets a scope unless its parent is a function;
  the block of a catch clause gets one with the name of the clause's parameter.
\<close>

fun visit :: "nat \<Rightarrow> parentKind \<Rightarrow> node \<Rightarrow> traversal \<Rightarrow> traversal"
  and visitAll :: "nat \<Rightarrow> parentKind \<Rightarrow> node list \<Rightarrow> traversal \<Rightarrow> traversal" where
  "visit currentScope parent (FunctionDeclaration ident line fparams children) t =
     (let t1 = (case ident of None \<Rightarrow> t | Some name \<Rightarrow> declareName currentScope name line t);
          t2 = pushScope currentScope (concat (map extractParamNames fparams)) t1
      in visitAll (length (allScopes t1)) ParentFunction children t2)"
| "visit currentScope parent (OtherFunction fparams children) t =
     visitAll (length (allScopes t)) ParentFunction children
       (pushScope currentScope (concat (map extractParamNames fparams)) t)"
| "visit currentScope parent (BlockStatement children) t =
     (case parent of
        ParentFunction \<Rightarrow> visitAll currentScope ParentOther children t
      | ParentCatch param \<Rightarrow>
          visitAll (length (allScopes t)) ParentOther children
            (pushScope currentScope
               (case param of None \<Rightarrow> [] | Some p \<Rightarrow> extractParamNames p) t)
      | ParentOther \<Rightarrow>
          visitAll (length (allScopes t)) ParentOther children (pushScope currentScope [] t))"
| "visit currentScope parent (CatchClause param children) t =
     visitAll currentScope (ParentCatch param) children t"
| "visit currentScope parent (VariableDeclarator ident init line children) t =
     visitAll currentScope ParentOther children (visitDeclarator currentScope ident init line t)"
| "visit currentScope parent (MemberExpression obj prop line children) t =
     visitAll currentScope ParentOther children (visitMember obj prop line t)"
| "visit currentScope parent (IdentifierNode name line role) t =
     (if notAUsage role then t else recordUsage currentScope name line t)"
| "visit currentScope parent (OtherNode children) t =
     visitAll currentScope ParentOther children t"
| "visitAll currentScope parent [] t = t"
| "visitAll currentScope parent (n # ns) t =
     visitAll currentScope parent ns (visit currentScope parent n t)"

subsection \<open>The analysis of the scopes\<close>

datatype errorType = Undefined | TDZ | Syntax

text \<open>\<open>ValidationError\<close> and \<open>ValidationResult\<close>; the fields \<open>type\<close>, \<open>line\<close> and
  \<open>column\<close> of an error are \<open>errType\<close>, \<open>errLine\<close> and \<open>errColumn\<close> here.\<close>

record ValidationError =
  errType :: errorType
  variable :: jsstring
  errLine :: nat
  errColumn :: nat
  message :: jsstring

record ValidationResult =
  valid :: bool
  errors :: "ValidationError list"
  warnings :: "jsstring list option"

text \<open>
  The loop \<open>while (searchScope)\<close> along a scope and its ancestors: the first scope that
  has the name among its declarations, or among its parameters.
\<close>

datatype resolution = NotDeclared | DeclaredAt nat nat | DeclaredAsParam

fun resolveIn :: "ScopeInfo list \<Rightarrow> nat list \<Rightarrow> jsstring \<Rightarrow> resolution" where
  "resolveIn scopes [] name = NotDeclared"
| "resolveIn scopes (i # chain) name =
     (case map_of (declarations (scopes ! i)) name of
        Some declarationLine \<Rightarrow> DeclaredAt declarationLine i
      | None \<Rightarrow>
          if name \<in> set (functionParams (scopes ! i)) then DeclaredAsParam
          else resolveIn scopes chain name)"

definition resolve :: "ScopeInfo list \<Rightarrow> nat \<Rightarrow> jsstring \<Rightarrow> resolution" where
  "resolve scopes i name = resolveIn scopes (i # parentChain (scopes ! i)) name"

definition undefinedError :: "jsstring \<Rightarrow> nat \<Rightarrow> ValidationError" where
  "undefinedError varName firstUsageLine =
     \<lparr>errType = Undefined, variable = varName, errLine = firstUsageLine, errColumn = 0,
      message = [39] @ varName @ [39] @ js '' is not defined''\<rparr>"

definition tdzWarning :: "nat \<Rightarrow> jsstring \<Rightarrow> nat \<Rightarrow> jsstring" where
  "tdzWarning firstEarlyUsage varName declarationLine =
     js ''Line '' @ showNat firstEarlyUsage @ js '': Possible TDZ - '' @ [39] @ varName @ [39]
       @ js '' may be used before initialization (declared at line ''
       @ showNat declarationLine @ js '')''"

text \<open>\<open>lines[0]\<close>; the list of a name's usages is never empty.\<close>

definition firstOf :: "nat list \<Rightarrow> nat" where
  "firstOf ls = (case ls of [] \<Rightarrow> 0 | l # _ \<Rightarrow> l)"

text \<open>The body of \<open>scope.usages.forEach\<close> for the scope with index \<open>i\<close>: what it adds to
  the errors and to the warnings.\<close>

definition checkUsage ::
  "ScopeInfo list \<Rightarrow> nat \<Rightarrow> jsstring \<times> nat list \<Rightarrow> ValidationError list \<times> jsstring list
     \<Rightarrow> ValidationError list \<times> jsstring list" where
  "checkUsage scopes i usage acc =
     (if fst usage \<in> set KNOWN_GLOBALS then acc
      else case resolve scopes i (fst usage) of
             NotDeclared \<Rightarrow> (fst acc @ [undefinedError (fst usage) (firstOf (snd usage))], snd acc)
           | DeclaredAt declarationLine declarationScope \<Rightarrow>
               if declarationLine > 0 \<and> declarationScope = i
               then (case filter (\<lambda>usageLine. usageLine < declarationLine) (snd usage) of
                       [] \<Rightarrow> acc
                     | firstEarlyUsage # _ \<Rightarrow>
                         (fst acc,
                          snd acc @ [tdzWarning firstEarlyUsage (fst usage) declarationLine]))
               else acc
           | DeclaredAsParam \<Rightarrow> acc)"

definition analyseScope ::
  "ScopeInfo list \<Rightarrow> ValidationError list \<times> jsstring list \<Rightarrow> nat
     \<Rightarrow> ValidationError list \<times> jsstring list" where
  "analyseScope scopes acc i = foldl (\<lambda>a usage. checkUsage scopes i usage a) acc (usages (scopes ! i))"

text \<open>\<open>for (const scope of allScopes)\<close>.\<close>

definition analyseScopes ::
  "ScopeInfo list \<Rightarrow> jsstring list \<Rightarrow> ValidationError list \<times> jsstring list" where
  "analyseScopes scopes ws = foldl (analyseScope scopes) ([], ws) [0..<length scopes]"

subsection \<open>A failed parse\<close>

definition isDigit :: "int \<Rightarrow> bool" where
  "isDigit c \<longleftrightarrow> 48 \<le> c \<and> c \<le> 57"

text \<open>\<open>\((\d+):(\d+)\)\<close> at the start of a text, and searched for in a text.\<close>

definition lineColumnAtStart :: "jsstring \<Rightarrow> (jsstring \<times> jsstring) option" where
  "lineColumnAtStart s =
     (if \<not> prefix (js ''('') s then None
      else let r = drop 1 s; r1 = dropWhile isDigit r
           in if takeWhile isDigit r = [] \<or> \<not> prefix (js '':'') r1 then None
              else let r2 = drop 1 r1
                   in if takeWhile isDigit r2 = [] \<or> \<not> prefix (js '')'') (dropWhile isDigit r2)
                      then None
                      else Some (takeWhile isDigit r, takeWhile isDigit r2))"

fun searchLineColumn :: "jsstring \<Rightarrow> (jsstring \<times> jsstring) option" where
  "searchLineColumn [] = None"
| "searchLineColumn (c # cs) =
     (case lineColumnAtStart (c # cs) of
        Some m \<Rightarrow> Some m
      | None \<Rightarrow> searchLineColumn cs)"

text \<open>\<open>parseInt(digits, 10)\<close> on a text of decimal digits.\<close>

definition parseDecimal :: "jsstring \<Rightarrow> nat" where
  "parseDecimal ds = foldl (\<lambda>n c. 10 * n + nat (c - 48)) 0 ds"

text \<open>The \<open>catch\<close> branch: the thrown value is an \<open>Error\<close> with a message, or something
  else.\<close>

definition syntaxError :: "jsstring option \<Rightarrow> ValidationError" where
  "syntaxError thrown =
     (case thrown of
        Some msg \<Rightarrow>
          \<lparr>errType = Syntax, variable = [],
           errLine = (case searchLineColumn msg of None \<Rightarrow> 0 | Some m \<Rightarrow> parseDecimal (fst m)),
           errColumn = (case searchLineColumn msg of None \<Rightarrow> 0 | Some m \<Rightarrow> parseDecimal (snd m)),
           message = js ''Syntax error: '' @ msg\<rparr>
      | None \<Rightarrow>
          \<lparr>errType = Syntax, variable = [], errLine = 0, errColumn = 0,
           message = js ''Unknown syntax error''\<rparr>)"

subsection \<open>\<open>validateSimulationCode\<close>\<close>

text \<open>
  The parser and the traversal are Babel's, and both can throw inside the \<open>try\<close> block.
  The parser is a parameter: for a code it returns the tree, or throws. The traversal
  walks the tree in the order that \<open>visit\<close> follows and calls the visitors; besides, it
  keeps its own record of the bindings of every scope and throws when it finds a
  declaration that conflicts with another one (\<open>Duplicate declaration\<close>). Whether it does
  so on a tree is the second parameter: \<open>None\<close> when the walk comes to its end, or the
  value thrown together with the number of warnings that the visitors had pushed before.
  A thrown value is an \<open>Error\<close> with its message, or something else.

  The arrays \<open>errors\<close> and \<open>warnings\<close> are declared before the \<open>try\<close>: what the visitors
  have pushed when the traversal throws is still there in the \<open>catch\<close> branch. The errors
  are pushed by the analysis only, after the traversal.
\<close>

type_synonym parser = "jsstring \<Rightarrow> jsstring option + node"

type_synonym traverseFailure = "node \<Rightarrow> (jsstring option \<times> nat) option"

definition traverse :: "node \<Rightarrow> traversal" where
  "traverse ast =
     visit 0 ParentOther ast \<lparr>allScopes = [globalScope], reactElementVars = [], foundWarnings = []\<rparr>"

text \<open>The result when something was thrown: the one syntax error, and the warnings pushed
  so far.\<close>

definition caught :: "jsstring option \<Rightarrow> jsstring list \<Rightarrow> ValidationResult" where
  "caught thrown pushed =
     \<lparr>valid = False, errors = [syntaxError thrown],
      warnings = (if pushed \<noteq> [] then Some pushed else None)\<rparr>"

definition validateSimulationCode :: "parser \<Rightarrow> traverseFailure \<Rightarrow> jsstring \<Rightarrow> ValidationResult" where
  "validateSimulationCode parse traverseThrows code =
     (case parse code of
        Inl thrown \<Rightarrow> caught thrown []
      | Inr ast \<Rightarrow>
          (case traverseThrows ast of
             Some (thrown, pushed) \<Rightarrow> caught thrown (take pushed (foundWarnings (traverse ast)))
           | None \<Rightarrow>
               (let t = traverse ast;
                    found = analyseScopes (allScopes t) (foundWarnings t)
                in \<lparr>valid = (fst found = []), errors = fst found,
                    warnings = (if snd found \<noteq> [] then Some (snd found) else None)\<rparr>)))"

text \<open>What the check of one usage adds to the errors and to the warnings, taken apart.\<close>

definition usageErrors :: "ScopeInfo list \<Rightarrow> nat \<Rightarrow> jsstring \<times> nat list \<Rightarrow> ValidationError list" where
  "usageErrors scopes i usage = fst (checkUsage scopes i usage ([], []))"

definition usageWarnings :: "ScopeInfo list \<Rightarrow> nat \<Rightarrow> jsstring \<times> nat list \<Rightarrow> jsstring list" where
  "usageWarnings scopes i usage = snd (checkUsage scopes i usage ([], []))"

subsection \<open>The program as a tree of scopes\<close>

text \<open>
  What the claims about the validator speak of: the scopes of a program, the names that
  are declared and the identifiers that are used in each, and the scopes that enclose a
  scope. The definitions of this subsection read these off the syntax tree directly,
  without the tables and the stack of the traversal; the theorems compare the result of
  \<open>validateSimulationCode\<close> with them.

  A scope: the names of its parameters; the declarations made in it, each with its line,
  in the order of the traversal; the usages recorded in it, each with its line, in that
  order; and the scopes directly inside it.
\<close>

datatype scope =
  Scope (params: "jsstring list") (declared: "(jsstring \<times> nat) list")
    (used: "(jsstring \<times> nat) list") (inner: "scope list")

text \<open>
  The declarations that a node makes in the scope it stands in: the name of a function
  declaration and the names of a declarator. The body of a function belongs to the
  function's scope; any other block, a function and the block of a catch clause are
  scopes of their own and add nothing here.
\<close>

fun declsIn :: "parentKind \<Rightarrow> node \<Rightarrow> (jsstring \<times> nat) list"
  and declsInAll :: "parentKind \<Rightarrow> node list \<Rightarrow> (jsstring \<times> nat) list" where
  "declsIn parent (FunctionDeclaration ident line fparams children) =
     (case ident of None \<Rightarrow> [] | Some name \<Rightarrow> [(name, line)])"
| "declsIn parent (OtherFunction fparams children) = []"
| "declsIn parent (BlockStatement children) =
     (case parent of ParentFunction \<Rightarrow> declsInAll ParentOther children | _ \<Rightarrow> [])"
| "declsIn parent (CatchClause param children) = declsInAll (ParentCatch param) children"
| "declsIn parent (VariableDeclarator ident init line children) =
     map (\<lambda>name. (name, line)) (declaredNames ident) @ declsInAll ParentOther children"
| "declsIn parent (MemberExpression obj prop line children) = declsInAll ParentOther children"
| "declsIn parent (IdentifierNode name line role) = []"
| "declsIn parent (OtherNode children) = declsInAll ParentOther children"
| "declsInAll parent [] = []"
| "declsInAll parent (n # ns) = declsIn parent n @ declsInAll parent ns"

text \<open>The usages that a node adds to the scope it stands in: the identifiers in it that
  are not in one of the positions which the \<open>Identifier\<close> visitor skips, up to the next
  scope.\<close>

fun usesIn :: "parentKind \<Rightarrow> node \<Rightarrow> (jsstring \<times> nat) list"
  and usesInAll :: "parentKind \<Rightarrow> node list \<Rightarrow> (jsstring \<times> nat) list" where
  "usesIn parent (FunctionDeclaration ident line fparams children) = []"
| "usesIn parent (OtherFunction fparams children) = []"
| "usesIn parent (BlockStatement children) =
     (case parent of ParentFunction \<Rightarrow> usesInAll ParentOther children | _ \<Rightarrow> [])"
| "usesIn parent (CatchClause param children) = usesInAll (ParentCatch param) children"
| "usesIn parent (VariableDeclarator ident init line children) = usesInAll ParentOther children"
| "usesIn parent (MemberExpression obj prop line children) = usesInAll ParentOther children"
| "usesIn parent (IdentifierNode name line role) = (if notAUsage role then [] else [(name, line)])"
| "usesIn parent (OtherNode children) = usesInAll ParentOther children"
| "usesInAll parent [] = []"
| "usesInAll parent (n # ns) = usesIn parent n @ usesInAll parent ns"

text \<open>
  The scopes that a node opens in the scope it stands in: a function, with the names of
  its parameters; a block that is not the body of a function; the block of a catch
  clause, with the names of the clause's parameter.
\<close>

fun scopesIn :: "parentKind \<Rightarrow> node \<Rightarrow> scope list"
  and scopesInAll :: "parentKind \<Rightarrow> node list \<Rightarrow> scope list" where
  "scopesIn parent (FunctionDeclaration ident line fparams children) =
     [Scope (concat (map extractParamNames fparams)) (declsInAll ParentFunction children)
        (usesInAll ParentFunction children) (scopesInAll ParentFunction children)]"
| "scopesIn parent (OtherFunction fparams children) =
     [Scope (concat (map extractParamNames fparams)) (declsInAll ParentFunction children)
        (usesInAll ParentFunction children) (scopesInAll ParentFunction children)]"
| "scopesIn parent (BlockStatement children) =
     (case parent of
        ParentFunction \<Rightarrow> scopesInAll ParentOther children
      | ParentCatch param \<Rightarrow>
          [Scope (case param of None \<Rightarrow> [] | Some p \<Rightarrow> extractParamNames p)
             (declsInAll ParentOther children) (usesInAll ParentOther children)
             (scopesInAll ParentOther children)]
      | ParentOther \<Rightarrow>
          [Scope [] (declsInAll ParentOther children) (usesInAll ParentOther children)
             (scopesInAll ParentOther children)])"
| "scopesIn parent (CatchClause param children) = scopesInAll (ParentCatch param) children"
| "scopesIn parent (VariableDeclarator ident init line children) = scopesInAll ParentOther children"
| "scopesIn parent (MemberExpression obj prop line children) = scopesInAll ParentOther children"
| "scopesIn parent (IdentifierNode name line role) = []"
| "scopesIn parent (OtherNode children) = scopesInAll ParentOther children"
| "scopesInAll parent [] = []"
| "scopesInAll parent (n # ns) = scopesIn parent n @ scopesInAll parent ns"

text \<open>The scope of the whole program.\<close>

definition programScope :: "node \<Rightarrow> scope" where
  "programScope ast =
     Scope [] (declsIn ParentOther ast) (usesIn ParentOther ast) (scopesIn ParentOther ast)"


text \<open>
  The lines at which a name is used in a list of usages, in their order; the names used,
  each once, in the order of their first usage; and the line of the last declaration of a
  name in a list of declarations, which is the one that a \<open>Map\<close> keeps.
\<close>

definition linesOf :: "(jsstring \<times> nat) list \<Rightarrow> jsstring \<Rightarrow> nat list" where
  "linesOf us name = map snd (filter (\<lambda>u. fst u = name) us)"

definition usedNames :: "(jsstring \<times> nat) list \<Rightarrow> jsstring list" where
  "usedNames us = rev (remdups (rev (map fst us)))"

definition lastDeclared :: "(jsstring \<times> nat) list \<Rightarrow> jsstring \<Rightarrow> nat option" where
  "lastDeclared ds name = map_of (rev ds) name"

text \<open>
  The undefined identifiers of a scope and of the scopes inside it. \<open>visible\<close> holds the
  names that the enclosing scopes declare or have as parameters. A name that is used in
  the scope, is not a known global and is neither visible from outside nor a declaration
  or a parameter of the scope itself is reported once for this scope, with the line of its
  first usage there; then come the scopes inside, in their order.
\<close>

fun undefinedIn :: "jsstring set \<Rightarrow> scope \<Rightarrow> ValidationError list" where
  "undefinedIn visible (Scope ps ds us ss) =
     map (\<lambda>name. undefinedError name (hd (linesOf us name)))
       (filter (\<lambda>name. name \<notin> set KNOWN_GLOBALS
                  \<and> name \<notin> visible \<union> set ps \<union> fst ` set ds) (usedNames us))
     @ concat (map (undefinedIn (visible \<union> set ps \<union> fst ` set ds)) ss)"

text \<open>The same for one name: the lines of the errors that report it.\<close>

fun undefinedLines :: "jsstring set \<Rightarrow> jsstring \<Rightarrow> scope \<Rightarrow> nat list" where
  "undefinedLines visible name (Scope ps ds us ss) =
     (if name \<in> fst ` set us \<and> name \<notin> visible \<union> set ps \<union> fst ` set ds
      then [hd (linesOf us name)] else [])
     @ concat (map (undefinedLines (visible \<union> set ps \<union> fst ` set ds) name) ss)"

text \<open>
  The usages of a name in a scope that come before the line of its declaration in the
  same scope, and the warnings about them: one for every name that is used in the scope,
  is not a known global and has such usages, with the first of them in the order of the
  traversal; then the warnings of the scopes inside.
\<close>

definition earlyUsages :: "scope \<Rightarrow> jsstring \<Rightarrow> nat list" where
  "earlyUsages s name =
     (case lastDeclared (declared s) name of
        None \<Rightarrow> []
      | Some declarationLine \<Rightarrow> filter (\<lambda>l. l < declarationLine) (linesOf (used s) name))"

fun tdzWarningsIn :: "scope \<Rightarrow> jsstring list" where
  "tdzWarningsIn (Scope ps ds us ss) =
     concat (map (\<lambda>name. case lastDeclared ds name of
                            None \<Rightarrow> []
                          | Some declarationLine \<Rightarrow>
                              (case earlyUsages (Scope ps ds us ss) name of
                                 [] \<Rightarrow> []
                               | l # _ \<Rightarrow> [tdzWarning l name declarationLine]))
               (filter (\<lambda>name. name \<notin> set KNOWN_GLOBALS) (usedNames us)))
     @ concat (map tdzWarningsIn ss)"

text \<open>
  All the usages of a tree, in the order of the traversal, whatever scope they are
  recorded in. A tree is in line order when their lines never go down: this is so when the
  traversal visits the identifiers in the order of the text.
\<close>

fun usesAll :: "node \<Rightarrow> (jsstring \<times> nat) list"
  and usesAllOf :: "node list \<Rightarrow> (jsstring \<times> nat) list" where
  "usesAll (FunctionDeclaration ident line fparams children) = usesAllOf children"
| "usesAll (OtherFunction fparams children) = usesAllOf children"
| "usesAll (BlockStatement children) = usesAllOf children"
| "usesAll (CatchClause param children) = usesAllOf children"
| "usesAll (VariableDeclarator ident init line children) = usesAllOf children"
| "usesAll (MemberExpression obj prop line children) = usesAllOf children"
| "usesAll (IdentifierNode name line role) = (if notAUsage role then [] else [(name, line)])"
| "usesAll (OtherNode children) = usesAllOf children"
| "usesAllOf [] = []"
| "usesAllOf (n # ns) = usesAll n @ usesAllOf ns"

definition inLineOrder :: "node \<Rightarrow> bool" where
  "inLineOrder ast \<longleftrightarrow> sorted (map snd (usesAll ast))"

subsection \<open>The tables of a tree of scopes\<close>

text \<open>
  The tables that the traversal fills, written as functions of the tree of scopes; the
  comparison of the traversal with the tree of scopes goes through them. \<open>addDecls\<close> and \<open>addUses\<close> put a list of declarations and a list of usages into
  the tables of a scope, as \<open>declareName\<close> and \<open>recordUsage\<close> do one at a time.
\<close>

definition addDecls :: "(jsstring \<times> nat) list \<Rightarrow> ScopeInfo \<Rightarrow> ScopeInfo" where
  "addDecls ds s = s\<lparr>declarations := foldl (\<lambda>m d. mapSet m (fst d) (snd d)) (declarations s) ds\<rparr>"

definition addUse :: "(jsstring \<times> nat list) list \<Rightarrow> jsstring \<times> nat \<Rightarrow> (jsstring \<times> nat list) list" where
  "addUse m u = mapSet m (fst u) ((case map_of m (fst u) of None \<Rightarrow> [] | Some ls \<Rightarrow> ls) @ [snd u])"

definition addUses :: "(jsstring \<times> nat) list \<Rightarrow> ScopeInfo \<Rightarrow> ScopeInfo" where
  "addUses us s = s\<lparr>usages := foldl addUse (usages s) us\<rparr>"

text \<open>The scope that \<open>pushScope\<close> appends, and the table of a scope of the tree whose
  ancestors have the indices \<open>chain\<close>.\<close>

definition freshScope :: "jsstring list \<Rightarrow> nat list \<Rightarrow> ScopeInfo" where
  "freshScope names chain = \<lparr>declarations = [], usages = [], functionParams = names, parentChain = chain\<rparr>"

definition tableOf :: "nat list \<Rightarrow> scope \<Rightarrow> ScopeInfo" where
  "tableOf chain s = addUses (used s) (addDecls (declared s) (freshScope (params s) chain))"

text \<open>The tables of a scope and of the scopes inside it, in the order in which the
  traversal makes them; \<open>i\<close> is the index that the first of them gets.\<close>

fun flatten :: "nat list \<Rightarrow> nat \<Rightarrow> scope \<Rightarrow> ScopeInfo list"
  and flattenAll :: "nat list \<Rightarrow> nat \<Rightarrow> scope list \<Rightarrow> ScopeInfo list" where
  "flatten chain i (Scope ps ds us ss) =
     tableOf chain (Scope ps ds us ss) # flattenAll (i # chain) (Suc i) ss"
| "flattenAll chain i [] = []"
| "flattenAll chain i (s # ss) =
     flatten chain i s @ flattenAll chain (i + length (flatten chain i s)) ss"

text \<open>What a visit does to \<open>allScopes\<close>: the current scope gets declarations and usages,
  and the tables of the scopes opened are appended.\<close>

definition grown :: "nat \<Rightarrow> (jsstring \<times> nat) list \<Rightarrow> (jsstring \<times> nat) list \<Rightarrow> scope list
    \<Rightarrow> ScopeInfo list \<Rightarrow> ScopeInfo list" where
  "grown c ds us ss S =
     S[c := addUses us (addDecls ds (S ! c))]
       @ flattenAll (c # parentChain (S ! c)) (length S) ss"

text \<open>What the analysis of the scope with index \<open>i\<close> adds to the errors and to the
  warnings.\<close>

definition errorsAt :: "ScopeInfo list \<Rightarrow> nat \<Rightarrow> ValidationError list" where
  "errorsAt T i = concat (map (usageErrors T i) (usages (T ! i)))"

definition warningsAt :: "ScopeInfo list \<Rightarrow> nat \<Rightarrow> jsstring list" where
  "warningsAt T i = concat (map (usageWarnings T i) (usages (T ! i)))"
section \<open>The budget for error corrections\<close>

text \<open>The counters start at zero and are only ever incremented, so they are natural
  numbers; the section count that \<open>initErrorCorrectionBudget\<close> is given, and the ids of
  the sections, are any integers.\<close>

record ErrorCorrectionBudget =
  maxCalls :: int
  callsUsed :: nat
  perSection :: "(int \<times> nat) list"
  maxPerSection :: nat

definition ERROR_CORRECTION_BUDGET :: ErrorCorrectionBudget where
  "ERROR_CORRECTION_BUDGET = \<lparr>maxCalls = 5, callsUsed = 0, perSection = [], maxPerSection = 1\<rparr>"

definition initErrorCorrectionBudget :: "int \<Rightarrow> ErrorCorrectionBudget \<Rightarrow> ErrorCorrectionBudget" where
  "initErrorCorrectionBudget sectionCount b =
     b\<lparr>maxCalls := sectionCount, callsUsed := 0, perSection := []\<rparr>"

text \<open>What an attempt to correct can throw. The budget errors carry the numbers of their
  messages, the other ones the message.\<close>

datatype failure =
    SectionBudgetExhausted int nat nat
  | SessionLimitReached nat int
  | RequestFailed jsstring
  | EditsNotApplied jsstring
  | ValidationFailed jsstring

text \<open>\<open>perSection.get(sectionId) ?? 0\<close>.\<close>

definition sectionCalls :: "ErrorCorrectionBudget \<Rightarrow> int \<Rightarrow> nat" where
  "sectionCalls b sectionId = (case map_of (perSection b) sectionId of None \<Rightarrow> 0 | Some n \<Rightarrow> n)"

text \<open>
  \<open>consumeErrorCorrectionBudget\<close>: the error it throws, if it does, and the budget as it
  leaves it. The check of a section comes before anything is counted; the session counter
  is incremented before it is checked.
\<close>

definition consumeErrorCorrectionBudget ::
  "int option \<Rightarrow> ErrorCorrectionBudget \<Rightarrow> failure option \<times> ErrorCorrectionBudget" where
  "consumeErrorCorrectionBudget sectionId b =
     (case (case sectionId of
              None \<Rightarrow> Inr b
            | Some sid \<Rightarrow>
                if sectionCalls b sid \<ge> maxPerSection b
                then Inl (SectionBudgetExhausted sid (sectionCalls b sid) (maxPerSection b))
                else Inr (b\<lparr>perSection := mapSet (perSection b) sid (sectionCalls b sid + 1)\<rparr>)) of
        Inl thrown \<Rightarrow> (Some thrown, b)
      | Inr b1 \<Rightarrow>
          (let b2 = b1\<lparr>callsUsed := callsUsed b1 + 1\<rparr>
           in if int (callsUsed b2) > maxCalls b2
              then (Some (SessionLimitReached (callsUsed b2) (maxCalls b2)), b2)
              else (None, b2)))"

section \<open>Applying search-and-replace edits\<close>

record SimulationEdit =
  old_code :: jsstring
  new_code :: jsstring

record EditApplication =
  newCode :: jsstring
  failedEdits :: "SimulationEdit list"

text \<open>The \<open>for\<close> loop of \<open>applySimulationEdits\<close>, with its two variables.\<close>

fun applyEditsLoop ::
  "jsstring \<Rightarrow> SimulationEdit list \<Rightarrow> SimulationEdit list \<Rightarrow> EditApplication" where
  "applyEditsLoop currentCode failed [] = \<lparr>newCode = currentCode, failedEdits = failed\<rparr>"
| "applyEditsLoop currentCode failed (edit # edits) =
     (if \<not> includesStr currentCode (old_code edit)
      then applyEditsLoop currentCode (failed @ [edit]) edits
      else applyEditsLoop (replaceAll currentCode (old_code edit) (new_code edit)) failed edits)"

definition applySimulationEdits :: "jsstring \<Rightarrow> SimulationEdit list \<Rightarrow> EditApplication" where
  "applySimulationEdits code edits = applyEditsLoop code [] edits"

text \<open>The code as the edits before the \<open>i\<close>-th one have rewritten it: the value of
  \<open>currentCode\<close> when the loop reaches that edit.\<close>

definition codeBeforeEdit :: "jsstring \<Rightarrow> SimulationEdit list \<Rightarrow> nat \<Rightarrow> jsstring" where
  "codeBeforeEdit code edits i = newCode (applySimulationEdits code (take i edits))"

section \<open>Correcting a simulation by patches\<close>

text \<open>
  What the model answers: \<open>SimulationEditResult\<close>, as \<open>JSON.parse\<close> returns it. \<open>edits\<close>
  and \<open>params\<close> are there only when they are arrays. The type of the parameters of a
  simulation is left open.
\<close>

record 'p SimulationEditResult =
  res_explanation :: jsstring
  res_edits :: "SimulationEdit list option"
  res_params :: "'p option"

text \<open>\<open>InteractiveConfig & { explanation: string }\<close>.\<close>

record 'p InteractiveConfig =
  cfg_prompt :: jsstring
  cfg_code :: jsstring
  cfg_params :: 'p
  cfg_explanation :: jsstring

text \<open>
  A request to the model. The prompts are fixed texts around the values that are
  interpolated into them; the model of a message keeps these values: the code, the
  parameters, the error message, the first 500 characters of the stack if there is one,
  and the warnings of the validator if there are any; for the retry the code, the failed
  edits and the context line.
\<close>

datatype 'p prompt =
    SystemPrompt
  | UserPrompt jsstring 'p jsstring "jsstring option" "jsstring list option"
  | RetryPrompt jsstring "SimulationEdit list" jsstring

record 'p request =
  messages :: "'p prompt list"
  schemaName :: jsstring

text \<open>
  The state that the correction works on: the budget of the session and the requests
  sent so far. The collaborator answers the \<open>n\<close>-th request of the session with a result,
  or the call throws with a message.
\<close>

record 'p world =
  budget :: ErrorCorrectionBudget
  requests :: "'p request list"

type_synonym 'p collaborator = "nat \<Rightarrow> 'p request \<Rightarrow> jsstring + 'p SimulationEditResult"

definition callLLM ::
  "'p collaborator \<Rightarrow> 'p request \<Rightarrow> 'p world \<Rightarrow> (jsstring + 'p SimulationEditResult) \<times> 'p world" where
  "callLLM llm req w = (llm (length (requests w)) req, w\<lparr>requests := requests w @ [req]\<rparr>)"

subsection \<open>\<open>JSON.stringify\<close> of a string\<close>

definition hexDigit :: "int \<Rightarrow> int" where
  "hexDigit d = (if d < 10 then 48 + d else 87 + d)"

text \<open>\<open>\uXXXX\<close> with four lower-case hexadecimal digits.\<close>

definition unicodeEscape :: "int \<Rightarrow> jsstring" where
  "unicodeEscape c =
     [92, 117, hexDigit (c div 4096 mod 16), hexDigit (c div 256 mod 16),
      hexDigit (c div 16 mod 16), hexDigit (c mod 16)]"

definition isHighSurrogate :: "int \<Rightarrow> bool" where
  "isHighSurrogate c \<longleftrightarrow> 55296 \<le> c \<and> c \<le> 56319"

definition isLowSurrogate :: "int \<Rightarrow> bool" where
  "isLowSurrogate c \<longleftrightarrow> 56320 \<le> c \<and> c \<le> 57343"

text \<open>\<open>QuoteJSONString\<close> without the quotes around: the short escapes, \<open>\uXXXX\<close> for the
  other control characters and for a surrogate that has no partner.\<close>

fun quoteJSON :: "jsstring \<Rightarrow> jsstring" where
  "quoteJSON [] = []"
| "quoteJSON [c] =
     (if c = 8 then [92, 98] else if c = 9 then [92, 116] else if c = 10 then [92, 110]
      else if c = 12 then [92, 102] else if c = 13 then [92, 114]
      else if c = 34 then [92, 34] else if c = 92 then [92, 92]
      else if c < 32 \<or> isHighSurrogate c \<or> isLowSurrogate c then unicodeEscape c
      else [c])"
| "quoteJSON (c # d # rest) =
     (if isHighSurrogate c \<and> isLowSurrogate d then c # d # quoteJSON rest
      else quoteJSON [c] @ quoteJSON (d # rest))"

definition JSON_stringify :: "jsstring \<Rightarrow> jsstring" where
  "JSON_stringify s = [34] @ quoteJSON s @ [34]"

subsection \<open>\<open>fixSimulationCodeWithPatch\<close>\<close>

definition initialRequest ::
  "jsstring \<Rightarrow> 'p \<Rightarrow> jsstring \<Rightarrow> jsstring option \<Rightarrow> jsstring list option \<Rightarrow> 'p request" where
  "initialRequest currentCode currentParams errorMessage errorStack validationWarnings =
     \<lparr>messages =
        [SystemPrompt,
         UserPrompt currentCode currentParams errorMessage
           (case errorStack of
              None \<Rightarrow> None
            | Some st \<Rightarrow> if st = [] then None else Some (take 500 st))
           (case validationWarnings of
              None \<Rightarrow> None
            | Some ws \<Rightarrow> if ws = [] then None else Some ws)],
      schemaName = js ''simulation_error_fix_schema''\<rparr>"

definition retryRequest ::
  "jsstring \<Rightarrow> 'p \<Rightarrow> jsstring \<Rightarrow> jsstring option \<Rightarrow> jsstring list option
     \<Rightarrow> SimulationEdit list \<Rightarrow> 'p request" where
  "retryRequest currentCode currentParams errorMessage errorStack validationWarnings failed =
     \<lparr>messages =
        messages (initialRequest currentCode currentParams errorMessage errorStack
                    validationWarnings)
          @ [RetryPrompt currentCode failed (js ''Original error: '' @ errorMessage)],
      schemaName = js ''simulation_error_fix_retry_schema''\<rparr>"

definition editsOf :: "'p SimulationEditResult \<Rightarrow> SimulationEdit list" where
  "editsOf result = (case res_edits result of None \<Rightarrow> [] | Some es \<Rightarrow> es)"

definition notAppliedMessage :: "SimulationEdit list \<Rightarrow> jsstring" where
  "notAppliedMessage failed =
     js ''Could not apply error fixes. These old_code strings were not found: ''
       @ joinWith (js '', '') (map (\<lambda>e. JSON_stringify (old_code e)) failed)"

definition validationMessage :: "ValidationError list \<Rightarrow> jsstring \<Rightarrow> jsstring" where
  "validationMessage errs errorMessage =
     js ''Error correction failed validation: ''
       @ joinWith (js ''; '')
           (map (\<lambda>e. js ''Line '' @ showNat (errLine e) @ js '': '' @ message e) errs)
       @ js ''. Original error: '' @ errorMessage"

text \<open>The end of the function, from \<open>const cleanCode = sanitizeSimulationCode(newCode)\<close>
  on: the patched code is sanitized and validated, and returned only if it is valid.\<close>

definition finishFix ::
  "parser \<Rightarrow> traverseFailure \<Rightarrow> jsstring \<Rightarrow> 'p \<Rightarrow> jsstring \<Rightarrow> 'p SimulationEditResult
     \<Rightarrow> failure + 'p InteractiveConfig" where
  "finishFix parse traverseThrows patched currentParams errorMessage result =
     (let cleanCode = sanitizeSimulationCode patched;
          safeParams = (case res_params result of None \<Rightarrow> currentParams | Some ps \<Rightarrow> ps);
          validation = validateSimulationCode parse traverseThrows cleanCode
      in if \<not> valid validation
         then Inl (ValidationFailed (validationMessage (errors validation) errorMessage))
         else Inr \<lparr>cfg_prompt = js ''Error fix: '' @ errorMessage, cfg_code = cleanCode,
                   cfg_params = safeParams, cfg_explanation = res_explanation result\<rparr>)"

text \<open>The retry, once the first edits have not all applied: one more request, whose
  edits are applied to the code the function was called with.\<close>

definition retryFix ::
  "'p collaborator \<Rightarrow> parser \<Rightarrow> traverseFailure \<Rightarrow> jsstring \<Rightarrow> 'p \<Rightarrow> jsstring \<Rightarrow> jsstring option
     \<Rightarrow> jsstring list option \<Rightarrow> SimulationEdit list \<Rightarrow> 'p world
     \<Rightarrow> (failure + 'p InteractiveConfig) \<times> 'p world" where
  "retryFix llm parse traverseThrows currentCode currentParams errorMessage errorStack validationWarnings
       failed w =
     (case callLLM llm
             (retryRequest currentCode currentParams errorMessage errorStack validationWarnings
                failed) w of
        (Inl thrown, w') \<Rightarrow> (Inl (RequestFailed thrown), w')
      | (Inr retryResult, w') \<Rightarrow>
          (let retryApply = applySimulationEdits currentCode (editsOf retryResult)
           in if failedEdits retryApply \<noteq> []
              then (Inl (EditsNotApplied (notAppliedMessage (failedEdits retryApply))), w')
              else (finishFix parse traverseThrows (newCode retryApply) currentParams errorMessage retryResult,
                    w')))"

definition fixSimulationCodeWithPatch ::
  "'p collaborator \<Rightarrow> parser \<Rightarrow> traverseFailure \<Rightarrow> jsstring \<Rightarrow> 'p \<Rightarrow> jsstring \<Rightarrow> jsstring option
     \<Rightarrow> jsstring list option \<Rightarrow> int option \<Rightarrow> 'p world
     \<Rightarrow> (failure + 'p InteractiveConfig) \<times> 'p world" where
  "fixSimulationCodeWithPatch llm parse traverseThrows currentCode currentParams errorMessage errorStack
       validationWarnings sectionId w =
     (case consumeErrorCorrectionBudget sectionId (budget w) of
        (Some thrown, b) \<Rightarrow> (Inl thrown, w\<lparr>budget := b\<rparr>)
      | (None, b) \<Rightarrow>
          (case callLLM llm
                  (initialRequest currentCode currentParams errorMessage errorStack
                     validationWarnings) (w\<lparr>budget := b\<rparr>) of
             (Inl thrown, w') \<Rightarrow> (Inl (RequestFailed thrown), w')
           | (Inr result, w') \<Rightarrow>
               (let applied = applySimulationEdits currentCode (editsOf result)
                in if failedEdits applied \<noteq> []
                   then retryFix llm parse traverseThrows currentCode currentParams errorMessage errorStack
                          validationWarnings (failedEdits applied) w'
                   else (finishFix parse traverseThrows (newCode applied) currentParams errorMessage result,
                         w'))))"


section \<open>The runtime interceptor: event handlers\<close>

text \<open>
  What a function can throw: an \<open>Error\<close> with its message, or any other value. Of another
  value the wrapper makes \<open>new Error(String(err))\<close>; \<open>String(err)\<close> gives a text, or it
  throws in its turn (an object whose \<open>toString\<close> throws).
\<close>

datatype thrown = ErrorObject jsstring | OtherValue "thrown + jsstring"


text \<open>
  The registered handler, \<open>props.onUseFrameError\<close>, is code of the host: it is called with
  the error and returns or throws. So is the logging that comes before it, \<open>console.error\<close>
  and \<open>devLogger.addEntry\<close>, called with the key of the property and the message.
\<close>

type_synonym handler = "jsstring \<Rightarrow> thrown option"


text \<open>
  A function value: one of the generated code, or the closure that \<open>safeCreateElement\<close>
  puts around a function for the property \<open>key\<close>. A property holds a function or some other
  value.
\<close>

datatype ('a, 'r) callable =
    Original "'a list \<Rightarrow> thrown + 'r"
  | Wrapped jsstring "('a, 'r) callable"


text \<open>
  \<open>simErrorHandlerRef\<close>: the handler \<open>current\<close>, or \<open>null\<close>, and the flag \<open>fired\<close>. The calls
  \<open>simErrorHandlerRef.current(error)\<close> are kept as the list of the messages handed to the
  handler.
\<close>

record errorHandlerRef =
  current :: "handler option"
  fired :: bool
  reported :: "jsstring list"












section \<open>Facts about the string operations\<close>

lemma findFirst_complete: "findFirst pat (a @ pat @ b) \<noteq> None"
proof (induction a)
  case Nil
  have "prefix pat (pat @ b)" by simp
  then show ?case by (cases "pat @ b") auto
next
  case (Cons c a)
  then show ?case by auto
qed

lemma includesStr_infix: "includesStr (a @ pat @ b) pat"
  by (simp add: includesStr_def findFirst_complete)

lemma findFirst_Some_prefix:
  "findFirst pat s = Some i \<Longrightarrow> i \<le> length s \<and> prefix pat (drop i s)"
  by (induction s arbitrary: i) (auto split: if_splits)

lemma getSubstitution_literal:
  "DOLLAR \<notin> set templ \<Longrightarrow> getSubstitution m b a templ = templ"
  by (induction m b a templ rule: getSubstitution.induct) auto

lemma trim_decompose:
  "line = takeWhile isSpace line @ trim line @ rev (takeWhile isSpace (rev (dropWhile isSpace line)))"
proof -
  have "rev (dropWhile isSpace line) = takeWhile isSpace (rev (dropWhile isSpace line)) @ dropWhile isSpace (rev (dropWhile isSpace line))"
    by simp
  then have "dropWhile isSpace line = rev (dropWhile isSpace (rev (dropWhile isSpace line))) @ rev (takeWhile isSpace (rev (dropWhile isSpace line)))"
    by (metis rev_append rev_rev_ident)
  then show ?thesis
    by (metis takeWhile_dropWhile_id trim_def trimEnd_def trimStart_def)
qed

lemma findFirst_after_spaces:
  "\<forall>c \<in> set ws. isSpace c \<Longrightarrow> pat \<noteq> [] \<Longrightarrow> \<not> isSpace (hd pat) \<Longrightarrow>
   findFirst pat (ws @ pat @ rest) = Some (length ws)"
proof (induction ws)
  case Nil
  have "prefix pat (pat @ rest)" by simp
  with Nil show ?case by (cases "pat @ rest") auto
next
  case (Cons c ws)
  have "\<not> prefix pat (c # ws @ pat @ rest)"
    using Cons.prems by (cases pat) auto
  with Cons show ?case by simp
qed


lemma splitOn_no_sep: "sep \<notin> set l \<Longrightarrow> splitOn sep l = [l]"
  by (induction l) auto

lemma splitOn_append:
  "sep \<notin> set l \<Longrightarrow> splitOn sep (l @ sep # rest) = l # splitOn sep rest"
  by (induction l) (auto split: list.splits)

lemma splitOn_joinWith:
  "ls \<noteq> [] \<Longrightarrow> \<forall>l \<in> set ls. sep \<notin> set l \<Longrightarrow> splitOn sep (joinWith [sep] ls) = ls"
proof (induction "[sep]" ls rule: joinWith.induct)
  case 1
  then show ?case by simp
next
  case (2 piece)
  then show ?case by (simp add: splitOn_no_sep)
next
  case (3 piece v va)
  then show ?case by (simp add: splitOn_append)
qed

section \<open>The association lists that stand for a Map\<close>

lemma map_of_mapSet: "map_of (mapSet m k v) = (map_of m)(k \<mapsto> v)"
  by (induction m k v rule: mapSet.induct) auto

lemma mapSet_keys:
  "map fst (mapSet m k v) = (if k \<in> set (map fst m) then map fst m else map fst m @ [k])"
  by (induction m k v rule: mapSet.induct) auto


section \<open>Properties of the sanitizer\<close>

subsection \<open>Import and export lines\<close>

lemma dropWhile_spaces_then:
  "list_all P ws \<Longrightarrow> r \<noteq> [] \<Longrightarrow> \<not> P (hd r) \<Longrightarrow>
   dropWhile P (ws @ r) = r \<and> takeWhile P (ws @ r) = ws"
  by (induction ws) (auto simp: neq_Nil_conv)

lemma trim_framed:
  assumes "list_all isSpace lead" "list_all isSpace trail" "t \<noteq> []"
    "\<not> isSpace (hd t)" "\<not> isSpace (last t)"
  shows "trim (lead @ t @ trail) = t" and "takeWhile isSpace (lead @ t @ trail) = lead"
proof -
  have a: "dropWhile isSpace (lead @ t @ trail) = t @ trail"
    and b: "takeWhile isSpace (lead @ t @ trail) = lead"
    using dropWhile_spaces_then[of isSpace lead "t @ trail"] assms by simp_all
  have "list_all isSpace (rev trail)" using assms(2) by (simp add: list_all_iff)
  moreover have "rev t \<noteq> []" "\<not> isSpace (hd (rev t))"
    using assms(3,5) by (simp_all add: hd_rev)
  ultimately have "dropWhile isSpace (rev trail @ rev t) = rev t"
    using dropWhile_spaces_then[of isSpace "rev trail" "rev t"] by simp
  then show "trim (lead @ t @ trail) = t"
    by (simp add: trim_def trimStart_def trimEnd_def a)
  show "takeWhile isSpace (lead @ t @ trail) = lead" by (rule b)
qed

lemma keywordThenSpace_split:
  assumes "keywordThenSpace word s"
  shows "takeWhile isSpace (drop (length word) s) \<noteq> []"
  using assms by (auto simp: keywordThenSpace_def split: list.splits)

lemma not_keywordThenSpace:
  assumes "\<not> keywordThenSpace word s" "prefix word s"
  shows "takeWhile isSpace (drop (length word) s) = []"
  using assms by (auto simp: keywordThenSpace_def split: list.splits)

lemma stripExport_remainder:
  "stripExport t = (if keywordThenSpace (js ''export'') t then dropWhile isSpace (drop 6 t) else t)"
proof (cases "prefix (js ''export'') t")
  case True
  have l: "length (js ''export'') = 6" by (simp add: js_def)
  show ?thesis
    using True keywordThenSpace_split[of "js ''export''" t] not_keywordThenSpace[of "js ''export''" t]
    by (auto simp: stripExport_def Let_def l)
next
  case False
  then show ?thesis by (simp add: stripExport_def keywordThenSpace_def)
qed

lemma stripped_framed:
  assumes "exportFrame lead gap rest trail"
  shows "stripExport (stripExportDefault (js ''export'' @ gap @ rest)) = exportRemainder rest"
proof -
  define t where "t = js ''export'' @ gap @ rest"
  from assms have g: "list_all isSpace gap" "gap \<noteq> []" and r: "rest \<noteq> []" "\<not> isSpace (hd rest)"
    by (simp_all add: exportFrame_def)
  have p: "prefix (js ''export'') t" by (simp add: t_def)
  have d6: "drop 6 t = gap @ rest" by (simp add: t_def js_def)
  have tw: "takeWhile isSpace (gap @ rest) = gap" and dw: "dropWhile isSpace (gap @ rest) = rest"
    using dropWhile_spaces_then[OF g(1) r] by simp_all
  have kt: "keywordThenSpace (js ''export'') t"
    using g by (cases gap) (auto simp: keywordThenSpace_def js_def t_def)
  have l7: "length (js ''default'') = 7" by (simp add: js_def)
  have "stripExport (stripExportDefault t) = exportRemainder rest"
  proof (cases "keywordThenSpace (js ''default'') rest")
    case True
    then have pd: "prefix (js ''default'') rest" by (simp add: keywordThenSpace_def)
    from keywordThenSpace_split[OF True] have "takeWhile isSpace (drop 7 rest) \<noteq> []"
      by (simp add: l7)
    then have "stripExportDefault t = dropWhile isSpace (drop 7 rest)"
      using p pd g(2) by (simp add: stripExportDefault_def Let_def d6 tw dw)
    then show ?thesis using True
      by (simp add: exportRemainder_def Let_def stripExport_remainder)
  next
    case False
    have "stripExportDefault t = t"
    proof (cases "prefix (js ''default'') rest")
      case True
      from not_keywordThenSpace[OF False True] have "takeWhile isSpace (drop 7 rest) = []"
        by (simp add: l7)
      then show ?thesis by (simp add: stripExportDefault_def Let_def d6 tw dw)
    next
      case nd: False
      then show ?thesis by (simp add: stripExportDefault_def Let_def d6 tw dw)
    qed
    then show ?thesis using False kt
      by (simp add: exportRemainder_def stripExport_remainder d6 dw)
  qed
  then show ?thesis by (simp add: t_def)
qed

lemma stripShadowLine_framed:
  assumes fr: "exportFrame lead gap rest trail"
    and nd: "DOLLAR \<notin> set (exportRemainder rest)"
  shows "stripShadowLine (lead @ js ''export'' @ gap @ rest @ trail)
           = lead @ exportRemainder rest @ trail"
proof -
  let ?t = "js ''export'' @ gap @ rest"
  let ?line = "lead @ ?t @ trail"
  from fr have sp: "list_all isSpace lead" "list_all isSpace trail"
    and g: "gap \<noteq> []" "hd gap = 32" and r: "rest \<noteq> []" "\<not> isSpace (last rest)"
    by (simp_all add: exportFrame_def)
  have ne: "?t \<noteq> []" and hd: "\<not> isSpace (hd ?t)" by (simp_all add: js_def isSpace_def)
  have lst: "\<not> isSpace (last ?t)" using r by simp
  have tr: "trim (lead @ js ''export'' @ gap @ rest @ trail) = ?t"
    using trim_framed(1)[OF sp ne hd lst] by simp
  have ex: "startsWith ?t (js ''export '')"
    using g by (cases gap) (auto simp: startsWith_def js_def)
  have noimp: "\<not> startsWith ?t (js ''import '')" by (simp add: startsWith_def js_def)
  have wsp: "\<forall>c \<in> set lead. isSpace c" using sp(1) by (simp add: list_all_iff)
  have ff: "findFirst ?t (lead @ js ''export'' @ gap @ rest @ trail) = Some (length lead)"
    using findFirst_after_spaces[OF wsp ne hd, of trail] by simp
  have st: "stripExport (stripExportDefault ?t) = exportRemainder rest"
    by (rule stripped_framed[OF fr])
  have gs: "\<And>m b a. getSubstitution m b a (exportRemainder rest) = exportRemainder rest"
    using nd by (rule getSubstitution_literal)
  have "stripShadowLine (lead @ js ''export'' @ gap @ rest @ trail)
      = replaceFirst (lead @ js ''export'' @ gap @ rest @ trail) ?t (exportRemainder rest)"
    using ex noimp by (simp add: stripShadowLine_def exportRule_def Let_def tr st)
  also have "\<dots> = lead @ exportRemainder rest @ trail"
    by (simp add: replaceFirst_def stringIndexOf_def ff gs)
  finally show ?thesis .
qed


lemma exportRemainder_suffix: "suffix (exportRemainder rest) rest"
  by (auto simp: exportRemainder_def Let_def
      intro: suffix_order.trans[OF suffix_dropWhile] suffix_order.trans[OF suffix_drop] suffix_drop)

lemma exportRemainder_plain:
  "\<not> keywordThenSpace (js ''default'') rest \<Longrightarrow> exportRemainder rest = rest"
  by (simp add: exportRemainder_def)

lemma keywordThenSpace_append:
  "gap \<noteq> [] \<Longrightarrow> list_all isSpace gap \<Longrightarrow> keywordThenSpace word (word @ gap @ r)"
  by (cases gap) (auto simp: keywordThenSpace_def)

lemma exportRemainder_default:
  assumes "gap2 \<noteq> []" "list_all isSpace gap2" "rest2 \<noteq> []" "\<not> isSpace (hd rest2)"
  shows "exportRemainder (js ''default'' @ gap2 @ rest2)
           = (if keywordThenSpace (js ''export'') rest2 then dropWhile isSpace (drop 6 rest2) else rest2)"
proof -
  have "dropWhile isSpace (drop 7 (js ''default'' @ gap2 @ rest2)) = rest2"
    using dropWhile_spaces_then[OF assms(2,3,4)] by (simp add: js_def)
  then show ?thesis
    using keywordThenSpace_append[OF assms(1,2), of "js ''default''" rest2]
    by (simp add: exportRemainder_def Let_def)
qed

text \<open>
  C9 as stated: the shadow-stripping step removes every import statement and every export
  statement outright, so that none remains in the sanitized output.  The step recognises
  an import by the text \<^verbatim>\<open>import\<close> followed by a space at the start of the trimmed line, and
  of an export line it removes the keyword only.  In the two-line input below the import
  has no space after the keyword and passes untouched, and the export statement keeps
  its declaration; the later steps of the sanitizer change nothing either.
\<close>

theorem import_without_space_and_export_kept:
  "stripShadows (js ''import{a}from'' @ [39] @ js ''b'' @ [39] @ [10] @ js ''export const x = 1'')
     = js ''import{a}from'' @ [39] @ js ''b'' @ [39] @ [10] @ js ''const x = 1''
   \<and> sanitizeSimulationCode (js ''import{a}from'' @ [39] @ js ''b'' @ [39] @ [10] @ js ''export const x = 1'')
     = js ''import{a}from'' @ [39] @ js ''b'' @ [39] @ [10] @ js ''const x = 1''"
  by code_simp

text \<open>
  C9, amended: the shadow-stripping step works line by line (the lines of the input are
  rewritten one by one and joined again with newlines).  A line whose trimmed text starts
  with \<^verbatim>\<open>import\<close> and a space becomes the empty line.  A line whose trimmed text starts with
  \<^verbatim>\<open>export\<close> and a space keeps its statement and loses the keyword: the leading \<^verbatim>\<open>export\<close>
  with the white space after it; if \<^verbatim>\<open>default\<close> and white space come next, these as well;
  and if after \<^verbatim>\<open>export default\<close> the text goes on with \<^verbatim>\<open>export\<close> and white space, these
  too.  For a statement without a dollar sign the new line is the old line's leading
  white space, what is left of the statement, and the old line's trailing white space.
\<close>

theorem import_lines_blanked_export_keyword_stripped:
  "(lines \<noteq> [] \<and> (\<forall>l \<in> set lines. 10 \<notin> set l) \<longrightarrow>
      stripShadows (joinWith [10] lines) = joinWith [10] (map stripShadowLine lines))
   \<and> (startsWith (trim importLine) (js ''import '') \<longrightarrow> stripShadowLine importLine = [])
   \<and> (exportFrame lead gap rest trail \<and> DOLLAR \<notin> set rest \<longrightarrow>
        (\<not> keywordThenSpace (js ''default'') rest \<longrightarrow>
           stripShadowLine (lead @ js ''export'' @ gap @ rest @ trail) = lead @ rest @ trail)
        \<and> (\<forall>gap2 rest2.
              rest = js ''default'' @ gap2 @ rest2 \<and> gap2 \<noteq> [] \<and> list_all isSpace gap2
              \<and> \<not> isSpace (hd rest2) \<and> \<not> keywordThenSpace (js ''export'') rest2 \<longrightarrow>
              stripShadowLine (lead @ js ''export'' @ gap @ rest @ trail) = lead @ rest2 @ trail)
        \<and> (\<forall>gap2 gap3 rest3.
              rest = js ''default'' @ gap2 @ js ''export'' @ gap3 @ rest3
              \<and> gap2 \<noteq> [] \<and> list_all isSpace gap2 \<and> gap3 \<noteq> [] \<and> list_all isSpace gap3
              \<and> \<not> isSpace (hd rest3) \<longrightarrow>
              stripShadowLine (lead @ js ''export'' @ gap @ rest @ trail) = lead @ rest3 @ trail))"
proof (intro conjI impI allI)
  assume "lines \<noteq> [] \<and> (\<forall>l \<in> set lines. 10 \<notin> set l)"
  then show "stripShadows (joinWith [10] lines) = joinWith [10] (map stripShadowLine lines)"
    by (simp add: stripShadows_def splitOn_joinWith)
next
  assume "startsWith (trim importLine) (js ''import '')"
  then show "stripShadowLine importLine = []"
    by (simp add: stripShadowLine_def Let_def)
next
  assume a: "exportFrame lead gap rest trail \<and> DOLLAR \<notin> set rest"
  then have fr: "exportFrame lead gap rest trail" and last: "\<not> isSpace (last rest)"
    by (simp_all add: exportFrame_def)
  have "set (exportRemainder rest) \<subseteq> set rest"
    using exportRemainder_suffix by (rule set_mono_suffix)
  with a have "DOLLAR \<notin> set (exportRemainder rest)" by blast
  from stripShadowLine_framed[OF fr this]
  have res: "stripShadowLine (lead @ js ''export'' @ gap @ rest @ trail)
      = lead @ exportRemainder rest @ trail" .
  {
    assume "\<not> keywordThenSpace (js ''default'') rest"
    then have "exportRemainder rest = rest" by (rule exportRemainder_plain)
    then show "stripShadowLine (lead @ js ''export'' @ gap @ rest @ trail) = lead @ rest @ trail"
      by (simp only: res)
  next
    fix gap2 rest2
    assume b: "rest = js ''default'' @ gap2 @ rest2 \<and> gap2 \<noteq> [] \<and> list_all isSpace gap2
        \<and> \<not> isSpace (hd rest2) \<and> \<not> keywordThenSpace (js ''export'') rest2"
    have "rest2 \<noteq> []"
    proof
      assume "rest2 = []"
      with b have "last rest = last gap2" "last gap2 \<in> set gap2" by simp_all
      with b last show False by (simp add: list_all_iff)
    qed
    with b have "exportRemainder rest = rest2"
      by (simp add: exportRemainder_default)
    then show "stripShadowLine (lead @ js ''export'' @ gap @ rest @ trail) = lead @ rest2 @ trail"
      by (simp only: res)
  next
    fix gap2 gap3 rest3
    assume c: "rest = js ''default'' @ gap2 @ js ''export'' @ gap3 @ rest3
        \<and> gap2 \<noteq> [] \<and> list_all isSpace gap2 \<and> gap3 \<noteq> [] \<and> list_all isSpace gap3
        \<and> \<not> isSpace (hd rest3)"
    have r3: "rest3 \<noteq> []"
    proof
      assume "rest3 = []"
      with c have "last rest = last gap3" "last gap3 \<in> set gap3" by simp_all
      with c last show False by (simp add: list_all_iff)
    qed
    have e: "exportRemainder rest
        = (if keywordThenSpace (js ''export'') (js ''export'' @ gap3 @ rest3)
           then dropWhile isSpace (drop 6 (js ''export'' @ gap3 @ rest3))
           else js ''export'' @ gap3 @ rest3)"
      using c exportRemainder_default[of gap2 "js ''export'' @ gap3 @ rest3"]
      by (simp add: js_def isSpace_def)
    have k: "keywordThenSpace (js ''export'') (js ''export'' @ gap3 @ rest3)"
      using c keywordThenSpace_append by blast
    have d: "dropWhile isSpace (drop 6 (js ''export'' @ gap3 @ rest3)) = rest3"
      using dropWhile_spaces_then[of isSpace gap3 rest3] c r3 by (simp add: js_def)
    show "stripShadowLine (lead @ js ''export'' @ gap @ rest @ trail) = lead @ rest3 @ trail"
      by (simp only: res e k d if_True)
  }
qed

theorem import_lines_blanked_export_keyword_stripped_witness:
  "stripShadows (joinWith [10] [js ''import a from b'', js ''  export const x = 1; ''])
     = joinWith [10] [[], js ''  const x = 1; '']
   \<and> stripShadowLine (js ''import a from b'') = []
   \<and> stripShadowLine (js ''  export const x = 1; '') = js ''  const x = 1; ''
   \<and> stripShadowLine (js ''export default function f() {'') = js ''function f() {''
   \<and> stripShadowLine (js ''export  default  export x'') = js ''x''"
proof -
  let ?i = "js ''import a from b''"
  let ?e = "js ''  export const x = 1; ''"
  have h1: "[?i, ?e] \<noteq> [] \<and> (\<forall>l \<in> set [?i, ?e]. 10 \<notin> set l)" by code_simp
  have h2: "startsWith (trim ?i) (js ''import '')" by code_simp
  have f1: "exportFrame (js ''  '') (js '' '') (js ''const x = 1;'') (js '' '')
      \<and> DOLLAR \<notin> set (js ''const x = 1;'')" by code_simp
  have n1: "\<not> keywordThenSpace (js ''default'') (js ''const x = 1;'')" by code_simp
  have e1: "js ''  '' @ js ''export'' @ js '' '' @ js ''const x = 1;'' @ js '' '' = ?e"
    by (simp add: js_def)
  have o1: "js ''  '' @ js ''const x = 1;'' @ js '' '' = js ''  const x = 1; ''"
    by (simp add: js_def)
  from import_lines_blanked_export_keyword_stripped
         [of "[?i, ?e]" ?i "js ''  ''" "js '' ''" "js ''const x = 1;''" "js '' ''"] h1 h2 f1 n1
  have c1: "stripShadows (joinWith [10] [?i, ?e]) = joinWith [10] (map stripShadowLine [?i, ?e])"
    and c2: "stripShadowLine ?i = []"
    and c3: "stripShadowLine (js ''  '' @ js ''export'' @ js '' '' @ js ''const x = 1;'' @ js '' '')
               = js ''  '' @ js ''const x = 1;'' @ js '' ''"
    by blast+
  from c3 have r3: "stripShadowLine ?e = js ''  const x = 1; ''" by (simp only: e1 o1)
  from c1 c2 r3 have r1: "stripShadows (joinWith [10] [?i, ?e]) = joinWith [10] [[], js ''  const x = 1; '']"
    by simp
  have f2: "exportFrame [] (js '' '') (js ''default function f() {'') []
      \<and> DOLLAR \<notin> set (js ''default function f() {'')" by code_simp
  have s2: "js ''default function f() {'' = js ''default'' @ js '' '' @ js ''function f() {''
      \<and> js '' '' \<noteq> [] \<and> list_all isSpace (js '' '') \<and> \<not> isSpace (hd (js ''function f() {''))
      \<and> \<not> keywordThenSpace (js ''export'') (js ''function f() {'')" by code_simp
  have e2: "js ''export'' @ js '' '' @ js ''default function f() {'' = js ''export default function f() {''"
    by (simp add: js_def)
  from import_lines_blanked_export_keyword_stripped
         [of "[?i, ?e]" ?i "[]" "js '' ''" "js ''default function f() {''" "[]"] f2 s2
  have "stripShadowLine ([] @ js ''export'' @ js '' '' @ js ''default function f() {'' @ [])
          = [] @ js ''function f() {'' @ []"
    by blast
  then have r4: "stripShadowLine (js ''export default function f() {'') = js ''function f() {''"
    by (simp only: e2 append_Nil append_Nil2)
  have f3: "exportFrame [] (js ''  '') (js ''default  export x'') []
      \<and> DOLLAR \<notin> set (js ''default  export x'')" by code_simp
  have s3: "js ''default  export x'' = js ''default'' @ js ''  '' @ js ''export'' @ js '' '' @ js ''x''
      \<and> js ''  '' \<noteq> [] \<and> list_all isSpace (js ''  '') \<and> js '' '' \<noteq> [] \<and> list_all isSpace (js '' '')
      \<and> \<not> isSpace (hd (js ''x''))" by code_simp
  have e3: "js ''export'' @ js ''  '' @ js ''default  export x'' = js ''export  default  export x''"
    by (simp add: js_def)
  from import_lines_blanked_export_keyword_stripped
         [of "[?i, ?e]" ?i "[]" "js ''  ''" "js ''default  export x''" "[]"] f3 s3
  have "stripShadowLine ([] @ js ''export'' @ js ''  '' @ js ''default  export x'' @ [])
          = [] @ js ''x'' @ []"
    by blast
  then have r5: "stripShadowLine (js ''export  default  export x'') = js ''x''"
    by (simp only: e3 append_Nil append_Nil2)
  from r1 c2 r3 r4 r5 show ?thesis by blast
qed

section \<open>Hoisting of hook calls out of nested blocks\<close>

text \<open>
  C6 as stated: for the input \<^verbatim>\<open>if (x) { const g = useMemo(() => 1, []); }\<close> the hoister's
  output begins with the hoisted statement followed by the now-empty conditional.  The hoister
  searches the text for \<^verbatim>\<open>React.<hook>(\<close> only, so the bare call \<^verbatim>\<open>useMemo(\<close> of that input is
  never found: the input comes back unchanged and still starts with \<^verbatim>\<open>if (x)\<close>.
\<close>

theorem hoister_ignores_bare_hook_call:
  "hoistConditionalHooks (js ''if (x) { const g = useMemo(() => 1, []); }'')
     = js ''if (x) { const g = useMemo(() => 1, []); }''
   \<and> \<not> startsWith (hoistConditionalHooks (js ''if (x) { const g = useMemo(() => 1, []); }''))
         (js ''const g = useMemo(() => 1, []);'')"
  by code_simp

text \<open>
  C6, amended: for the input \<^verbatim>\<open>if (x) { const g = React.useMemo(() => 1, []); }\<close>, where the hook
  is called through the \<^verbatim>\<open>React\<close> namespace, the hoister's output is the statement
  \<^verbatim>\<open>const g = React.useMemo(() => 1, []);\<close>, a blank line, and the now-empty conditional
  \<^verbatim>\<open>if (x) { }\<close>; hoisting that output again returns it unchanged.
\<close>

theorem hoister_moves_React_hook_call:
  "hoistConditionalHooks (js ''if (x) { const g = React.useMemo(() => 1, []); }'')
     = js ''const g = React.useMemo(() => 1, []);'' @ [10, 10] @ js ''if (x) { }''
   \<and> hoistConditionalHooks (js ''const g = React.useMemo(() => 1, []);'' @ [10, 10] @ js ''if (x) { }'')
     = js ''const g = React.useMemo(() => 1, []);'' @ [10, 10] @ js ''if (x) { }''"
  by code_simp

subsection \<open>Idempotence\<close>

lemma includesStr_iff: "includesStr s pat \<longleftrightarrow> (\<exists>a b. s = a @ pat @ b)"
proof
  assume "includesStr s pat"
  then obtain i where "findFirst pat s = Some i" by (auto simp: includesStr_def)
  from findFirst_Some_prefix[OF this] obtain r where "drop i s = pat @ r"
    by (auto simp: prefix_def)
  then have "s = take i s @ pat @ r" by (metis append_take_drop_id)
  then show "\<exists>a b. s = a @ pat @ b" by blast
next
  assume "\<exists>a b. s = a @ pat @ b"
  then show "includesStr s pat" using includesStr_infix by auto
qed































section \<open>Properties of the static validator\<close>

subsection \<open>The traversal fills the tables of the tree of scopes\<close>

lemma flattenAll_append:
  "flattenAll chain i (xs @ ys) =
     flattenAll chain i xs @ flattenAll chain (i + length (flattenAll chain i xs)) ys"
  by (induction xs arbitrary: i) (simp_all add: add.assoc)

lemma addDecls_simps [simp]:
  "addDecls [] s = s"
  "addDecls (ds @ ds') s = addDecls ds' (addDecls ds s)"
  "parentChain (addDecls ds s) = parentChain s"
  "functionParams (addDecls ds s) = functionParams s"
  "usages (addDecls ds s) = usages s"
  by (simp_all add: addDecls_def)

lemma addUses_simps [simp]:
  "addUses [] s = s"
  "addUses (us @ us') s = addUses us' (addUses us s)"
  "parentChain (addUses us s) = parentChain s"
  "functionParams (addUses us s) = functionParams s"
  "declarations (addUses us s) = declarations s"
  by (simp_all add: addUses_def)

lemma addDecls_addUses: "addDecls ds (addUses us s) = addUses us (addDecls ds s)"
  by (simp add: addDecls_def addUses_def)

lemma grown_nothing [simp]: "c < length S \<Longrightarrow> grown c [] [] [] S = S"
  by (simp add: grown_def)

lemma length_grown: "length (grown c ds us ss S) = length S + length (flattenAll (c # parentChain (S ! c)) (length S) ss)"
  by (simp add: grown_def)

lemma grown_grown:
  assumes "c < length S"
  shows "grown c ds' us' ss' (grown c ds us ss S) = grown c (ds @ ds') (us @ us') (ss @ ss') S"
proof -
  let ?A = "flattenAll (c # parentChain (S ! c)) (length S) ss"
  let ?S1 = "S[c := addUses us (addDecls ds (S ! c))]"
  have nth: "(?S1 @ ?A) ! c = addUses us (addDecls ds (S ! c))"
    using assms by (simp add: nth_append)
  have upd: "(?S1 @ ?A)[c := x] = S[c := x] @ ?A" for x
    using assms by (simp add: list_update_append)
  show ?thesis
    unfolding grown_def
    by (simp add: nth upd flattenAll_append addDecls_addUses del: addDecls_simps(2) addUses_simps(2))
       (simp add: addDecls_addUses)
qed

lemma allScopes_recordUsage:
  "allScopes (recordUsage c name line t) = (allScopes t)[c := addUses [(name, line)] (allScopes t ! c)]"
  by (simp add: recordUsage_def Let_def addUses_def addUse_def)

lemma allScopes_declareName:
  "allScopes (declareName c name line t) = (allScopes t)[c := addDecls [(name, line)] (allScopes t ! c)]"
  by (simp add: declareName_def addDecls_def)

lemma allScopes_pushScope:
  "allScopes (pushScope c names t) = allScopes t @ [freshScope names (c # parentChain (allScopes t ! c))]"
  by (simp add: pushScope_def freshScope_def)

lemma allScopes_foldl_declare:
  "c < length (allScopes t) \<Longrightarrow>
   allScopes (foldl (\<lambda>st name. declareName c name line st) t names)
     = (allScopes t)[c := addDecls (map (\<lambda>name. (name, line)) names) (allScopes t ! c)]"
proof (induction names arbitrary: t)
  case Nil
  then show ?case by simp
next
  case (Cons name names)
  have l: "c < length (allScopes (declareName c name line t))"
    using Cons.prems by (simp add: allScopes_declareName)
  show ?case
    using Cons.prems
    by (simp add: Cons.IH[OF l] allScopes_declareName del: addDecls_simps(2))
       (simp add: addDecls_def)
qed

lemma allScopes_visitDeclarator:
  "c < length (allScopes t) \<Longrightarrow>
   allScopes (visitDeclarator c ident init line t)
     = (allScopes t)[c := addDecls (map (\<lambda>name. (name, line)) (declaredNames ident)) (allScopes t ! c)]"
  by (auto simp: visitDeclarator_def Let_def allScopes_foldl_declare allScopes_declareName
      split: pattern.splits)

lemma allScopes_visitMember: "allScopes (visitMember obj prop line t) = allScopes t"
  by (auto simp: visitMember_def split: option.splits)

lemma grown_decls: "grown c ds [] [] S = S[c := addDecls ds (S ! c)]"
  by (simp add: grown_def)

lemma grown_uses: "grown c [] us [] S = S[c := addUses us (S ! c)]"
  by (simp add: grown_def)

lemma grown_opened:
  assumes "c < length S"
  shows "grown (length S) ds us ss (S @ [freshScope ps (c # parentChain (S ! c))])
           = grown c [] [] [Scope ps ds us ss] S"
  using assms by (simp add: grown_def tableOf_def freshScope_def)

lemma grown_after_update:
  assumes "c < length S"
  shows "grown c ds us ss (S[c := addDecls ds0 (S ! c)]) = grown c (ds0 @ ds) us ss S"
proof -
  have "S[c := addDecls ds0 (S ! c)] = grown c ds0 [] [] S" by (simp add: grown_decls)
  then show ?thesis using grown_grown[OF assms, of ds us ss ds0 "[]" "[]"] by simp
qed

lemma visit_grown:
  "c < length (allScopes t) \<Longrightarrow>
     allScopes (visit c p n t) = grown c (declsIn p n) (usesIn p n) (scopesIn p n) (allScopes t)"
  and visitAll_grown:
  "c < length (allScopes t) \<Longrightarrow>
     allScopes (visitAll c p ns t)
       = grown c (declsInAll p ns) (usesInAll p ns) (scopesInAll p ns) (allScopes t)"
proof (induction c p n t and c p ns t rule: visit_visitAll.induct)
  case (1 c parent ident line fparams children t)
  define t1 where "t1 = (case ident of None \<Rightarrow> t | Some name \<Rightarrow> declareName c name line t)"
  define t2 where "t2 = pushScope c (concat (map extractParamNames fparams)) t1"
  let ?S = "allScopes t"
  let ?ds = "case ident of None \<Rightarrow> [] | Some name \<Rightarrow> [(name, line)]"
  have S1: "allScopes t1 = grown c ?ds [] [] ?S"
    using "1.prems" by (cases ident) (simp_all add: t1_def allScopes_declareName grown_decls)
  have len1: "length (allScopes t1) = length ?S" by (simp add: S1 length_grown)
  then have c1: "c < length (allScopes t1)" using "1.prems" by simp
  have S2: "allScopes t2 = allScopes t1
      @ [freshScope (concat (map extractParamNames fparams)) (c # parentChain (allScopes t1 ! c))]"
    by (simp add: t2_def allScopes_pushScope)
  have lt: "length (allScopes t1) < length (allScopes t2)" by (simp add: S2)
  have "allScopes (visit c parent (FunctionDeclaration ident line fparams children) t)
      = allScopes (visitAll (length (allScopes t1)) ParentFunction children t2)"
    by (simp add: t1_def t2_def Let_def)
  also have "\<dots> = grown (length (allScopes t1)) (declsInAll ParentFunction children)
      (usesInAll ParentFunction children) (scopesInAll ParentFunction children) (allScopes t2)"
    using "1.IH"[OF t1_def t2_def lt] .
  also have "\<dots> = grown c [] [] (scopesIn parent (FunctionDeclaration ident line fparams children))
      (allScopes t1)"
    unfolding S2 using grown_opened[OF c1] by simp
  also have "\<dots> = grown c ?ds [] (scopesIn parent (FunctionDeclaration ident line fparams children)) ?S"
    unfolding S1 using grown_grown[OF "1.prems", of "[]" "[]" _ ?ds "[]" "[]"] by simp
  finally show ?case by (cases ident) simp_all
next
  case (2 c parent fparams children t)
  let ?t2 = "pushScope c (concat (map extractParamNames fparams)) t"
  have lt: "length (allScopes t) < length (allScopes ?t2)" by (simp add: allScopes_pushScope)
  show ?case
    using "2.IH"[OF lt] grown_opened[OF "2.prems"]
    by (simp add: allScopes_pushScope)
next
  case (3 c parent children t)
  show ?case
  proof (cases parent)
    case ParentFunction
    then show ?thesis using "3.IH"(1)[OF ParentFunction "3.prems"] by simp
  next
    case (ParentCatch param)
    let ?t2 = "pushScope c (case param of None \<Rightarrow> [] | Some x \<Rightarrow> extractParamNames x) t"
    have lt: "length (allScopes t) < length (allScopes ?t2)" by (simp add: allScopes_pushScope)
    show ?thesis
      using "3.IH"(2)[OF ParentCatch lt] grown_opened[OF "3.prems"] ParentCatch
      by (simp add: allScopes_pushScope)
  next
    case ParentOther
    let ?t2 = "pushScope c [] t"
    have lt: "length (allScopes t) < length (allScopes ?t2)" by (simp add: allScopes_pushScope)
    show ?thesis
      using "3.IH"(3)[OF ParentOther lt] grown_opened[OF "3.prems"] ParentOther
      by (simp add: allScopes_pushScope)
  qed
next
  case (4 c parent param children t)
  then show ?case by simp
next
  case (5 c parent ident init line children t)
  have l: "c < length (allScopes (visitDeclarator c ident init line t))"
    using "5.prems" by (simp add: allScopes_visitDeclarator)
  show ?case
    using "5.IH"[OF l] "5.prems"
    by (simp add: allScopes_visitDeclarator grown_after_update)
next
  case (6 c parent obj member line children t)
  then show ?case by (simp add: allScopes_visitMember)
next
  case (7 c parent name line role t)
  then show ?case by (simp add: allScopes_recordUsage grown_uses)
next
  case (8 c parent children t)
  then show ?case by simp
next
  case (9 c parent t)
  then show ?case by simp
next
  case (10 c parent n ns t)
  have l: "c < length (allScopes (visit c parent n t))"
    using "10.IH"(1)[OF "10.prems"] "10.prems" by (simp add: length_grown)
  show ?case
    using "10.IH"(2)[OF l] "10.IH"(1)[OF "10.prems"] grown_grown[OF "10.prems"]
    by simp
qed

lemma traverse_tables: "allScopes (traverse ast) = flatten [] 0 (programScope ast)"
proof -
  have "allScopes (traverse ast)
      = grown 0 (declsIn ParentOther ast) (usesIn ParentOther ast) (scopesIn ParentOther ast) [globalScope]"
    unfolding traverse_def by (subst visit_grown) simp_all
  then show ?thesis
    by (simp add: grown_def programScope_def tableOf_def freshScope_def globalScope_def)
qed

lemma map_of_foldl_mapSet:
  "map_of (foldl (\<lambda>m d. mapSet m (fst d) (snd d)) m0 ds) = map_of m0 ++ map_of (rev ds)"
proof (induction ds arbitrary: m0)
  case Nil
  then show ?case by simp
next
  case (Cons d ds)
  show ?case
    by (simp add: Cons map_of_mapSet) (auto simp: map_add_def fun_eq_iff split: option.splits)
qed

lemma declarations_tableOf:
  "map_of (declarations (tableOf chain s)) name = lastDeclared (declared s) name"
  by (simp add: tableOf_def addDecls_def freshScope_def map_of_foldl_mapSet lastDeclared_def)

lemma usedNames_snoc:
  "usedNames (us @ [u]) = (if fst u \<in> fst ` set us then usedNames us else usedNames us @ [fst u])"
  by (simp add: usedNames_def)

lemma set_usedNames [simp]: "set (usedNames us) = fst ` set us"
  by (simp add: usedNames_def)

lemma distinct_usedNames [simp]: "distinct (usedNames us)"
  by (simp add: usedNames_def)

lemma linesOf_snoc:
  "linesOf (us @ [u]) name = linesOf us name @ (if fst u = name then [snd u] else [])"
  by (simp add: linesOf_def)

lemma linesOf_empty: "linesOf us name = [] \<longleftrightarrow> name \<notin> fst ` set us"
  by (induction us) (auto simp: linesOf_def)

lemma mapSet_tabulated:
  assumes "distinct ks"
  shows "mapSet (map (\<lambda>n. (n, f n)) ks) k v =
     (if k \<in> set ks then map (\<lambda>n. (n, if n = k then v else f n)) ks
      else map (\<lambda>n. (n, f n)) ks @ [(k, v)])"
  using assms by (induction ks) auto

lemma map_of_tabulated: "map_of (map (\<lambda>n. (n, f n)) ks) k = (if k \<in> set ks then Some (f k) else None)"
  by (induction ks) auto

lemma usageTable:
  "foldl addUse [] us = map (\<lambda>name. (name, linesOf us name)) (usedNames us)"
proof (induction us rule: rev_induct)
  case Nil
  then show ?case by (simp add: usedNames_def)
next
  case (snoc u us)
  obtain k l where u: "u = (k, l)" by (cases u)
  let ?tab = "map (\<lambda>name. (name, linesOf us name)) (usedNames us)"
  have step: "foldl addUse [] (us @ [u]) = addUse ?tab (k, l)"
    by (simp add: snoc u)
  show ?case
  proof (cases "k \<in> fst ` set us")
    case True
    then have "addUse ?tab (k, l)
        = map (\<lambda>name. (name, linesOf (us @ [u]) name)) (usedNames (us @ [u]))"
      by (auto simp: addUse_def mapSet_tabulated map_of_tabulated usedNames_snoc linesOf_snoc u)
    then show ?thesis by (simp only: step)
  next
    case False
    then have e: "linesOf us k = []" by (simp add: linesOf_empty)
    have "\<forall>name \<in> fst ` set us. name \<noteq> k" using False by blast
    then have "addUse ?tab (k, l)
        = map (\<lambda>name. (name, linesOf (us @ [u]) name)) (usedNames (us @ [u]))"
      using False e
      by (auto simp: addUse_def mapSet_tabulated map_of_tabulated usedNames_snoc linesOf_snoc u)
    then show ?thesis by (simp only: step)
  qed
qed

lemma usages_tableOf:
  "usages (tableOf chain s) = map (\<lambda>name. (name, linesOf (used s) name)) (usedNames (used s))"
  by (simp add: tableOf_def addUses_def addDecls_def freshScope_def usageTable)

lemma functionParams_tableOf [simp]: "functionParams (tableOf chain s) = params s"
  by (simp add: tableOf_def freshScope_def)

lemma parentChain_tableOf [simp]: "parentChain (tableOf chain s) = chain"
  by (simp add: tableOf_def freshScope_def)

lemma usageErrors_cases:
  "usageErrors scopes i (k, ls) =
     (if k \<notin> set KNOWN_GLOBALS \<and> resolve scopes i k = NotDeclared
      then [undefinedError k (firstOf ls)] else [])"
  by (auto simp: usageErrors_def checkUsage_def split: resolution.splits list.splits)

lemma usageWarnings_cases:
  "usageWarnings scopes i (k, ls) =
     (if k \<in> set KNOWN_GLOBALS then []
      else case resolve scopes i k of
             DeclaredAt d j \<Rightarrow>
               (if j = i then (case filter (\<lambda>l. l < d) ls of [] \<Rightarrow> [] | e # _ \<Rightarrow> [tdzWarning e k d])
                else [])
           | _ \<Rightarrow> [])"
proof -
  have "d = 0 \<Longrightarrow> filter (\<lambda>l. l < d) ls = []" for d :: nat by simp
  then show ?thesis
    by (auto simp: usageWarnings_def checkUsage_def split: resolution.splits list.splits)
qed

lemma resolveIn_index: "resolveIn T chain name = DeclaredAt d j \<Longrightarrow> j \<in> set chain"
  by (induction chain) (auto split: option.splits if_splits)

lemma resolve_tableOf:
  assumes "T ! i = tableOf chain s"
  shows "resolve T i name =
     (case lastDeclared (declared s) name of
        Some d \<Rightarrow> DeclaredAt d i
      | None \<Rightarrow> if name \<in> set (params s) then DeclaredAsParam else resolveIn T chain name)"
  by (simp add: resolve_def assms declarations_tableOf)

lemma lastDeclared_None: "lastDeclared ds name = None \<longleftrightarrow> name \<notin> fst ` set ds"
  by (simp add: lastDeclared_def map_of_eq_None_iff)

lemma concat_map_if: "concat (map (\<lambda>x. if Q x then [g x] else []) xs) = map g (filter Q xs)"
  by (induction xs) auto

lemma concat_map_unless:
  "concat (map (\<lambda>x. if Q x then [] else f x) xs) = concat (map f (filter (\<lambda>x. \<not> Q x) xs))"
  by (induction xs) auto

lemma firstOf_hd: "ls \<noteq> [] \<Longrightarrow> firstOf ls = hd ls"
  by (cases ls) (simp_all add: firstOf_def)

lemma errorsAt_tableOf:
  assumes own: "T ! i = tableOf chain (Scope ps ds us ss)"
    and vis: "\<And>name. resolveIn T chain name = NotDeclared \<longleftrightarrow> name \<notin> visible"
  shows "errorsAt T i =
     map (\<lambda>name. undefinedError name (hd (linesOf us name)))
       (filter (\<lambda>name. name \<notin> set KNOWN_GLOBALS \<and> name \<notin> visible \<union> set ps \<union> fst ` set ds)
          (usedNames us))"
proof -
  have res: "resolve T i name = NotDeclared \<longleftrightarrow> name \<notin> visible \<union> set ps \<union> fst ` set ds" for name
    using vis[of name] lastDeclared_None[of ds name]
    by (auto simp: resolve_tableOf[OF own] split: option.splits)
  have "errorsAt T i = concat (map (\<lambda>name. usageErrors T i (name, linesOf us name)) (usedNames us))"
    by (simp add: errorsAt_def own usages_tableOf comp_def)
  also have "\<dots> = map (\<lambda>name. undefinedError name (firstOf (linesOf us name)))
       (filter (\<lambda>name. name \<notin> set KNOWN_GLOBALS \<and> name \<notin> visible \<union> set ps \<union> fst ` set ds)
          (usedNames us))"
    by (simp add: usageErrors_cases res concat_map_if)
  also have "\<dots> = map (\<lambda>name. undefinedError name (hd (linesOf us name)))
       (filter (\<lambda>name. name \<notin> set KNOWN_GLOBALS \<and> name \<notin> visible \<union> set ps \<union> fst ` set ds)
          (usedNames us))"
    by (rule map_cong) (auto simp: firstOf_hd linesOf_empty)
  finally show ?thesis .
qed

lemma warningsAt_tableOf:
  assumes own: "T ! i = tableOf chain (Scope ps ds us ss)"
    and below: "i \<notin> set chain"
  shows "warningsAt T i =
     concat (map (\<lambda>name. case lastDeclared ds name of
                            None \<Rightarrow> []
                          | Some declarationLine \<Rightarrow>
                              (case earlyUsages (Scope ps ds us ss) name of
                                 [] \<Rightarrow> []
                               | l # _ \<Rightarrow> [tdzWarning l name declarationLine]))
               (filter (\<lambda>name. name \<notin> set KNOWN_GLOBALS) (usedNames us)))"
proof -
  have w: "usageWarnings T i (name, linesOf us name) =
      (if name \<in> set KNOWN_GLOBALS then []
       else case lastDeclared ds name of
              None \<Rightarrow> []
            | Some declarationLine \<Rightarrow>
                (case earlyUsages (Scope ps ds us ss) name of
                   [] \<Rightarrow> []
                 | l # _ \<Rightarrow> [tdzWarning l name declarationLine]))" for name
  proof (cases "lastDeclared ds name")
    case None
    have "resolveIn T chain name \<noteq> DeclaredAt d i" for d
      using resolveIn_index below by blast
    then show ?thesis
      using None
      by (auto simp: usageWarnings_cases resolve_tableOf[OF own] split: resolution.splits)
  next
    case (Some d)
    then show ?thesis
      by (simp add: usageWarnings_cases resolve_tableOf[OF own] earlyUsages_def)
  qed
  have "warningsAt T i = concat (map (\<lambda>name. usageWarnings T i (name, linesOf us name)) (usedNames us))"
    by (simp add: warningsAt_def own usages_tableOf comp_def)
  also have "\<dots> = concat (map (\<lambda>name. case lastDeclared ds name of
                            None \<Rightarrow> []
                          | Some declarationLine \<Rightarrow>
                              (case earlyUsages (Scope ps ds us ss) name of
                                 [] \<Rightarrow> []
                               | l # _ \<Rightarrow> [tdzWarning l name declarationLine]))
               (filter (\<lambda>name. name \<notin> set KNOWN_GLOBALS) (usedNames us)))"
    unfolding w by (rule concat_map_unless)
  finally show ?thesis .
qed

lemma resolveIn_own:
  assumes "T ! i = tableOf chain (Scope ps ds us ss)"
    and "\<And>name. resolveIn T chain name = NotDeclared \<longleftrightarrow> name \<notin> visible"
  shows "resolveIn T (i # chain) name = NotDeclared \<longleftrightarrow> name \<notin> visible \<union> set ps \<union> fst ` set ds"
  using assms(2)[of name] lastDeclared_None[of ds name]
  by (auto simp: assms(1) declarations_tableOf split: option.splits)

lemma upt_first: "[i ..< i + Suc n] = i # [Suc i ..< Suc i + n]"
  by (subst upt_rec) simp

lemma upt_split: "[i ..< i + (a + b)] = [i ..< i + a] @ [i + a ..< i + a + b]"
  by (metis add.assoc le_add1 upt_add_eq_append)

lemma analysis_flatten:
  "T = pre @ flatten chain i s @ post \<Longrightarrow> i = length pre \<Longrightarrow> \<forall>j \<in> set chain. j < i \<Longrightarrow>
   (\<And>name. resolveIn T chain name = NotDeclared \<longleftrightarrow> name \<notin> visible) \<Longrightarrow>
     concat (map (errorsAt T) [i ..< i + length (flatten chain i s)]) = undefinedIn visible s
     \<and> concat (map (warningsAt T) [i ..< i + length (flatten chain i s)]) = tdzWarningsIn s"
  and analysis_flattenAll:
  "T = pre @ flattenAll chain i ss @ post \<Longrightarrow> i = length pre \<Longrightarrow> \<forall>j \<in> set chain. j < i \<Longrightarrow>
   (\<And>name. resolveIn T chain name = NotDeclared \<longleftrightarrow> name \<notin> visible) \<Longrightarrow>
     concat (map (errorsAt T) [i ..< i + length (flattenAll chain i ss)])
       = concat (map (undefinedIn visible) ss)
     \<and> concat (map (warningsAt T) [i ..< i + length (flattenAll chain i ss)])
       = concat (map tdzWarningsIn ss)"
proof (induction chain i s and chain i ss arbitrary: pre post visible and pre post visible
    rule: flatten_flattenAll.induct)
  case (1 chain i ps ds us ss)
  let ?s = "Scope ps ds us ss"
  let ?inner = "flattenAll (i # chain) (Suc i) ss"
  have own: "T ! i = tableOf chain ?s"
    using "1.prems"(1,2) by (simp add: nth_append)
  have notin: "i \<notin> set chain" using "1.prems"(3) by auto
  have T': "T = (pre @ [tableOf chain ?s]) @ ?inner @ post"
    using "1.prems"(1) by simp
  have len': "Suc i = length (pre @ [tableOf chain ?s])" using "1.prems"(2) by simp
  have below': "\<forall>j \<in> set (i # chain). j < Suc i" using "1.prems"(3) by auto
  note ih = "1.IH"[OF T' len' below' resolveIn_own[OF own "1.prems"(4)]]
  have range: "[i ..< i + length (flatten chain i ?s)] = i # [Suc i ..< Suc i + length ?inner]"
    using upt_first[of i "length ?inner"] by simp
  show ?case
    unfolding range
    using ih errorsAt_tableOf[OF own "1.prems"(4)] warningsAt_tableOf[OF own notin]
    by simp
next
  case (2 chain i)
  then show ?case by simp
next
  case (3 chain i s ss)
  let ?a = "flatten chain i s"
  let ?b = "flattenAll chain (i + length ?a) ss"
  have T1: "T = pre @ ?a @ (?b @ post)" using "3.prems"(1) by simp
  have T2: "T = (pre @ ?a) @ ?b @ post" using "3.prems"(1) by simp
  have len2: "i + length ?a = length (pre @ ?a)" using "3.prems"(2) by simp
  have below2: "\<forall>j \<in> set chain. j < i + length ?a" using "3.prems"(3) by auto
  note ih1 = "3.IH"(1)[OF T1 "3.prems"(2,3,4)]
  note ih2 = "3.IH"(3)[OF T2 len2 below2 "3.prems"(4)]
  have range: "[i ..< i + length (flattenAll chain i (s # ss))]
      = [i ..< i + length ?a] @ [i + length ?a ..< i + length ?a + length ?b]"
    using upt_split[of i "length ?a" "length ?b"] by simp
  show ?case unfolding range using ih1 ih2 by simp
qed

lemma analyseScopes_split:
  "foldl (analyseScope scopes) acc is =
     (fst acc @ concat (map (errorsAt scopes) is), snd acc @ concat (map (warningsAt scopes) is))"
proof -
  have one: "analyseScope scopes acc i = (fst acc @ errorsAt scopes i, snd acc @ warningsAt scopes i)" for acc i
  proof -
    have "foldl (\<lambda>a usage. checkUsage scopes i usage a) acc us =
       (fst acc @ concat (map (usageErrors scopes i) us),
        snd acc @ concat (map (usageWarnings scopes i) us))" for us
    proof (induction us arbitrary: acc)
      case Nil
      then show ?case by simp
    next
      case (Cons u us)
      have "checkUsage scopes i u acc = (fst acc @ usageErrors scopes i u, snd acc @ usageWarnings scopes i u)"
        by (cases acc)
           (auto simp: checkUsage_def usageErrors_def usageWarnings_def
             split: resolution.splits list.splits)
      then show ?case by (simp add: Cons)
    qed
    then show ?thesis by (simp add: analyseScope_def errorsAt_def warningsAt_def)
  qed
  show ?thesis by (induction "is" arbitrary: acc) (simp_all add: one)
qed

lemma analyseScopes_program:
  "analyseScopes (allScopes (traverse ast)) ws
     = (undefinedIn {} (programScope ast), ws @ tdzWarningsIn (programScope ast))"
proof -
  let ?T = "flatten [] 0 (programScope ast)"
  have T: "?T = [] @ flatten [] 0 (programScope ast) @ []" by simp
  have "concat (map (errorsAt ?T) [0 ..< 0 + length ?T]) = undefinedIn {} (programScope ast)
      \<and> concat (map (warningsAt ?T) [0 ..< 0 + length ?T]) = tdzWarningsIn (programScope ast)"
    by (rule analysis_flatten[OF T]) simp_all
  then show ?thesis
    by (simp add: analyseScopes_def traverse_tables analyseScopes_split)
qed

theorem validate_refines:
  assumes "parse code = Inr ast" and "traverseThrows ast = None"
  shows "errors (validateSimulationCode parse traverseThrows code) = undefinedIn {} (programScope ast)"
    and "valid (validateSimulationCode parse traverseThrows code)
           \<longleftrightarrow> undefinedIn {} (programScope ast) = []"
    and "warnings (validateSimulationCode parse traverseThrows code)
           = (if foundWarnings (traverse ast) @ tdzWarningsIn (programScope ast) \<noteq> []
              then Some (foundWarnings (traverse ast) @ tdzWarningsIn (programScope ast)) else None)"
  using assms by (simp_all add: validateSimulationCode_def Let_def analyseScopes_program)

lemma variable_undefinedError [simp]: "variable (undefinedError n l) = n"
  by (simp add: undefinedError_def)

lemma errType_undefinedError [simp]: "errType (undefinedError n l) = Undefined"
  by (simp add: undefinedError_def)

lemma filter_one_of_distinct:
  "distinct xs \<Longrightarrow> filter (\<lambda>n. n = X \<and> Q n) xs = (if X \<in> set xs \<and> Q X then [X] else [])"
  by (induction xs) auto

lemma filter_concat_map:
  "filter Q (concat (map f xs)) = concat (map (\<lambda>x. filter Q (f x)) xs)"
  by (induction xs) auto

lemma errors_for_name:
  "filter (\<lambda>e. variable e = X) (undefinedIn visible s) =
     (if X \<in> set KNOWN_GLOBALS then [] else map (undefinedError X) (undefinedLines visible X s))"
proof (induction visible s rule: undefinedIn.induct)
  case (1 visible ps ds us ss)
  let ?vis = "visible \<union> set ps \<union> fst ` set ds"
  let ?Q = "\<lambda>name. name \<notin> set KNOWN_GLOBALS \<and> name \<notin> ?vis"
  have own: "filter (\<lambda>e. variable e = X)
        (map (\<lambda>name. undefinedError name (hd (linesOf us name))) (filter ?Q (usedNames us)))
      = (if X \<in> set KNOWN_GLOBALS then []
         else map (undefinedError X)
                (if X \<in> fst ` set us \<and> X \<notin> ?vis then [hd (linesOf us X)] else []))"
  proof -
    have "filter (\<lambda>e. variable e = X)
        (map (\<lambda>name. undefinedError name (hd (linesOf us name))) (filter ?Q (usedNames us)))
      = map (\<lambda>name. undefinedError name (hd (linesOf us name)))
          (filter (\<lambda>n. n = X \<and> ?Q n) (usedNames us))"
      by (simp add: filter_map comp_def conj_commute)
    also have "\<dots> = map (\<lambda>name. undefinedError name (hd (linesOf us name)))
          (if X \<in> set (usedNames us) \<and> ?Q X then [X] else [])"
      by (simp only: filter_one_of_distinct[OF distinct_usedNames])
    finally show ?thesis by auto
  qed
  have inner: "filter (\<lambda>e. variable e = X) (concat (map (undefinedIn ?vis) ss))
      = (if X \<in> set KNOWN_GLOBALS then []
         else map (undefinedError X) (concat (map (undefinedLines ?vis X) ss)))"
    unfolding filter_concat_map
    by (simp add: "1.IH" map_concat comp_def cong: map_cong)
  show ?case
    by (simp only: undefinedIn.simps undefinedLines.simps filter_append own inner)
       (simp add: Let_def)
qed


subsection \<open>Usages before the declaration\<close>









subsection \<open>Undefined identifiers\<close>

text \<open>
  C3 as stated fails on the program
  \<^verbatim>\<open>y;\<close>
  \<^verbatim>\<open>{ y; }\<close>
  whose tree is a file with a program of two statements: the expression \<open>y\<close> on line 1,
  and on line 2 a block with the expression \<open>y\<close>. \<open>y\<close> is declared nowhere and is not in the
  allowlist; the global scope and the scope of the block each report it, so there are two
  errors that name \<open>y\<close>, not one.
\<close>

theorem undefined_identifier_reported_twice:
  "js ''y'' \<notin> set KNOWN_GLOBALS
   \<and> errors (validateSimulationCode
        (\<lambda>c. Inr (OtherNode [OtherNode
           [OtherNode [IdentifierNode (js ''y'') 1 OtherPosition],
            BlockStatement [OtherNode [IdentifierNode (js ''y'') 2 OtherPosition]]]]))
        (\<lambda>ast. None)
        (js ''y;'' @ [10] @ js ''{ y; }''))
     = [undefinedError (js ''y'') 1, undefinedError (js ''y'') 2]
   \<and> length (filter (\<lambda>e. variable e = js ''y'')
        (errors (validateSimulationCode
          (\<lambda>c. Inr (OtherNode [OtherNode
             [OtherNode [IdentifierNode (js ''y'') 1 OtherPosition],
              BlockStatement [OtherNode [IdentifierNode (js ''y'') 2 OtherPosition]]]]))
          (\<lambda>ast. None)
          (js ''y;'' @ [10] @ js ''{ y; }'')))) = 2"
  by code_simp

text \<open>
  C3, as the code has it. When the traversal of the tree throws, the result is not valid
  and its only error is the syntax error made from what was thrown. When the program
  parses and the traversal goes through, the errors of the result are the undefined
  identifiers of the program's tree of scopes, in the order of the scopes, the outer ones
  first; the result is valid exactly when there are none. For a name \<open>X\<close> outside the
  allowlist these are: one undefined-identifier error for every scope that has recorded a
  usage of \<open>X\<close> while neither the scope nor a scope around it has recorded a declaration of
  \<open>X\<close> or has \<open>X\<close> among its parameters; the error cites the line of the first usage of \<open>X\<close>
  that the scope has recorded. So there is exactly one error for \<open>X\<close> when exactly one scope
  is of this kind, and the result is not valid as soon as there is one.

  What a scope records is what \<open>declsIn\<close>, \<open>usesIn\<close> and \<open>scopesIn\<close> say: the names of
  declarators and of function declarations are declarations of the scope they stand in,
  wherever in the scope they stand; the parameters of a function and of a catch clause are
  parameters of the scope of the function and of the clause's block; every identifier
  outside the positions of \<open>notAUsage\<close> is a usage of the scope it stands in. The
  identifiers of a function's parameter list stand in the scope of the function; the
  identifier of a catch clause's parameter stands in the scope around the clause, whose
  own scope is that of its block, and is a usage there.
\<close>

theorem undefined_identifier_reported_per_scope:
  "(parse code = Inr ast \<and> traverseThrows ast = Some (thrown, pushed) \<longrightarrow>
      errors (validateSimulationCode parse traverseThrows code) = [syntaxError thrown]
      \<and> \<not> valid (validateSimulationCode parse traverseThrows code))
   \<and> (parse code = Inr ast \<and> traverseThrows ast = None \<and> X \<notin> set KNOWN_GLOBALS \<longrightarrow>
     filter (\<lambda>e. variable e = X) (errors (validateSimulationCode parse traverseThrows code))
       = map (undefinedError X) (undefinedLines {} X (programScope ast))
     \<and> (undefinedLines {} X (programScope ast) \<noteq> []
          \<longrightarrow> \<not> valid (validateSimulationCode parse traverseThrows code))
     \<and> errors (validateSimulationCode parse traverseThrows code) = undefinedIn {} (programScope ast)
     \<and> (valid (validateSimulationCode parse traverseThrows code)
          \<longleftrightarrow> errors (validateSimulationCode parse traverseThrows code) = []))"
proof (intro conjI impI)
  assume "parse code = Inr ast \<and> traverseThrows ast = Some (thrown, pushed)"
  then show "errors (validateSimulationCode parse traverseThrows code) = [syntaxError thrown]"
    and "\<not> valid (validateSimulationCode parse traverseThrows code)"
    by (simp_all add: validateSimulationCode_def caught_def)
next
  assume a: "parse code = Inr ast \<and> traverseThrows ast = None \<and> X \<notin> set KNOWN_GLOBALS"
  let ?r = "validateSimulationCode parse traverseThrows code"
  from a have p: "parse code = Inr ast" and t: "traverseThrows ast = None" by simp_all
  note e = validate_refines(1)[of parse code ast traverseThrows, OF p t]
  note v = validate_refines(2)[of parse code ast traverseThrows, OF p t]
  have f: "filter (\<lambda>e. variable e = X) (errors ?r)
      = map (undefinedError X) (undefinedLines {} X (programScope ast))"
    using a by (simp add: e errors_for_name)
  have n: "undefinedLines {} X (programScope ast) \<noteq> [] \<longrightarrow> \<not> valid ?r"
  proof
    assume "undefinedLines {} X (programScope ast) \<noteq> []"
    then have "filter (\<lambda>e. variable e = X) (errors ?r) \<noteq> []" by (simp add: f)
    then have "errors ?r \<noteq> []" by auto
    then show "\<not> valid ?r" by (simp add: v e)
  qed
  show "filter (\<lambda>e. variable e = X) (errors (validateSimulationCode parse traverseThrows code))
       = map (undefinedError X) (undefinedLines {} X (programScope ast))"
    by (rule f)
  show "\<not> valid (validateSimulationCode parse traverseThrows code)"
    if "undefinedLines {} X (programScope ast) \<noteq> []"
    using n that by blast
  show "errors (validateSimulationCode parse traverseThrows code) = undefinedIn {} (programScope ast)"
    by (rule e)
  show "valid (validateSimulationCode parse traverseThrows code)
    \<longleftrightarrow> errors (validateSimulationCode parse traverseThrows code) = []"
    using v e by simp
qed

text \<open>
  The program
  \<^verbatim>\<open>const g = 1;\<close>
  \<^verbatim>\<open>function f(a) { return a + b + g; }\<close>
  in which the function reads its parameter \<open>a\<close>, the global \<open>g\<close> and \<open>b\<close>, which is declared
  nowhere: there is one error, for \<open>b\<close> at line 2. And the program
  \<^verbatim>\<open>y;\<close>
  \<^verbatim>\<open>let x = 1;\<close>
  \<^verbatim>\<open>let x = 2;\<close>
  on which the traversal throws at the second declaration of \<open>x\<close>: the only error is the
  syntax error, and the undefined \<open>y\<close> is not reported.
\<close>

theorem undefined_identifier_reported_per_scope_witness:
  "filter (\<lambda>e. variable e = js ''b'')
     (errors (validateSimulationCode
        (\<lambda>c. Inr (OtherNode [OtherNode
     [OtherNode [VariableDeclarator (Identifier (js ''g'')) OtherInit 1
        [IdentifierNode (js ''g'') 1 VariableDeclaratorId, OtherNode []]],
      FunctionDeclaration (Some (js ''f'')) 2 [Identifier (js ''a'')]
        [IdentifierNode (js ''f'') 2 FunctionDeclarationId,
         IdentifierNode (js ''a'') 2 OtherPosition,
         BlockStatement [OtherNode [OtherNode
           [IdentifierNode (js ''a'') 2 OtherPosition,
            IdentifierNode (js ''b'') 2 OtherPosition,
            IdentifierNode (js ''g'') 2 OtherPosition]]]]]]))
        (\<lambda>ast. None)
        (js ''const g = 1;'' @ [10] @ js ''function f(a) { return a + b + g; }'')))
     = [undefinedError (js ''b'') 2]
   \<and> errors (validateSimulationCode
        (\<lambda>c. Inr (OtherNode [OtherNode
     [OtherNode [VariableDeclarator (Identifier (js ''g'')) OtherInit 1
        [IdentifierNode (js ''g'') 1 VariableDeclaratorId, OtherNode []]],
      FunctionDeclaration (Some (js ''f'')) 2 [Identifier (js ''a'')]
        [IdentifierNode (js ''f'') 2 FunctionDeclarationId,
         IdentifierNode (js ''a'') 2 OtherPosition,
         BlockStatement [OtherNode [OtherNode
           [IdentifierNode (js ''a'') 2 OtherPosition,
            IdentifierNode (js ''b'') 2 OtherPosition,
            IdentifierNode (js ''g'') 2 OtherPosition]]]]]]))
        (\<lambda>ast. None)
        (js ''const g = 1;'' @ [10] @ js ''function f(a) { return a + b + g; }''))
     = [undefinedError (js ''b'') 2]
   \<and> \<not> valid (validateSimulationCode
        (\<lambda>c. Inr (OtherNode [OtherNode
     [OtherNode [VariableDeclarator (Identifier (js ''g'')) OtherInit 1
        [IdentifierNode (js ''g'') 1 VariableDeclaratorId, OtherNode []]],
      FunctionDeclaration (Some (js ''f'')) 2 [Identifier (js ''a'')]
        [IdentifierNode (js ''f'') 2 FunctionDeclarationId,
         IdentifierNode (js ''a'') 2 OtherPosition,
         BlockStatement [OtherNode [OtherNode
           [IdentifierNode (js ''a'') 2 OtherPosition,
            IdentifierNode (js ''b'') 2 OtherPosition,
            IdentifierNode (js ''g'') 2 OtherPosition]]]]]]))
        (\<lambda>ast. None)
        (js ''const g = 1;'' @ [10] @ js ''function f(a) { return a + b + g; }''))
   \<and> errors (validateSimulationCode
        (\<lambda>c. Inr (OtherNode [OtherNode
     [OtherNode [IdentifierNode (js ''y'') 1 OtherPosition],
      OtherNode [VariableDeclarator (Identifier (js ''x'')) OtherInit 2
        [IdentifierNode (js ''x'') 2 VariableDeclaratorId, OtherNode []]],
      OtherNode [VariableDeclarator (Identifier (js ''x'')) OtherInit 3
        [IdentifierNode (js ''x'') 3 VariableDeclaratorId, OtherNode []]]]]))
        (\<lambda>ast. Some (Some (js ''Duplicate declaration x''), 0))
        (js ''y;'' @ [10] @ js ''let x = 1;'' @ [10] @ js ''let x = 2;''))
     = [syntaxError (Some (js ''Duplicate declaration x''))]
   \<and> \<not> valid (validateSimulationCode
        (\<lambda>c. Inr (OtherNode [OtherNode
     [OtherNode [IdentifierNode (js ''y'') 1 OtherPosition],
      OtherNode [VariableDeclarator (Identifier (js ''x'')) OtherInit 2
        [IdentifierNode (js ''x'') 2 VariableDeclaratorId, OtherNode []]],
      OtherNode [VariableDeclarator (Identifier (js ''x'')) OtherInit 3
        [IdentifierNode (js ''x'') 3 VariableDeclaratorId, OtherNode []]]]]))
        (\<lambda>ast. Some (Some (js ''Duplicate declaration x''), 0))
        (js ''y;'' @ [10] @ js ''let x = 1;'' @ [10] @ js ''let x = 2;''))"
proof -
  let ?ast = "OtherNode [OtherNode
     [OtherNode [VariableDeclarator (Identifier (js ''g'')) OtherInit 1
        [IdentifierNode (js ''g'') 1 VariableDeclaratorId, OtherNode []]],
      FunctionDeclaration (Some (js ''f'')) 2 [Identifier (js ''a'')]
        [IdentifierNode (js ''f'') 2 FunctionDeclarationId,
         IdentifierNode (js ''a'') 2 OtherPosition,
         BlockStatement [OtherNode [OtherNode
           [IdentifierNode (js ''a'') 2 OtherPosition,
            IdentifierNode (js ''b'') 2 OtherPosition,
            IdentifierNode (js ''g'') 2 OtherPosition]]]]]]"
  let ?parse = "\<lambda>c :: jsstring. (Inr ?ast :: jsstring option + node)"
  let ?through = "\<lambda>ast :: node. (None :: (jsstring option \<times> nat) option)"
  let ?code = "js ''const g = 1;'' @ [10] @ js ''function f(a) { return a + b + g; }''"
  let ?ast2 = "OtherNode [OtherNode
     [OtherNode [IdentifierNode (js ''y'') 1 OtherPosition],
      OtherNode [VariableDeclarator (Identifier (js ''x'')) OtherInit 2
        [IdentifierNode (js ''x'') 2 VariableDeclaratorId, OtherNode []]],
      OtherNode [VariableDeclarator (Identifier (js ''x'')) OtherInit 3
        [IdentifierNode (js ''x'') 3 VariableDeclaratorId, OtherNode []]]]]"
  let ?parse2 = "\<lambda>c :: jsstring. (Inr ?ast2 :: jsstring option + node)"
  let ?throws = "\<lambda>ast :: node. Some (Some (js ''Duplicate declaration x''), 0 :: nat)"
  let ?code2 = "js ''y;'' @ [10] @ js ''let x = 1;'' @ [10] @ js ''let x = 2;''"
  have g: "js ''b'' \<notin> set KNOWN_GLOBALS" by code_simp
  have h: "?parse ?code = Inr ?ast \<and> ?through ?ast = None \<and> js ''b'' \<notin> set KNOWN_GLOBALS"
    using g by simp
  have h2: "?parse2 ?code2 = Inr ?ast2 \<and> ?throws ?ast2 = Some (Some (js ''Duplicate declaration x''), 0)"
    by simp
  note t = undefined_identifier_reported_per_scope[where parse = ?parse and code = ?code
      and ast = ?ast and traverseThrows = ?through and X = "js ''b''", THEN conjunct2, THEN mp, OF h]
  note t2 = undefined_identifier_reported_per_scope[where parse = ?parse2 and code = ?code2
      and ast = ?ast2 and traverseThrows = ?throws and thrown = "Some (js ''Duplicate declaration x'')" and pushed = 0,
      THEN conjunct1, THEN mp, OF h2]
  have l: "undefinedLines {} (js ''b'') (programScope ?ast) = [2]" by code_simp
  have u: "undefinedIn {} (programScope ?ast) = [undefinedError (js ''b'') 2]" by code_simp
  have a: "filter (\<lambda>e. variable e = js ''b'')
      (errors (validateSimulationCode ?parse ?through ?code)) = [undefinedError (js ''b'') 2]"
    by (simp only: t[THEN conjunct1] l list.map)
  have b: "errors (validateSimulationCode ?parse ?through ?code)
      = [undefinedError (js ''b'') 2]"
    by (simp only: t[THEN conjunct2, THEN conjunct2, THEN conjunct1] u)
  have "undefinedLines {} (js ''b'') (programScope ?ast) \<noteq> []" unfolding l by simp
  from t[THEN conjunct2, THEN conjunct1, THEN mp, OF this]
  have c: "\<not> valid (validateSimulationCode ?parse ?through ?code)" .
  from a b c t2 show ?thesis by (simp only: simp_thms)
qed

subsection \<open>Temporal dead zone\<close>




text \<open>
  The line cited is the first that the scope has recorded. For a tree that the traversal
  does not visit in the order of the lines, here with the usage on line 3 before the one
  on line 2, it is not the earliest.
\<close>

lemma first_recorded_usage_is_cited:
  "\<not> inLineOrder (OtherNode [OtherNode
      [OtherNode [IdentifierNode (js ''foo'') 3 OtherPosition,
                  IdentifierNode (js ''foo'') 2 OtherPosition],
       OtherNode [VariableDeclarator (Identifier (js ''foo'')) OtherInit 4
         [IdentifierNode (js ''foo'') 4 VariableDeclaratorId, OtherNode []]]]])
   \<and> warnings (validateSimulationCode
        (\<lambda>c. Inr (OtherNode [OtherNode
           [OtherNode [IdentifierNode (js ''foo'') 3 OtherPosition,
                       IdentifierNode (js ''foo'') 2 OtherPosition],
            OtherNode [VariableDeclarator (Identifier (js ''foo'')) OtherInit 4
              [IdentifierNode (js ''foo'') 4 VariableDeclaratorId, OtherNode []]]]]))
        (\<lambda>ast. None) code)
     = Some [tdzWarning 3 (js ''foo'') 4]"
  by code_simp

section \<open>Properties of the budget\<close>

lemma consume_exhausted:
  "sectionCalls b sid \<ge> maxPerSection b \<Longrightarrow>
   consumeErrorCorrectionBudget (Some sid) b
     = (Some (SectionBudgetExhausted sid (sectionCalls b sid) (maxPerSection b)), b)"
  by (simp add: consumeErrorCorrectionBudget_def)

lemma consume_section_used:
  assumes "consumeErrorCorrectionBudget (Some sid) b = (r, b')"
  shows "maxPerSection b' = maxPerSection b \<and> (maxPerSection b = 1 \<longrightarrow> sectionCalls b' sid \<ge> 1)"
  using assms
  by (auto simp: consumeErrorCorrectionBudget_def Let_def sectionCalls_def map_of_mapSet
      split: if_splits)

lemma callLLM_budget: "callLLM llm req w = (r, w') \<Longrightarrow> budget w' = budget w"
  by (auto simp: callLLM_def)

lemma retryFix_budget:
  "retryFix llm parse traverseThrows c p e s v failed w = (r, w') \<Longrightarrow> budget w' = budget w"
  by (auto simp: retryFix_def callLLM_def Let_def split: sum.splits if_splits)

lemma fix_budget:
  assumes "fixSimulationCodeWithPatch llm parse traverseThrows c p e s v sectionId w = (r, w')"
  shows "budget w' = snd (consumeErrorCorrectionBudget sectionId (budget w))"
  using assms
  by (auto simp: fixSimulationCodeWithPatch_def callLLM_def Let_def
      split: prod.splits option.splits sum.splits if_splits dest: retryFix_budget)

text \<open>
  C2. A call of \<open>fixSimulationCodeWithPatch\<close> for a section whose count of corrections
  has reached the limit per section throws the budget error and leaves everything as it
  was: no request is added to those sent, and \<open>callsUsed\<close> keeps its value. With the limit
  of one correction per section, this is the situation after any earlier call for the
  same section, whatever its outcome.
\<close>

theorem exhausted_section_fails_before_any_request:
  "(sectionCalls (budget w) sid \<ge> maxPerSection (budget w) \<longrightarrow>
      fixSimulationCodeWithPatch llm parse traverseThrows code ps err stack vws (Some sid) w
        = (Inl (SectionBudgetExhausted sid (sectionCalls (budget w) sid) (maxPerSection (budget w))), w))
   \<and> (maxPerSection (budget w0) = 1
        \<and> fixSimulationCodeWithPatch llm0 parse0 traverseThrows0 code0 ps0 err0 stack0 vws0 (Some sid) w0 = (r0, w)
        \<longrightarrow> sectionCalls (budget w) sid \<ge> maxPerSection (budget w))"
proof (intro conjI impI)
  assume "sectionCalls (budget w) sid \<ge> maxPerSection (budget w)"
  then show "fixSimulationCodeWithPatch llm parse traverseThrows code ps err stack vws (Some sid) w
        = (Inl (SectionBudgetExhausted sid (sectionCalls (budget w) sid) (maxPerSection (budget w))), w)"
    by (simp add: fixSimulationCodeWithPatch_def consume_exhausted)
next
  assume a: "maxPerSection (budget w0) = 1
        \<and> fixSimulationCodeWithPatch llm0 parse0 traverseThrows0 code0 ps0 err0 stack0 vws0 (Some sid) w0 = (r0, w)"
  then have eq: "fixSimulationCodeWithPatch llm0 parse0 traverseThrows0 code0 ps0 err0 stack0 vws0 (Some sid) w0 = (r0, w)"
    by simp
  have "budget w = snd (consumeErrorCorrectionBudget (Some sid) (budget w0))"
    by (rule fix_budget[OF eq])
  then show "sectionCalls (budget w) sid \<ge> maxPerSection (budget w)"
    using a consume_section_used[of sid "budget w0" "fst (consumeErrorCorrectionBudget (Some sid) (budget w0))" "budget w"]
    by simp
qed

text \<open>
  A session of three sections. A first correction for section 7 reaches the model (which
  does not answer); the second one for the same section fails on the budget, and the
  request log and the counters are as the first call left them.
\<close>

theorem exhausted_section_fails_before_any_request_witness:
  "fixSimulationCodeWithPatch (\<lambda>n req. Inl (js ''offline'')) (\<lambda>c. Inr (OtherNode [])) (\<lambda>ast. None)
      (js ''x'') () (js ''boom'') None None (Some 7)
      \<lparr>budget = initErrorCorrectionBudget 3 ERROR_CORRECTION_BUDGET, requests = []\<rparr>
    = (Inl (RequestFailed (js ''offline'')),
       \<lparr>budget = \<lparr>maxCalls = 3, callsUsed = 1, perSection = [(7, 1)], maxPerSection = 1\<rparr>,
        requests = [initialRequest (js ''x'') () (js ''boom'') None None]\<rparr>)
   \<and> fixSimulationCodeWithPatch (\<lambda>n req. Inl (js ''offline'')) (\<lambda>c. Inr (OtherNode [])) (\<lambda>ast. None)
      (js ''x'') () (js ''boom'') None None (Some 7)
      \<lparr>budget = \<lparr>maxCalls = 3, callsUsed = 1, perSection = [(7, 1)], maxPerSection = 1\<rparr>,
       requests = [initialRequest (js ''x'') () (js ''boom'') None None]\<rparr>
    = (Inl (SectionBudgetExhausted 7 1 1),
       \<lparr>budget = \<lparr>maxCalls = 3, callsUsed = 1, perSection = [(7, 1)], maxPerSection = 1\<rparr>,
        requests = [initialRequest (js ''x'') () (js ''boom'') None None]\<rparr>)"
proof -
  let ?llm = "\<lambda>(n :: nat) (req :: unit request). (Inl (js ''offline'') :: jsstring + unit SimulationEditResult)"
  let ?parse = "\<lambda>c :: jsstring. (Inr (OtherNode []) :: jsstring option + node)"
  let ?through = "\<lambda>ast :: node. (None :: (jsstring option \<times> nat) option)"
  let ?w0 = "\<lparr>budget = initErrorCorrectionBudget 3 ERROR_CORRECTION_BUDGET,
              requests = ([] :: unit request list)\<rparr>"
  let ?w1 = "\<lparr>budget = \<lparr>maxCalls = 3, callsUsed = 1, perSection = [(7, 1)], maxPerSection = 1\<rparr>,
              requests = [initialRequest (js ''x'') () (js ''boom'') None None]\<rparr>"
  have first: "fixSimulationCodeWithPatch ?llm ?parse ?through (js ''x'') () (js ''boom'') None None (Some 7) ?w0
      = (Inl (RequestFailed (js ''offline'')), ?w1)"
    by (simp add: fixSimulationCodeWithPatch_def consumeErrorCorrectionBudget_def
        initErrorCorrectionBudget_def ERROR_CORRECTION_BUDGET_def sectionCalls_def callLLM_def)
  have one: "maxPerSection (budget ?w0) = 1"
    by (simp add: initErrorCorrectionBudget_def ERROR_CORRECTION_BUDGET_def)
  note t = exhausted_section_fails_before_any_request
    [of ?w1 7 ?llm ?parse ?through "js ''x''" "()" "js ''boom''" None None
        ?w0 ?llm ?parse ?through "js ''x''" "()" "js ''boom''" None None "Inl (RequestFailed (js ''offline''))"]
  from t one first have used: "sectionCalls (budget ?w1) 7 \<ge> maxPerSection (budget ?w1)"
    by blast
  with t have "fixSimulationCodeWithPatch ?llm ?parse ?through (js ''x'') () (js ''boom'') None None (Some 7) ?w1
      = (Inl (SectionBudgetExhausted 7 (sectionCalls (budget ?w1) 7) (maxPerSection (budget ?w1))), ?w1)"
    by blast
  moreover have "sectionCalls (budget ?w1) 7 = 1" by (simp add: sectionCalls_def)
  ultimately show ?thesis using first by simp
qed

section \<open>Properties of the correction by patches\<close>

lemma joinWith_member:
  "x \<in> set xs \<Longrightarrow> \<exists>a b. joinWith sep xs = a @ x @ b"
proof (induction sep xs rule: joinWith.induct)
  case (1 sep)
  then show ?case by simp
next
  case (2 sep piece)
  then have "joinWith sep [piece] = [] @ x @ []" by simp
  then show ?case by blast
next
  case (3 sep piece v va)
  show ?case
  proof (cases "x = piece")
    case True
    then have "joinWith sep (piece # v # va) = [] @ x @ (sep @ joinWith sep (v # va))" by simp
    then show ?thesis by blast
  next
    case False
    with 3 obtain a b where "joinWith sep (v # va) = a @ x @ b" by auto
    then have "joinWith sep (piece # v # va) = (piece @ sep @ a) @ x @ b" by simp
    then show ?thesis by blast
  qed
qed

lemma notAppliedMessage_names:
  assumes "e \<in> set failed"
  shows "includesStr (notAppliedMessage failed) (JSON_stringify (old_code e))"
proof -
  have "JSON_stringify (old_code e) \<in> set (map (\<lambda>e. JSON_stringify (old_code e)) failed)"
    using assms by auto
  from joinWith_member[OF this, of "js '', ''"] obtain a b where
    "joinWith (js '', '') (map (\<lambda>e. JSON_stringify (old_code e)) failed)
       = a @ JSON_stringify (old_code e) @ b" by blast
  then have "notAppliedMessage failed
      = (js ''Could not apply error fixes. These old_code strings were not found: '' @ a)
          @ JSON_stringify (old_code e) @ b"
    by (simp add: notAppliedMessage_def)
  then show ?thesis using includesStr_infix by metis
qed

lemma retryFix_requests:
  "requests (snd (retryFix llm parse traverseThrows c p e s v failed w))
     = requests w @ [retryRequest c p e s v failed]"
  by (auto simp: retryFix_def callLLM_def Let_def split: sum.splits)

text \<open>
  C4. When the budget lets the call through and the edits of the first answer do not all
  apply, one more request is sent and no other: the requests of the call are the initial
  one and the retry, which carries the failed edits. When the edits of the retry do not
  all apply either (to the code the function was called with), the call fails with a
  message in which the \<open>JSON.stringify\<close> of every unmatched \<open>old_code\<close> of the retry occurs.
  An edit counts as unmatched as \<open>applySimulationEdits\<close> finds it: its \<open>old_code\<close> does not
  occur in the code as the edits before it have rewritten it.
\<close>

theorem failed_edits_retried_once:
  assumes "consumeErrorCorrectionBudget sectionId (budget w) = (None, b)"
    and "llm (length (requests w)) (initialRequest code ps err stack vws) = Inr result"
    and "failedEdits (applySimulationEdits code (editsOf result)) \<noteq> []"
  shows "requests (snd (fixSimulationCodeWithPatch llm parse traverseThrows code ps err stack vws sectionId w))
      = requests w @ [initialRequest code ps err stack vws,
                      retryRequest code ps err stack vws
                        (failedEdits (applySimulationEdits code (editsOf result)))]
    \<and> (\<forall>retryResult.
          llm (Suc (length (requests w)))
              (retryRequest code ps err stack vws
                 (failedEdits (applySimulationEdits code (editsOf result)))) = Inr retryResult
          \<and> failedEdits (applySimulationEdits code (editsOf retryResult)) \<noteq> []
          \<longrightarrow> fst (fixSimulationCodeWithPatch llm parse traverseThrows code ps err stack vws sectionId w)
                = Inl (EditsNotApplied
                    (notAppliedMessage (failedEdits (applySimulationEdits code (editsOf retryResult)))))
              \<and> (\<forall>e \<in> set (failedEdits (applySimulationEdits code (editsOf retryResult))).
                    includesStr
                      (notAppliedMessage (failedEdits (applySimulationEdits code (editsOf retryResult))))
                      (JSON_stringify (old_code e))))"
proof -
  let ?failed = "failedEdits (applySimulationEdits code (editsOf result))"
  let ?w1 = "w\<lparr>budget := b, requests := requests w @ [initialRequest code ps err stack vws]\<rparr>"
  have unfolded: "fixSimulationCodeWithPatch llm parse traverseThrows code ps err stack vws sectionId w
      = retryFix llm parse traverseThrows code ps err stack vws ?failed ?w1"
    using assms by (simp add: fixSimulationCodeWithPatch_def callLLM_def Let_def)
  have reqs: "requests (snd (fixSimulationCodeWithPatch llm parse traverseThrows code ps err stack vws sectionId w))
      = requests w @ [initialRequest code ps err stack vws, retryRequest code ps err stack vws ?failed]"
    by (simp add: unfolded retryFix_requests)
  have fails: "fst (fixSimulationCodeWithPatch llm parse traverseThrows code ps err stack vws sectionId w)
        = Inl (EditsNotApplied
            (notAppliedMessage (failedEdits (applySimulationEdits code (editsOf retryResult)))))"
    if "llm (Suc (length (requests w))) (retryRequest code ps err stack vws ?failed) = Inr retryResult"
      and "failedEdits (applySimulationEdits code (editsOf retryResult)) \<noteq> []"
    for retryResult
    using that by (simp add: unfolded retryFix_def callLLM_def Let_def)
  show ?thesis
    using reqs fails notAppliedMessage_names by blast
qed

text \<open>
  The code is \<open>a+a\<close>. The first answer asks to replace \<open>zz\<close>, the second one \<open>yy\<close> and
  \<open>q"\<close>: two requests are sent, and the error names \<open>"yy"\<close> and \<open>"q\"\<close>.
\<close>

theorem failed_edits_retried_once_witness:
  "requests (snd (fixSimulationCodeWithPatch
       (\<lambda>n req. if n = 0
          then Inr \<lparr>res_explanation = [], res_edits = Some [\<lparr>old_code = js ''zz'', new_code = js ''q''\<rparr>],
                    res_params = None\<rparr>
          else Inr \<lparr>res_explanation = [],
                    res_edits = Some [\<lparr>old_code = js ''yy'', new_code = js ''q''\<rparr>,
                                      \<lparr>old_code = js ''a'', new_code = js ''b''\<rparr>,
                                      \<lparr>old_code = js ''q'' @ [34], new_code = []\<rparr>],
                    res_params = None\<rparr>)
       (\<lambda>c. Inr (OtherNode [])) (\<lambda>ast. None) (js ''a+a'') () (js ''boom'') None None (Some 7)
       \<lparr>budget = initErrorCorrectionBudget 3 ERROR_CORRECTION_BUDGET, requests = []\<rparr>))
     = [initialRequest (js ''a+a'') () (js ''boom'') None None,
        retryRequest (js ''a+a'') () (js ''boom'') None None [\<lparr>old_code = js ''zz'', new_code = js ''q''\<rparr>]]
   \<and> fst (fixSimulationCodeWithPatch
       (\<lambda>n req. if n = 0
          then Inr \<lparr>res_explanation = [], res_edits = Some [\<lparr>old_code = js ''zz'', new_code = js ''q''\<rparr>],
                    res_params = None\<rparr>
          else Inr \<lparr>res_explanation = [],
                    res_edits = Some [\<lparr>old_code = js ''yy'', new_code = js ''q''\<rparr>,
                                      \<lparr>old_code = js ''a'', new_code = js ''b''\<rparr>,
                                      \<lparr>old_code = js ''q'' @ [34], new_code = []\<rparr>],
                    res_params = None\<rparr>)
       (\<lambda>c. Inr (OtherNode [])) (\<lambda>ast. None) (js ''a+a'') () (js ''boom'') None None (Some 7)
       \<lparr>budget = initErrorCorrectionBudget 3 ERROR_CORRECTION_BUDGET, requests = []\<rparr>)
     = Inl (EditsNotApplied
         (js ''Could not apply error fixes. These old_code strings were not found: ''
            @ [34] @ js ''yy'' @ [34] @ js '', '' @ [34] @ js ''q'' @ [92, 34] @ [34]))
   \<and> includesStr
        (js ''Could not apply error fixes. These old_code strings were not found: ''
            @ [34] @ js ''yy'' @ [34] @ js '', '' @ [34] @ js ''q'' @ [92, 34] @ [34])
        (JSON_stringify (js ''q'' @ [34]))"
proof -
  let ?r1 = "\<lparr>res_explanation = [], res_edits = Some [\<lparr>old_code = js ''zz'', new_code = js ''q''\<rparr>],
              res_params = (None :: unit option)\<rparr>"
  let ?r2 = "\<lparr>res_explanation = [],
              res_edits = Some [\<lparr>old_code = js ''yy'', new_code = js ''q''\<rparr>,
                                \<lparr>old_code = js ''a'', new_code = js ''b''\<rparr>,
                                \<lparr>old_code = js ''q'' @ [34], new_code = []\<rparr>],
              res_params = (None :: unit option)\<rparr>"
  let ?llm = "\<lambda>(n :: nat) (req :: unit request).
      if n = 0 then (Inr ?r1 :: jsstring + unit SimulationEditResult) else Inr ?r2"
  let ?parse = "\<lambda>c :: jsstring. (Inr (OtherNode []) :: jsstring option + node)"
  let ?through = "\<lambda>ast :: node. (None :: (jsstring option \<times> nat) option)"
  let ?w = "\<lparr>budget = initErrorCorrectionBudget 3 ERROR_CORRECTION_BUDGET,
             requests = ([] :: unit request list)\<rparr>"
  let ?b = "\<lparr>maxCalls = 3, callsUsed = 1, perSection = [(7, 1)], maxPerSection = 1\<rparr>"
  let ?failed2 = "[\<lparr>old_code = js ''yy'', new_code = js ''q''\<rparr>,
                   \<lparr>old_code = js ''q'' @ [34], new_code = []\<rparr>]"
  have h1: "consumeErrorCorrectionBudget (Some 7) (budget ?w) = (None, ?b)"
    by (simp add: consumeErrorCorrectionBudget_def initErrorCorrectionBudget_def
        ERROR_CORRECTION_BUDGET_def sectionCalls_def)
  have h2: "?llm (length (requests ?w)) (initialRequest (js ''a+a'') () (js ''boom'') None None)
      = Inr ?r1"
    by simp
  have f1: "failedEdits (applySimulationEdits (js ''a+a'') (editsOf ?r1))
      = [\<lparr>old_code = js ''zz'', new_code = js ''q''\<rparr>]"
    by code_simp
  then have h3: "failedEdits (applySimulationEdits (js ''a+a'') (editsOf ?r1)) \<noteq> []"
    by simp
  have h4: "?llm (Suc (length (requests ?w)))
      (retryRequest (js ''a+a'') () (js ''boom'') None None
         (failedEdits (applySimulationEdits (js ''a+a'') (editsOf ?r1)))) = Inr ?r2"
    by simp
  have f2: "failedEdits (applySimulationEdits (js ''a+a'') (editsOf ?r2)) = ?failed2"
    by code_simp
  then have h5: "failedEdits (applySimulationEdits (js ''a+a'') (editsOf ?r2)) \<noteq> []"
    by simp
  have msg: "notAppliedMessage ?failed2
      = js ''Could not apply error fixes. These old_code strings were not found: ''
            @ [34] @ js ''yy'' @ [34] @ js '', '' @ [34] @ js ''q'' @ [92, 34] @ [34]"
    by code_simp
  note t = failed_edits_retried_once[of "Some 7" ?w ?b ?llm "js ''a+a''" "()" "js ''boom''"
      None None ?r1 ?parse ?through, OF h1 h2 h3]
  from t have reqs: "requests (snd (fixSimulationCodeWithPatch ?llm ?parse ?through (js ''a+a'') ()
        (js ''boom'') None None (Some 7) ?w))
      = requests ?w @ [initialRequest (js ''a+a'') () (js ''boom'') None None,
          retryRequest (js ''a+a'') () (js ''boom'') None None
            (failedEdits (applySimulationEdits (js ''a+a'') (editsOf ?r1)))]"
    by blast
  from t h4 h5 have res: "fst (fixSimulationCodeWithPatch ?llm ?parse ?through (js ''a+a'') ()
        (js ''boom'') None None (Some 7) ?w)
      = Inl (EditsNotApplied (notAppliedMessage
          (failedEdits (applySimulationEdits (js ''a+a'') (editsOf ?r2)))))"
    by blast
  from t h4 h5 have named: "\<forall>e \<in> set (failedEdits (applySimulationEdits (js ''a+a'') (editsOf ?r2))).
      includesStr (notAppliedMessage (failedEdits (applySimulationEdits (js ''a+a'') (editsOf ?r2))))
        (JSON_stringify (old_code e))"
    by blast
  have c1: "requests (snd (fixSimulationCodeWithPatch ?llm ?parse ?through (js ''a+a'') ()
        (js ''boom'') None None (Some 7) ?w))
      = [initialRequest (js ''a+a'') () (js ''boom'') None None,
         retryRequest (js ''a+a'') () (js ''boom'') None None [\<lparr>old_code = js ''zz'', new_code = js ''q''\<rparr>]]"
    using reqs unfolding f1 by simp
  have c2: "fst (fixSimulationCodeWithPatch ?llm ?parse ?through (js ''a+a'') ()
        (js ''boom'') None None (Some 7) ?w)
      = Inl (EditsNotApplied
         (js ''Could not apply error fixes. These old_code strings were not found: ''
            @ [34] @ js ''yy'' @ [34] @ js '', '' @ [34] @ js ''q'' @ [92, 34] @ [34]))"
    using res unfolding f2 msg .
  have c3: "includesStr
        (js ''Could not apply error fixes. These old_code strings were not found: ''
            @ [34] @ js ''yy'' @ [34] @ js '', '' @ [34] @ js ''q'' @ [92, 34] @ [34])
        (JSON_stringify (js ''q'' @ [34]))"
    using named unfolding f2 msg by simp
  from c1 c2 c3 show ?thesis by (simp only: simp_thms)
qed








section \<open>Properties of applying edits\<close>

lemma applyEditsLoop_snoc:
  "applyEditsLoop cur failed (es @ [e]) =
     (let r = applyEditsLoop cur failed es in
      if \<not> includesStr (newCode r) (old_code e)
      then r\<lparr>failedEdits := failedEdits r @ [e]\<rparr>
      else r\<lparr>newCode := replaceAll (newCode r) (old_code e) (new_code e)\<rparr>)"
  by (induction es arbitrary: cur failed) (simp_all add: Let_def)

lemma codeBeforeEdit_Suc:
  assumes "i < length edits"
  shows "codeBeforeEdit code edits (Suc i) =
     (if includesStr (codeBeforeEdit code edits i) (old_code (edits ! i))
      then replaceAll (codeBeforeEdit code edits i) (old_code (edits ! i)) (new_code (edits ! i))
      else codeBeforeEdit code edits i)"
  using assms
  by (simp add: codeBeforeEdit_def applySimulationEdits_def take_Suc_conv_app_nth
      applyEditsLoop_snoc Let_def)

lemma failedEdits_snoc:
  "failedEdits (applySimulationEdits code (es @ [e])) =
     failedEdits (applySimulationEdits code es)
       @ (if includesStr (newCode (applySimulationEdits code es)) (old_code e) then [] else [e])"
  by (simp add: applySimulationEdits_def applyEditsLoop_snoc Let_def)

lemma failedEdits_take:
  "n \<le> length edits \<Longrightarrow>
   failedEdits (applySimulationEdits code (take n edits)) =
     map (\<lambda>i. edits ! i)
       (filter (\<lambda>i. \<not> includesStr (codeBeforeEdit code edits i) (old_code (edits ! i))) [0..<n])"
proof (induction n)
  case 0
  then show ?case by (simp add: applySimulationEdits_def)
next
  case (Suc n)
  then show ?case
    by (simp add: take_Suc_conv_app_nth failedEdits_snoc codeBeforeEdit_def)
qed

lemma stringIndexOf_shift:
  "k \<le> length s \<Longrightarrow>
   stringIndexOf s pat (j + k) = map_option (\<lambda>p. p + k) (stringIndexOf (drop k s) pat j)"
  by (auto simp: stringIndexOf_def option.map_comp comp_def add.commute add.left_commute)

lemma matchPositions_shift:
  "k \<le> length s \<Longrightarrow>
   matchPositions s pat (j + k) = map (\<lambda>p. p + k) (matchPositions (drop k s) pat j)"
proof (induction "drop k s" pat j rule: matchPositions.induct)
  case (1 pat j)
  show ?case
  proof (cases "stringIndexOf (drop k s) pat j")
    case None
    then have "stringIndexOf s pat (j + k) = None"
      using 1(2) by (simp add: stringIndexOf_shift)
    then have "matchPositions s pat (j + k) = []"
      by (subst matchPositions.simps) simp
    moreover have "matchPositions (drop k s) pat j = []"
      using None by (subst matchPositions.simps) simp
    ultimately show ?thesis by simp
  next
    case (Some p)
    then have "stringIndexOf s pat (j + k) = Some (p + k)"
      using 1(2) by (simp add: stringIndexOf_shift)
    then have l: "matchPositions s pat (j + k)
        = (p + k) # matchPositions s pat ((p + max 1 (length pat)) + k)"
      by (subst matchPositions.simps) (simp add: ac_simps)
    have r: "matchPositions (drop k s) pat j
        = p # matchPositions (drop k s) pat (p + max 1 (length pat))"
      using Some by (subst matchPositions.simps) simp
    have "matchPositions s pat ((p + max 1 (length pat)) + k) =
          map (\<lambda>p. p + k) (matchPositions (drop k s) pat (p + max 1 (length pat)))"
      using 1(1)[OF Some] 1(2) by simp
    with l r show ?thesis by simp
  qed
qed

lemma buildReplaced_shift:
  "DOLLAR \<notin> set templ \<Longrightarrow> k \<le> length s \<Longrightarrow>
   buildReplaced s pat templ (map (\<lambda>p. p + k) ps) (e + k) = buildReplaced (drop k s) pat templ ps e"
proof (induction ps arbitrary: e)
  case Nil
  then show ?case by (simp add: add.commute)
next
  case (Cons p ps)
  have "substring s (e + k) (p + k) = substring (drop k s) e p"
    using Cons.prems(2) by (auto simp: substring_def Let_def min_def max_def add.commute)
  moreover have "buildReplaced s pat templ (map (\<lambda>p. p + k) ps) (p + length pat + k)
      = buildReplaced (drop k s) pat templ ps (p + length pat)"
    using Cons by blast
  ultimately show ?case using Cons.prems
    by (simp add: getSubstitution_literal add.commute add.left_commute add.assoc)
qed

lemma replaceAll_first_then_rest:
  assumes "pat \<noteq> []" "DOLLAR \<notin> set templ" "findFirst pat s = Some i"
  shows "replaceAll s pat templ = take i s @ templ @ replaceAll (drop (i + length pat) s) pat templ"
proof -
  from assms(3) have i: "i \<le> length s" "prefix pat (drop i s)"
    using findFirst_Some_prefix by blast+
  have len: "i + length pat \<le> length s"
    using assms(3) by (rule findFirst_bound)
  have m1: "max 1 (length pat) = length pat" using assms(1) by (cases pat) auto
  have pos: "matchPositions s pat 0 = i # matchPositions s pat (i + length pat)"
    using assms(3)
    by (subst matchPositions.simps) (simp add: stringIndexOf_def m1 del: max_Suc1 One_nat_def)
  have "matchPositions s pat (0 + (i + length pat))
      = map (\<lambda>p. p + (i + length pat)) (matchPositions (drop (i + length pat) s) pat 0)"
    using len by (rule matchPositions_shift)
  moreover have "buildReplaced s pat templ
        (map (\<lambda>p. p + (i + length pat)) (matchPositions (drop (i + length pat) s) pat 0))
        (0 + (i + length pat))
      = buildReplaced (drop (i + length pat) s) pat templ
          (matchPositions (drop (i + length pat) s) pat 0) 0"
    using assms(2) len by (rule buildReplaced_shift)
  ultimately show ?thesis
    using i(1) by (simp add: replaceAll_def pos substring_def getSubstitution_literal assms(2))
qed

lemma replaceAll_absent: "\<not> includesStr s pat \<Longrightarrow> replaceAll s pat templ = s"
  by (simp add: includesStr_def replaceAll_def matchPositions.simps stringIndexOf_def)

text \<open>
  C10. \<open>applySimulationEdits\<close> applies the edits one after the other to the code as the
  edits before have left it. The code starts as the input; an edit whose \<open>old_code\<close>
  occurs in the current code rewrites it with \<open>replaceAll\<close>, any other edit leaves it as
  it is; the failed edits are exactly those whose \<open>old_code\<close> does not occur in the code
  current at their turn, in their order; and the code returned is the one after the last
  edit, whether or not edits failed. \<open>replaceAll\<close> goes beyond the first occurrence: for
  a search text that is not empty and a replacement without a dollar sign, the text up to
  the first occurrence is kept, the replacement follows, and the rest of the text after
  that occurrence is treated in the same way.
\<close>

theorem applySimulationEdits_sequential:
  "codeBeforeEdit code edits 0 = code
   \<and> (\<forall>i < length edits.
        codeBeforeEdit code edits (Suc i) =
          (if includesStr (codeBeforeEdit code edits i) (old_code (edits ! i))
           then replaceAll (codeBeforeEdit code edits i)
                  (old_code (edits ! i)) (new_code (edits ! i))
           else codeBeforeEdit code edits i))
   \<and> failedEdits (applySimulationEdits code edits) =
        map (\<lambda>i. edits ! i)
          (filter (\<lambda>i. \<not> includesStr (codeBeforeEdit code edits i) (old_code (edits ! i)))
             [0..<length edits])
   \<and> newCode (applySimulationEdits code edits) = codeBeforeEdit code edits (length edits)
   \<and> (\<forall>s pat templ i.
        pat \<noteq> [] \<and> DOLLAR \<notin> set templ \<and> findFirst pat s = Some i \<longrightarrow>
        replaceAll s pat templ
          = take i s @ templ @ replaceAll (drop (i + length pat) s) pat templ)"
proof (intro conjI allI impI)
  show "codeBeforeEdit code edits 0 = code"
    by (simp add: codeBeforeEdit_def applySimulationEdits_def)
next
  fix i assume "i < length edits"
  then show "codeBeforeEdit code edits (Suc i) =
      (if includesStr (codeBeforeEdit code edits i) (old_code (edits ! i))
       then replaceAll (codeBeforeEdit code edits i) (old_code (edits ! i)) (new_code (edits ! i))
       else codeBeforeEdit code edits i)"
    by (rule codeBeforeEdit_Suc)
next
  show "failedEdits (applySimulationEdits code edits) =
      map (\<lambda>i. edits ! i)
        (filter (\<lambda>i. \<not> includesStr (codeBeforeEdit code edits i) (old_code (edits ! i)))
           [0..<length edits])"
    using failedEdits_take[of "length edits" edits code] by simp
next
  show "newCode (applySimulationEdits code edits) = codeBeforeEdit code edits (length edits)"
    by (simp add: codeBeforeEdit_def)
next
  fix s pat templ :: jsstring and i :: nat
  assume "pat \<noteq> [] \<and> DOLLAR \<notin> set templ \<and> findFirst pat s = Some i"
  then show "replaceAll s pat templ
      = take i s @ templ @ replaceAll (drop (i + length pat) s) pat templ"
    using replaceAll_first_then_rest by blast
qed

text \<open>
  On the code \<open>a+a\<close> with the edits \<open>a\<close> to \<open>b\<close>, \<open>zz\<close> to \<open>q\<close> and \<open>+\<close> to \<open>-\<close>: both
  occurrences of \<open>a\<close> are replaced, the second edit fails, and the third is still applied.
\<close>

theorem applySimulationEdits_sequential_witness:
  "codeBeforeEdit (js ''a+a'')
      [\<lparr>old_code = js ''a'', new_code = js ''b''\<rparr>, \<lparr>old_code = js ''zz'', new_code = js ''q''\<rparr>,
       \<lparr>old_code = js ''+'', new_code = js ''-''\<rparr>] (Suc 0) = js ''b+b''
   \<and> failedEdits (applySimulationEdits (js ''a+a'')
      [\<lparr>old_code = js ''a'', new_code = js ''b''\<rparr>, \<lparr>old_code = js ''zz'', new_code = js ''q''\<rparr>,
       \<lparr>old_code = js ''+'', new_code = js ''-''\<rparr>]) = [\<lparr>old_code = js ''zz'', new_code = js ''q''\<rparr>]
   \<and> newCode (applySimulationEdits (js ''a+a'')
      [\<lparr>old_code = js ''a'', new_code = js ''b''\<rparr>, \<lparr>old_code = js ''zz'', new_code = js ''q''\<rparr>,
       \<lparr>old_code = js ''+'', new_code = js ''-''\<rparr>]) = js ''b-b''
   \<and> replaceAll (js ''a+a'') (js ''a'') (js ''b'') = js ''b'' @ replaceAll (js ''+a'') (js ''a'') (js ''b'')"
proof -
  let ?code = "js ''a+a''"
  let ?edits = "[\<lparr>old_code = js ''a'', new_code = js ''b''\<rparr>,
                 \<lparr>old_code = js ''zz'', new_code = js ''q''\<rparr>,
                 \<lparr>old_code = js ''+'', new_code = js ''-''\<rparr>]"
  note t = applySimulationEdits_sequential[of ?code ?edits]
  have first: "includesStr ?code (js ''a'')" by code_simp
  have r0: "replaceAll ?code (js ''a'') (js ''b'') = js ''b+b''" by code_simp
  have second: "\<not> includesStr (js ''b+b'') (js ''zz'')" by code_simp
  have third: "includesStr (js ''b+b'') (js ''+'')" by code_simp
  have r2: "replaceAll (js ''b+b'') (js ''+'') (js ''-'') = js ''b-b''" by code_simp
  have len: "length ?edits = 3" by simp
  have c0: "codeBeforeEdit ?code ?edits 0 = ?code" using t by blast
  have step: "\<And>i. i < 3 \<Longrightarrow> codeBeforeEdit ?code ?edits (Suc i) =
      (if includesStr (codeBeforeEdit ?code ?edits i) (old_code (?edits ! i))
       then replaceAll (codeBeforeEdit ?code ?edits i)
              (old_code (?edits ! i)) (new_code (?edits ! i))
       else codeBeforeEdit ?code ?edits i)"
    using t unfolding len by blast
  have c1: "codeBeforeEdit ?code ?edits (Suc 0) = js ''b+b''"
    using step[of 0] c0 first r0 by simp
  have c2: "codeBeforeEdit ?code ?edits (Suc (Suc 0)) = js ''b+b''"
    using step[of "Suc 0"] c1 second by simp
  have c3: "codeBeforeEdit ?code ?edits (Suc (Suc (Suc 0))) = js ''b-b''"
    using step[of "Suc (Suc 0)"] c2 third r2 by simp
  have "failedEdits (applySimulationEdits ?code ?edits) =
      map (\<lambda>i. ?edits ! i)
        (filter (\<lambda>i. \<not> includesStr (codeBeforeEdit ?code ?edits i) (old_code (?edits ! i)))
           [0..<length ?edits])"
    using t by blast
  moreover have "[0..<length ?edits] = [0, Suc 0, Suc (Suc 0)]"
    by (simp add: upt_rec)
  ultimately have failed: "failedEdits (applySimulationEdits ?code ?edits)
      = [\<lparr>old_code = js ''zz'', new_code = js ''q''\<rparr>]"
    using c0 c1 c2 first second third by simp
  have "newCode (applySimulationEdits ?code ?edits) = codeBeforeEdit ?code ?edits (length ?edits)"
    using t by blast
  then have new: "newCode (applySimulationEdits ?code ?edits) = js ''b-b''"
    using c3 by (simp add: numeral_3_eq_3)
  have ff: "findFirst (js ''a'') ?code = Some 0" by code_simp
  have nd: "js ''a'' \<noteq> [] \<and> DOLLAR \<notin> set (js ''b'')" by code_simp
  have "replaceAll ?code (js ''a'') (js ''b'')
      = take 0 ?code @ js ''b'' @ replaceAll (drop (0 + length (js ''a'')) ?code) (js ''a'') (js ''b'')"
    using t nd ff by blast
  moreover have "drop (0 + length (js ''a'')) ?code = js ''+a''" by code_simp
  ultimately have rec: "replaceAll ?code (js ''a'') (js ''b'')
      = js ''b'' @ replaceAll (js ''+a'') (js ''a'') (js ''b'')"
    by simp
  from c1 failed new rec show ?thesis by (simp only: simp_thms)
qed


section \<open>Properties of the wrapped event handlers\<close>












end
